theory Spec2Isabelle
  imports Main "HOL-Library.Sublist" "HOL-Library.Word"
begin

section \<open>The media storage gateway (upload.service.ts)\<close>

text \<open>
  The class UploadService stores binary assets either on the local filesystem or in a
  remote blob store. Its six public operations (three saves, three deletes) and its
  constructor are embedded below as functions over an explicit world: the filesystem, the
  state of the blob store and the list of calls made to the blob store. Exceptions are
  values of the type \<open>error\<close>; an asynchronous operation that rejects returns \<open>Inl\<close>.
  Logging and timing are not part of the model.
\<close>

subsection \<open>Strings\<close>

type_synonym byte = "8 word"

text \<open>\<open>s.startsWith(p)\<close>\<close>

definition startsWith :: "string \<Rightarrow> string \<Rightarrow> bool" where
  "startsWith s p = prefix p s"

text \<open>\<open>s.split('/')\<close>: never empty, \<open>''''.split('/')\<close> is \<open>['''']\<close>.\<close>

fun split_on :: "char \<Rightarrow> string \<Rightarrow> string list" where
  "split_on c [] = [[]]"
| "split_on c (x # xs) =
     (if x = c then [] # split_on c xs
      else (case split_on c xs of
              [] \<Rightarrow> [[x]]
            | y # ys \<Rightarrow> (x # y) # ys))"

definition split_slash :: "string \<Rightarrow> string list" where
  "split_slash s = split_on (CHR ''/'') s"

text \<open>\<open>parts.join('/')\<close>\<close>

fun join_slash :: "string list \<Rightarrow> string" where
  "join_slash [] = []"
| "join_slash [x] = x"
| "join_slash (x # y # ys) = x @ CHR ''/'' # join_slash (y # ys)"

text \<open>
  The line terminators, which \<open>.\<close> of a regular expression does not match. Among the
  characters of this model, which are bytes, they are the line feed and the carriage return.
\<close>

definition line_break :: "char \<Rightarrow> bool" where
  "line_break c = (c = CHR 0x0A \<or> c = CHR 0x0D)"

text \<open>
  \<open>s.match(/\.com\/(.+)$/)\<close>, reduced to its first group: the text after the leftmost
  \<open>.com/\<close> that is followed, up to the end of the string, by at least one character and by
  no line terminator. \<open>None\<close> when the expression does not match.
\<close>

fun match_com :: "string \<Rightarrow> string option" where
  "match_com [] = None"
| "match_com (c # cs) =
     (let rest = drop 5 (c # cs)
      in if prefix ''.com/'' (c # cs) \<and> rest \<noteq> [] \<and> \<not> list_ex line_break rest
         then Some rest
         else match_com cs)"

subsection \<open>The path module (POSIX flavour)\<close>

text \<open>
  \<open>normalizeString\<close> walks the segments from the left and keeps the segments of the
  result, last one first: empty segments and \<open>.\<close> are skipped, \<open>..\<close> removes the last
  segment, or is kept when there is nothing to remove and the path is relative.
\<close>

definition norm_step :: "bool \<Rightarrow> string \<Rightarrow> string list \<Rightarrow> string list" where
  "norm_step allowAboveRoot seg acc =
     (if seg = [] \<or> seg = ''.'' then acc
      else if seg = ''..'' then
        (case acc of
           [] \<Rightarrow> (if allowAboveRoot then [''..''] else [])
         | t # ts \<Rightarrow> (if t = ''..'' then (if allowAboveRoot then ''..'' # t # ts else t # ts)
                      else ts))
      else seg # acc)"

definition normalizeString :: "string \<Rightarrow> bool \<Rightarrow> string" where
  "normalizeString p allowAboveRoot =
     join_slash (rev (fold (norm_step allowAboveRoot) (split_slash p) []))"

definition normalize :: "string \<Rightarrow> string" where
  "normalize p =
     (if p = [] then ''.''
      else
        (let isAbsolute = (hd p = CHR ''/'');
             trailingSeparator = (last p = CHR ''/'');
             q = normalizeString p (\<not> isAbsolute)
         in if q = [] then (if isAbsolute then ''/'' else if trailingSeparator then ''./'' else ''.'')
            else (if isAbsolute then ''/'' else []) @ q @ (if trailingSeparator then ''/'' else [])))"

text \<open>\<open>path.join(...args)\<close>: empty arguments are skipped.\<close>

definition join :: "string list \<Rightarrow> string" where
  "join args =
     (let parts = filter (\<lambda>a. a \<noteq> []) args
      in if parts = [] then ''.'' else normalize (join_slash parts))"

text \<open>
  \<open>path.extname(p)\<close>: trailing slashes are ignored; the extension starts at the last dot of
  the last segment; there is none when the segment has no dot, starts with its only dot,
  or is \<open>..\<close>. The computation runs on the reversed string, as the library scans from the
  end.
\<close>

definition extname :: "string \<Rightarrow> string" where
  "extname p =
     (let rbase = takeWhile (\<lambda>c. c \<noteq> CHR ''/'') (dropWhile (\<lambda>c. c = CHR ''/'') (rev p));
          rext = takeWhile (\<lambda>c. c \<noteq> CHR ''.'') rbase;
          rstem = drop (Suc (length rext)) rbase
      in if CHR ''.'' \<notin> set rbase \<or> rstem = [] \<or> rbase = ''..'' then []
         else CHR ''.'' # rev rext)"

subsection \<open>Errors\<close>

datatype error =
    NoFileProvided
  | InvalidURL
  | ENOENT
  | ENOTDIR
  | EISDIR
  | EEXIST
  | BlobError string

subsection \<open>The filesystem\<close>

text \<open>
  Regular files with their contents, and directories, each under the string that
  \<open>join\<close> returns for it. The operations are those of fs-extra that the service calls.
\<close>

record filesystem =
  files :: "string \<rightharpoonup> byte list"
  dirs :: "string set"

definition segments :: "string \<Rightarrow> string list" where
  "segments p = filter (\<lambda>s. s \<noteq> []) (split_slash p)"

definition abs_path :: "string list \<Rightarrow> string" where
  "abs_path ss = CHR ''/'' # join_slash ss"

text \<open>A path and the directories above it, the root first.\<close>

definition path_prefixes :: "string \<Rightarrow> string list" where
  "path_prefixes p = map (\<lambda>k. abs_path (take k (segments p))) [0..<Suc (length (segments p))]"

definition parent_dir :: "string \<Rightarrow> string" where
  "parent_dir p = abs_path (butlast (segments p))"

definition existsSync :: "filesystem \<Rightarrow> string \<Rightarrow> bool" where
  "existsSync fs p = (files fs p \<noteq> None \<or> p \<in> dirs fs)"

text \<open>\<open>mkdirSync(p, { recursive: true })\<close>\<close>

definition mkdirSync :: "string \<Rightarrow> filesystem \<Rightarrow> error + filesystem" where
  "mkdirSync p fs =
     (if files fs p \<noteq> None then Inl EEXIST
      else if list_ex (\<lambda>q. files fs q \<noteq> None) (path_prefixes p) then Inl ENOTDIR
      else Inr (fs\<lparr>dirs := dirs fs \<union> insert p (set (path_prefixes p))\<rparr>))"

text \<open>
  \<open>createWriteStream(p)\<close>, \<open>write(buffer)\<close>, \<open>end()\<close>, until the stream emits \<open>finish\<close>
  (\<open>Inr\<close>) or \<open>error\<close> (\<open>Inl\<close>).
\<close>

definition writeStream :: "string \<Rightarrow> byte list \<Rightarrow> filesystem \<Rightarrow> error + filesystem" where
  "writeStream p buf fs =
     (if p \<in> dirs fs then Inl EISDIR
      else if files fs (parent_dir p) \<noteq> None then Inl ENOTDIR
      else if parent_dir p \<notin> dirs fs then Inl ENOENT
      else Inr (fs\<lparr>files := (files fs)(p \<mapsto> buf)\<rparr>))"

definition unlinkSync :: "string \<Rightarrow> filesystem \<Rightarrow> error + filesystem" where
  "unlinkSync p fs =
     (if files fs p \<noteq> None then Inr (fs\<lparr>files := (files fs)(p := None)\<rparr>)
      else if p \<in> dirs fs then Inl EISDIR
      else Inl ENOENT)"

subsection \<open>The blob store\<close>

text \<open>
  The client library of the blob store is not part of the repository: its two calls,
  \<open>put\<close> and \<open>del\<close>, are parameters of the model. Each takes the state of the store and
  returns the new state with either an error (the call throws) or its result.
\<close>

datatype access = Public

record put_options =
  access :: access
  contentType :: string

record 's blob_api =
  api_put :: "string \<Rightarrow> byte list \<Rightarrow> put_options \<Rightarrow> 's \<Rightarrow> (error + string) \<times> 's"
  api_del :: "string \<Rightarrow> 's \<Rightarrow> (error + unit) \<times> 's"

datatype blob_call =
    PutCall string "byte list" put_options
  | DelCall string

subsection \<open>The world and its monad\<close>

record 's world =
  fs :: filesystem
  blob :: 's
  calls :: "blob_call list"

type_synonym ('s, 'a) io = "'s world \<Rightarrow> (error + 'a) \<times> 's world"

definition returnE :: "'a \<Rightarrow> ('s, 'a) io" where
  "returnE x w = (Inr x, w)"

definition throwE :: "error \<Rightarrow> ('s, 'a) io" where
  "throwE e w = (Inl e, w)"

definition bindE :: "('s, 'a) io \<Rightarrow> ('a \<Rightarrow> ('s, 'b) io) \<Rightarrow> ('s, 'b) io" where
  "bindE m f w = (case m w of (Inl e, w') \<Rightarrow> (Inl e, w') | (Inr x, w') \<Rightarrow> f x w')"

text \<open>\<open>try { body } catch (error) { handler }\<close>\<close>

definition tryCatch :: "('s, 'a) io \<Rightarrow> (error \<Rightarrow> ('s, 'a) io) \<Rightarrow> ('s, 'a) io" where
  "tryCatch body handler w = (case body w of (Inl e, w') \<Rightarrow> handler e w' | (Inr x, w') \<Rightarrow> (Inr x, w'))"

text \<open>A filesystem call: the filesystem is left as it was when the call throws.\<close>

definition fsCall :: "(filesystem \<Rightarrow> error + filesystem) \<Rightarrow> ('s, unit) io" where
  "fsCall f w = (case f (fs w) of Inl e \<Rightarrow> (Inl e, w) | Inr fs' \<Rightarrow> (Inr (), w\<lparr>fs := fs'\<rparr>))"

text \<open>\<open>await put(key, buffer, options)\<close>, giving \<open>blob.url\<close>, and \<open>await del(ref)\<close>.\<close>

definition put :: "'s blob_api \<Rightarrow> string \<Rightarrow> byte list \<Rightarrow> put_options \<Rightarrow> ('s, string) io" where
  "put B key buf opts w =
     (case api_put B key buf opts (blob w) of
        (r, s') \<Rightarrow> (r, w\<lparr>blob := s', calls := calls w @ [PutCall key buf opts]\<rparr>))"

definition del :: "'s blob_api \<Rightarrow> string \<Rightarrow> ('s, unit) io" where
  "del B ref w =
     (case api_del B ref (blob w) of
        (r, s') \<Rightarrow> (r, w\<lparr>blob := s', calls := calls w @ [DelCall ref]\<rparr>))"

subsection \<open>The process environment and the service object\<close>

text \<open>
  What the service reads from its process: the environment variables \<open>VERCEL\<close> and
  \<open>BASE_URL\<close>, \<open>process.cwd()\<close>, and the URL parser, of which the service uses
  \<open>new URL(s).pathname\<close> only (\<open>None\<close> when the constructor of \<open>URL\<close> throws).
\<close>

record process_env =
  env_VERCEL :: "string option"
  env_BASE_URL :: "string option"
  cwd :: string
  urlPathname :: "string \<Rightarrow> string option"

record service =
  isVercel :: bool
  uploadDir :: string
  propertyImagesDir :: string
  profileImagesDir :: string
  baseUrl :: string

record multer_file =
  originalname :: string
  mimetype :: string
  buffer :: "byte list"

definition ensureDirectoryExists :: "string \<Rightarrow> ('s, unit) io" where
  "ensureDirectoryExists directory =
     tryCatch
       (\<lambda>w. if \<not> existsSync (fs w) directory then fsCall (mkdirSync directory) w
            else returnE () w)
       (\<lambda>error. throwE error)"

definition constructor :: "process_env \<Rightarrow> ('s, service) io" where
  "constructor env =
     (let isV = (env_VERCEL env = Some ''1'');
          base = (case env_BASE_URL env of
                    None \<Rightarrow> ''http://localhost:3000''
                  | Some b \<Rightarrow> if b = [] then ''http://localhost:3000'' else b);
          upload = join [cwd env, ''uploads''];
          this = \<lparr>isVercel = isV,
                  uploadDir = upload,
                  propertyImagesDir = join [upload, ''property-images''],
                  profileImagesDir = join [upload, ''profile-images''],
                  baseUrl = base\<rparr>
      in if \<not> isVercel this then
           bindE (ensureDirectoryExists (uploadDir this)) (\<lambda>_.
           bindE (ensureDirectoryExists (propertyImagesDir this)) (\<lambda>_.
           bindE (ensureDirectoryExists (profileImagesDir this)) (\<lambda>_.
           returnE this)))
         else returnE this)"

subsection \<open>Save\<close>

text \<open>
  The two halves that the three save operations share word for word: the upload to the
  blob store, which returns \<open>blob.url\<close>, and the write to the local filesystem, which
  creates the directory of the owner when nothing exists at its path, writes the buffer
  and resolves with the relative path.
\<close>

definition uploadToBlob :: "'s blob_api \<Rightarrow> string \<Rightarrow> multer_file \<Rightarrow> ('s, string) io" where
  "uploadToBlob B blobPath file =
     bindE (put B blobPath (buffer file) \<lparr>access = Public, contentType = mimetype file\<rparr>)
       (\<lambda>url. returnE url)"

definition writeLocal :: "string \<Rightarrow> string \<Rightarrow> string \<Rightarrow> multer_file \<Rightarrow> ('s, string) io" where
  "writeLocal dir uniqueFilename relativePath file =
     bindE (\<lambda>w. if \<not> existsSync (fs w) dir then fsCall (mkdirSync dir) w else returnE () w) (\<lambda>_.
     bindE (fsCall (writeStream (join [dir, uniqueFilename]) (buffer file))) (\<lambda>_.
     returnE relativePath))"

text \<open>
  The identifier that \<open>uuidv4()\<close> returns is an argument of each save: 36 characters,
  hexadecimal digits and dashes.
\<close>

definition is_uuid :: "string \<Rightarrow> bool" where
  "is_uuid u = (length u = 36 \<and> list_all (\<lambda>c. c \<in> set ''0123456789abcdef-'') u)"

text \<open>
  The extension of the stored file. Every upload to the blob store, and the local save of
  a profile image, take \<open>path.extname(file.originalname)\<close> as it is. The local save of a
  property image falls back on the media type only when the original name is empty; the
  local save of Instagram media also when the name has no extension.
\<close>

definition plainExtension :: "multer_file \<Rightarrow> string" where
  "plainExtension f = extname (originalname f)"

definition propertyLocalExtension :: "multer_file \<Rightarrow> string \<Rightarrow> string" where
  "propertyLocalExtension f mediaType =
     (if originalname f \<noteq> [] then extname (originalname f)
      else if mediaType = ''reel'' then ''.mp4'' else ''.jpg'')"

definition instagramLocalExtension :: "multer_file \<Rightarrow> string \<Rightarrow> string" where
  "instagramLocalExtension f fileType =
     (if originalname f \<noteq> [] then
        (if extname (originalname f) \<noteq> [] then extname (originalname f)
         else if fileType = ''video'' then ''.mp4'' else ''.jpg'')
      else if fileType = ''video'' then ''.mp4'' else ''.jpg'')"

definition saveProfileImage ::
  "process_env \<Rightarrow> 's blob_api \<Rightarrow> service \<Rightarrow> multer_file option \<Rightarrow> string \<Rightarrow> string \<Rightarrow> ('s, string) io" where
  "saveProfileImage env B this file userId uuid =
     tryCatch
       (case file of
          None \<Rightarrow> throwE NoFileProvided
        | Some f \<Rightarrow>
            if isVercel this then
              (let uniqueFilename = uuid @ plainExtension f;
                   blobPath = ''profile-images/'' @ userId @ ''/'' @ uniqueFilename
               in uploadToBlob B blobPath f)
            else
              (let dir = join [cwd env, ''uploads'', ''profile-images'', userId];
                   uniqueFilename = uuid @ plainExtension f;
                   relativePath = ''profile-images/'' @ userId @ ''/'' @ uniqueFilename
               in writeLocal dir uniqueFilename relativePath f))
       (\<lambda>error. throwE error)"

definition savePropertyImage ::
  "process_env \<Rightarrow> 's blob_api \<Rightarrow> service \<Rightarrow> multer_file option \<Rightarrow> string \<Rightarrow> string \<Rightarrow> string \<Rightarrow> ('s, string) io" where
  "savePropertyImage env B this file propertyId mediaType uuid =
     tryCatch
       (case file of
          None \<Rightarrow> throwE NoFileProvided
        | Some f \<Rightarrow>
            if isVercel this then
              (let uniqueFilename = uuid @ plainExtension f;
                   blobPath = ''property-images/'' @ propertyId @ ''/'' @ uniqueFilename
               in uploadToBlob B blobPath f)
            else
              (let dir = join [cwd env, ''uploads'', ''property-images'', propertyId];
                   uniqueFilename = uuid @ propertyLocalExtension f mediaType;
                   relativePath = ''property-images/'' @ propertyId @ ''/'' @ uniqueFilename
               in writeLocal dir uniqueFilename relativePath f))
       (\<lambda>error. throwE error)"

definition saveInstagramMedia ::
  "process_env \<Rightarrow> 's blob_api \<Rightarrow> service \<Rightarrow> multer_file option \<Rightarrow> string \<Rightarrow> string \<Rightarrow> string \<Rightarrow> string \<Rightarrow> ('s, string) io" where
  "saveInstagramMedia env B this file userId mediaType fileType uuid =
     tryCatch
       (case file of
          None \<Rightarrow> throwE NoFileProvided
        | Some f \<Rightarrow>
            if isVercel this then
              (let uniqueFilename = uuid @ plainExtension f;
                   blobPath = ''instagram-media/'' @ mediaType @ ''/'' @ userId @ ''/'' @ uniqueFilename
               in uploadToBlob B blobPath f)
            else
              (let dir = join [cwd env, ''uploads'', ''instagram-media'', mediaType, userId];
                   uniqueFilename = uuid @ instagramLocalExtension f fileType;
                   relativePath = ''instagram-media/'' @ mediaType @ ''/'' @ userId @ ''/'' @ uniqueFilename
               in writeLocal dir uniqueFilename relativePath f))
       (\<lambda>error. throwE error)"

subsection \<open>Delete\<close>

text \<open>
  The three delete operations are the same text up to the name of the category directory.
  On the blob store, a reference that starts with \<open>http\<close> is first reduced to the key after
  \<open>.com/\<close>; when that deletion throws, or when there is no such key, the reference itself
  is deleted. The inner \<open>try\<close> returns \<open>Some True\<close> where the source returns from the
  function, and \<open>None\<close> where it falls through.
\<close>

definition deleteFromBlob :: "'s blob_api \<Rightarrow> string \<Rightarrow> ('s, bool) io" where
  "deleteFromBlob B ref =
     (if startsWith ref ''http'' then
        tryCatch
          (bindE
             (case match_com ref of
                Some blobPath \<Rightarrow>
                  tryCatch (bindE (del B blobPath) (\<lambda>_. returnE (Some True)))
                    (\<lambda>error. returnE None)
              | None \<Rightarrow> returnE None)
             (\<lambda>returned.
                case returned of
                  Some b \<Rightarrow> returnE b
                | None \<Rightarrow> bindE (del B ref) (\<lambda>_. returnE True)))
          (\<lambda>error. returnE False)
      else
        tryCatch
          (let blobPath = (if startsWith ref ''/'' then drop 1 ref else ref)
           in bindE (del B blobPath) (\<lambda>_. returnE True))
          (\<lambda>error. returnE False))"

text \<open>The path that the local branch derives from the reference, relative to \<open>cwd\<close>.\<close>

definition localPathOf :: "process_env \<Rightarrow> string \<Rightarrow> string \<Rightarrow> error + string" where
  "localPathOf env category ref =
     (case (if startsWith ref ''http'' then
              (case urlPathname env ref of None \<Rightarrow> Inl InvalidURL | Some p \<Rightarrow> Inr p)
            else Inr ref) of
        Inl e \<Rightarrow> Inl e
      | Inr p1 \<Rightarrow>
          (let p2 = (if startsWith p1 ''/'' then drop 1 p1 else p1)
           in Inr (if \<not> startsWith p2 ''uploads/'' then
                     (if startsWith p2 (category @ ''/'') then ''uploads/'' @ p2
                      else ''uploads/'' @ category @ ''/'' @ p2)
                   else p2)))"

definition alternativePaths :: "process_env \<Rightarrow> string \<Rightarrow> string \<Rightarrow> string list" where
  "alternativePaths env category localPath =
     [join [cwd env, ''uploads'', localPath],
      join [cwd env, localPath],
      join [cwd env, ''uploads'', category, last (split_slash localPath)]]"

text \<open>The loop over the alternative paths: the first one that exists is unlinked.\<close>

fun tryAlternatives :: "string list \<Rightarrow> ('s, bool) io" where
  "tryAlternatives [] w = returnE False w"
| "tryAlternatives (p # ps) w =
     (if existsSync (fs w) p then bindE (fsCall (unlinkSync p)) (\<lambda>_. returnE True) w
      else tryAlternatives ps w)"

definition deleteFromDisk :: "process_env \<Rightarrow> string \<Rightarrow> string \<Rightarrow> ('s, bool) io" where
  "deleteFromDisk env category ref =
     (case localPathOf env category ref of
        Inl e \<Rightarrow> throwE e
      | Inr localPath \<Rightarrow>
          (let fullPath = join [cwd env, localPath]
           in (\<lambda>w. if existsSync (fs w) fullPath then
                      bindE (fsCall (unlinkSync fullPath)) (\<lambda>_. returnE True) w
                    else tryAlternatives (alternativePaths env category localPath) w)))"

text \<open>A reference is a string or \<open>null\<close>; \<open>null\<close> and the empty string are falsy.\<close>

definition deleteAsset ::
  "string \<Rightarrow> process_env \<Rightarrow> 's blob_api \<Rightarrow> service \<Rightarrow> string option \<Rightarrow> ('s, bool) io" where
  "deleteAsset category env B this ref =
     tryCatch
       (case ref of
          None \<Rightarrow> returnE False
        | Some r \<Rightarrow>
            if r = [] then returnE False
            else if isVercel this then deleteFromBlob B r
            else deleteFromDisk env category r)
       (\<lambda>error. returnE False)"

definition deletePropertyImage ::
  "process_env \<Rightarrow> 's blob_api \<Rightarrow> service \<Rightarrow> string option \<Rightarrow> ('s, bool) io" where
  "deletePropertyImage = deleteAsset ''property-images''"

definition deleteProfileImage ::
  "process_env \<Rightarrow> 's blob_api \<Rightarrow> service \<Rightarrow> string option \<Rightarrow> ('s, bool) io" where
  "deleteProfileImage = deleteAsset ''profile-images''"

definition deleteInstagramMedia ::
  "process_env \<Rightarrow> 's blob_api \<Rightarrow> service \<Rightarrow> string option \<Rightarrow> ('s, bool) io" where
  "deleteInstagramMedia = deleteAsset ''instagram-media''"

subsection \<open>A blob store, an environment and a world to run the service in\<close>

text \<open>
  Modelled from the spec: the remote blob store behind \<open>put\<close> and \<open>del\<close>, which belongs to
  the client library and not to the repository. A blob lives under its key; \<open>put\<close> returns
  the absolute URL of the blob, the host of the store followed by the key; \<open>del\<close> takes the
  key or the URL, and reports a key that is not there as an error (a backend-reported
  "key not found" condition). The host is the one that the comments of the source quote.
\<close>

type_synonym blob_store = "string \<rightharpoonup> byte list \<times> put_options"

definition blob_host :: string where
  "blob_host = ''https://viahfpn0v0vwvach.public.blob.vercel-storage.com''"

definition store_key :: "string \<Rightarrow> string" where
  "store_key ref =
     (if prefix (blob_host @ ''/'') ref then drop (Suc (length blob_host)) ref else ref)"

definition keyed_store :: "blob_store blob_api" where
  "keyed_store =
     \<lparr>api_put = (\<lambda>key buf opts s. (Inr (blob_host @ ''/'' @ key), s(key \<mapsto> (buf, opts)))),
      api_del = (\<lambda>ref s. if s (store_key ref) \<noteq> None then (Inr (), s(store_key ref := None))
                          else (Inl (BlobError ''not found''), s))\<rparr>"

text \<open>The same store with a deletion that does not report an absent key.\<close>

definition lenient_store :: "blob_store blob_api" where
  "lenient_store =
     \<lparr>api_put = api_put keyed_store,
      api_del = (\<lambda>ref s. (Inr (), s(store_key ref := None)))\<rparr>"

text \<open>A store that cannot be reached: every call throws.\<close>

definition unreachable_store :: "blob_store blob_api" where
  "unreachable_store =
     \<lparr>api_put = (\<lambda>key buf opts s. (Inl (BlobError ''fetch failed''), s)),
      api_del = (\<lambda>ref s. (Inl (BlobError ''fetch failed''), s))\<rparr>"

text \<open>
  A URL parser for the examples: the path of \<open>scheme://authority/path?query#fragment\<close>,
  and a failure for a string without \<open>://\<close>.
\<close>

fun after_scheme :: "string \<Rightarrow> string option" where
  "after_scheme [] = None"
| "after_scheme (c # cs) = (if prefix ''://'' (c # cs) then Some (drop 3 (c # cs)) else after_scheme cs)"

definition plain_url_pathname :: "string \<Rightarrow> string option" where
  "plain_url_pathname s =
     (case after_scheme s of
        None \<Rightarrow> None
      | Some rest \<Rightarrow>
          (let p = takeWhile (\<lambda>c. c \<noteq> CHR ''?'' \<and> c \<noteq> CHR ''#'')
                     (dropWhile (\<lambda>c. c \<noteq> CHR ''/'') rest)
           in Some (if p = [] then ''/'' else p)))"

definition local_env :: process_env where
  "local_env = \<lparr>env_VERCEL = None, env_BASE_URL = None, cwd = ''/app'',
                 urlPathname = plain_url_pathname\<rparr>"

definition vercel_env :: process_env where
  "vercel_env = \<lparr>env_VERCEL = Some ''1'', env_BASE_URL = None, cwd = ''/var/task'',
                  urlPathname = plain_url_pathname\<rparr>"

definition local_service :: service where
  "local_service =
     \<lparr>isVercel = False,
      uploadDir = ''/app/uploads'',
      propertyImagesDir = ''/app/uploads/property-images'',
      profileImagesDir = ''/app/uploads/profile-images'',
      baseUrl = ''http://localhost:3000''\<rparr>"

definition vercel_service :: service where
  "vercel_service =
     \<lparr>isVercel = True,
      uploadDir = ''/var/task/uploads'',
      propertyImagesDir = ''/var/task/uploads/property-images'',
      profileImagesDir = ''/var/task/uploads/profile-images'',
      baseUrl = ''http://localhost:3000''\<rparr>"

text \<open>A world with the directories that the constructor creates, and nothing stored.\<close>

definition fresh_world :: "blob_store world" where
  "fresh_world =
     \<lparr>fs = \<lparr>files = Map.empty,
             dirs = {''/'', ''/app'', ''/app/uploads'', ''/app/uploads/property-images'',
                     ''/app/uploads/profile-images''}\<rparr>,
      blob = Map.empty,
      calls = []\<rparr>"

definition jpeg_file :: multer_file where
  "jpeg_file = \<lparr>originalname = ''avatar.jpg'', mimetype = ''image/jpeg'',
                 buffer = [0xFF, 0xD8, 0xFF, 0xE0]\<rparr>"

definition uuid0 :: string where
  "uuid0 = ''3f2b8c1e-7a4d-4e9b-8c6f-1d2e3f4a5b6c''"

subsection \<open>Notions used in the statements\<close>

text \<open>A segment that \<open>normalizeString\<close> keeps.\<close>

definition clean :: "string \<Rightarrow> bool" where
  "clean s = (s \<noteq> [] \<and> s \<noteq> ''.'' \<and> s \<noteq> ''..'')"

definition tidy :: "string list \<Rightarrow> bool" where
  "tidy acc = (\<forall>s\<in>set acc. clean s \<and> CHR ''/'' \<notin> set s)"

text \<open>The segments of an absolute path after normalisation, last one first.\<close>

definition nsegs :: "string \<Rightarrow> string list" where
  "nsegs s = fold (norm_step False) (split_slash s) []"

text \<open>\<open>process.cwd()\<close> is an absolute path.\<close>

definition absolute :: "string \<Rightarrow> bool" where
  "absolute p = (p \<noteq> [] \<and> hd p = CHR ''/'')"

definition no_line_break :: "string \<Rightarrow> bool" where
  "no_line_break s = (\<not> list_ex line_break s)"

text \<open>
  The regular expression \<open>/\.com\/(.+)$/\<close> matches a string at the end of \<open>a\<close>:
  \<open>.com/\<close> stands there and is followed, up to the end of the string, by the text
  \<open>key\<close>, which has at least one character and no line terminator.
\<close>

definition com_split :: "string \<Rightarrow> string \<Rightarrow> string \<Rightarrow> bool" where
  "com_split url a key = (url = a @ ''.com/'' @ key \<and> key \<noteq> [] \<and> no_line_break key)"

text \<open>
  The name of the file that a save writes is new: nothing is stored, on the filesystem or
  in the blob store, under a path or a key that ends with it. The identifier that
  \<open>uuidv4()\<close> draws makes it so.
\<close>

definition fresh :: "string \<Rightarrow> (string \<rightharpoonup> 'a) \<Rightarrow> bool" where
  "fresh name stored = (\<forall>p. suffix name p \<longrightarrow> stored p = None)"

text \<open>
  The world \<open>w1\<close> after a save, with the regular files of the world \<open>w\<close> before it:
  the file that the save wrote is gone, the directories that it created are still there.
\<close>

definition restored :: "'s world \<Rightarrow> 's world \<Rightarrow> 's world" where
  "restored w w1 = w1\<lparr>fs := (fs w1)\<lparr>files := files (fs w)\<rparr>\<rparr>"

text \<open>
  The key layout in the words of the specification:
  \<open>{category}/[{sub_kind}/]{owner_id}/{uuid}{ext}\<close>.
\<close>

definition key_layout :: "string \<Rightarrow> string option \<Rightarrow> string \<Rightarrow> string \<Rightarrow> string \<Rightarrow> string" where
  "key_layout category sub_kind owner_id uuid ext =
     category @ ''/'' @ (case sub_kind of None \<Rightarrow> [] | Some k \<Rightarrow> k @ ''/'') @ owner_id @ ''/'' @ uuid @ ext"

text \<open>Public read access and the content type that the file declares.\<close>

definition public_read :: "multer_file \<Rightarrow> put_options" where
  "public_read f = \<lparr>access = Public, contentType = mimetype f\<rparr>"

text \<open>
  The two filesystem calls of a local save, in their order: the directory is created when
  nothing exists at its path, then the buffer is written. The result is the error of the
  first call that throws, or the filesystem after both.
\<close>

definition local_write :: "string \<Rightarrow> string \<Rightarrow> byte list \<Rightarrow> filesystem \<Rightarrow> error + filesystem" where
  "local_write dir uniqueFilename buf fs0 =
     (case (if existsSync fs0 dir then Inr fs0 else mkdirSync dir fs0) of
        Inl e \<Rightarrow> Inl e
      | Inr fs1 \<Rightarrow> writeStream (join [dir, uniqueFilename]) buf fs1)"

text \<open>
  One call of \<open>put\<close> with the key, the buffer of the file, public read access and the
  declared content type: the result of the upload is the result of that call.
\<close>

definition after_put ::
  "'s blob_api \<Rightarrow> string \<Rightarrow> multer_file \<Rightarrow> 's world \<Rightarrow> (error + string) \<times> 's world" where
  "after_put B key f w =
     (fst (api_put B key (buffer f) (public_read f) (blob w)),
      w\<lparr>blob := snd (api_put B key (buffer f) (public_read f) (blob w)),
        calls := calls w @ [PutCall key (buffer f) (public_read f)]\<rparr>)"

text \<open>A world in which a regular file lies where the directory of owner \<open>u1\<close> belongs.\<close>

definition blocked_world :: "blob_store world" where
  "blocked_world =
     fresh_world\<lparr>fs := (fs fresh_world)\<lparr>files := [''/app/uploads/profile-images/u1'' \<mapsto> []]\<rparr>\<rparr>"

text \<open>No regular file lies at a path or above it: \<open>mkdirSync\<close> can create the directory.\<close>

definition no_file_on_path :: "filesystem \<Rightarrow> string \<Rightarrow> bool" where
  "no_file_on_path fs0 p = (files fs0 p = None \<and> (\<forall>q\<in>set (path_prefixes p). files fs0 q = None))"

text \<open>A world with the working directory of the process and nothing else.\<close>

definition bare_world :: "blob_store world" where
  "bare_world =
     \<lparr>fs = \<lparr>files = Map.empty, dirs = {''/'', ''/app''}\<rparr>, blob = Map.empty, calls = []\<rparr>"

text \<open>The object that the constructor builds from the environment.\<close>

definition service_of :: "process_env \<Rightarrow> service" where
  "service_of env =
     \<lparr>isVercel = (env_VERCEL env = Some ''1''),
      uploadDir = join [cwd env, ''uploads''],
      propertyImagesDir = join [join [cwd env, ''uploads''], ''property-images''],
      profileImagesDir = join [join [cwd env, ''uploads''], ''profile-images''],
      baseUrl = (case env_BASE_URL env of
                    None \<Rightarrow> ''http://localhost:3000''
                  | Some b \<Rightarrow> if b = [] then ''http://localhost:3000'' else b)\<rparr>"

text \<open>A world in which an image lies under the upload root, outside the category directories.\<close>

definition legacy_world :: "blob_store world" where
  "legacy_world =
     fresh_world\<lparr>fs :=
       \<lparr>files = [''/app/uploads/avatars/u1/a.jpg'' \<mapsto> [0xFF, 0xD8]],
        dirs = dirs (fs fresh_world) \<union> {''/app/uploads/avatars'', ''/app/uploads/avatars/u1''}\<rparr>\<rparr>"

text \<open>
  The keys that a delete on the blob store passes to \<open>del\<close>, in their order: for a
  reference that starts with \<open>http\<close> the text after \<open>.com/\<close> when the regular
  expression finds it, then the reference itself; for any other reference the reference
  without one leading slash.
\<close>

definition remote_attempts :: "string \<Rightarrow> string list" where
  "remote_attempts ref =
     (if startsWith ref ''http'' then
        (case match_com ref of Some key \<Rightarrow> [key, ref] | None \<Rightarrow> [ref])
      else [if startsWith ref ''/'' then drop 1 ref else ref])"

text \<open>
  The calls of \<open>del\<close> one after the other, each one recorded, until one of them returns:
  then the result is true. When every call throws, the result is false.
\<close>

fun try_dels :: "'s blob_api \<Rightarrow> string list \<Rightarrow> 's world \<Rightarrow> bool \<times> 's world" where
  "try_dels B [] w = (False, w)"
| "try_dels B (k # ks) w =
     (case api_del B k (blob w) of
        (Inr u, s) \<Rightarrow> (True, w\<lparr>blob := s, calls := calls w @ [DelCall k]\<rparr>)
      | (Inl e, s) \<Rightarrow> try_dels B ks (w\<lparr>blob := s, calls := calls w @ [DelCall k]\<rparr>))"

text \<open>
  The candidate paths of a local delete one after the other: the first path at which
  something exists is passed to \<open>unlinkSync\<close>; the result is true when the file is
  removed, false when \<open>unlinkSync\<close> throws, and false when nothing exists at any of the
  paths.
\<close>

fun unlink_first :: "string list \<Rightarrow> 's world \<Rightarrow> bool \<times> 's world" where
  "unlink_first [] w = (False, w)"
| "unlink_first (p # ps) w =
     (if existsSync (fs w) p then
        (case unlinkSync p (fs w) of
           Inl e \<Rightarrow> (False, w)
         | Inr fs1 \<Rightarrow> (True, w\<lparr>fs := fs1\<rparr>))
      else unlink_first ps w)"

section \<open>Properties\<close>

lemmas io_defs = returnE_def throwE_def bindE_def tryCatch_def fsCall_def put_def del_def

lemmas delete_defs = deletePropertyImage_def deleteProfileImage_def deleteInstagramMedia_def

subsection \<open>Splitting and normalising paths\<close>

lemma split_on_nonempty [simp]: "split_on c s \<noteq> []"
  by (induction s) (auto split: list.splits)

lemma split_on_append: "split_on c (a @ c # b) = split_on c a @ split_on c b"
  by (induction a) (auto split: list.splits)

lemma split_on_no_sep: "s \<in> set (split_on c x) \<Longrightarrow> c \<notin> set s"
  by (induction x arbitrary: s) (auto split: if_splits list.splits)

lemma split_on_free: "c \<notin> set s \<Longrightarrow> split_on c s = [s]"
  by (induction s) auto

lemma split_on_join:
  "ss \<noteq> [] \<Longrightarrow> \<forall>s\<in>set ss. CHR ''/'' \<notin> set s \<Longrightarrow> split_on (CHR ''/'') (join_slash ss) = ss"
proof (induction ss rule: join_slash.induct)
  case 1
  then show ?case by simp
next
  case (2 x)
  then show ?case by (simp add: split_on_free)
next
  case (3 x y ys)
  then show ?case by (simp add: split_on_append split_on_free)
qed

lemma norm_step_skip: "x = [] \<or> x = ''.'' \<Longrightarrow> norm_step b x acc = acc"
  unfolding norm_step_def by (rule if_P)

lemma norm_step_clean: "clean s \<Longrightarrow> norm_step b s acc = s # acc"
  unfolding norm_step_def clean_def by (simp only: if_not_P de_Morgan_disj simp_thms)

lemma norm_step_up: "norm_step False ''..'' acc = (case acc of [] \<Rightarrow> [] | t # ts \<Rightarrow> if t = ''..'' then t # ts else ts)"
  unfolding norm_step_def by (simp split: list.splits)

lemma norm_step_cases:
  "norm_step False x acc = acc \<or> norm_step False x acc = tl acc \<or> (clean x \<and> norm_step False x acc = x # acc)"
proof -
  consider "x = [] \<or> x = ''.''" | "x = ''..''" | "clean x"
    unfolding clean_def by blast
  then show ?thesis
  proof cases
    case 1
    then show ?thesis by (simp only: norm_step_skip simp_thms)
  next
    case 2
    have "norm_step False x acc = acc \<or> norm_step False x acc = tl acc"
      unfolding 2 norm_step_up by (cases acc) (simp_all del: String.char.inject)
    then show ?thesis by blast
  next
    case 3
    then show ?thesis by (simp only: norm_step_clean simp_thms)
  qed
qed

lemma fold_norm_clean:
  "\<forall>s\<in>set ys. clean s \<Longrightarrow> fold (norm_step False) ys acc = rev ys @ acc"
  by (induction ys arbitrary: acc) (simp_all add: norm_step_clean)

lemma norm_step_keeps:
  assumes "tidy acc" and "CHR ''/'' \<notin> set x"
  shows "tidy (norm_step False x acc)"
proof -
  have "set (tl acc) \<subseteq> set acc" by (cases acc) auto
  then have "tidy (tl acc)" using assms(1) unfolding tidy_def by blast
  moreover have "tidy (x # acc)" if "clean x"
    using that assms unfolding tidy_def by simp
  ultimately show ?thesis
    using norm_step_cases[of x acc] assms(1) by metis
qed

lemma fold_norm_keeps:
  "tidy acc \<Longrightarrow> \<forall>x\<in>set xs. CHR ''/'' \<notin> set x \<Longrightarrow> tidy (fold (norm_step False) xs acc)"
proof (induction xs arbitrary: acc)
  case Nil
  then show ?case by simp
next
  case (Cons x xs)
  have "tidy (norm_step False x acc)"
    using Cons.prems by (intro norm_step_keeps) simp_all
  then have "tidy (fold (norm_step False) xs (norm_step False x acc))"
    using Cons.prems(2) by (intro Cons.IH) simp_all
  then show ?case by simp
qed

lemma nsegs_clean: "tidy (nsegs p)"
  unfolding nsegs_def split_slash_def
  by (rule fold_norm_keeps) (auto simp: tidy_def dest: split_on_no_sep)

lemma normalize_abs:
  assumes "p \<noteq> []" and "hd p = CHR ''/''"
  shows "normalize p =
     (if nsegs p = [] then ''/''
      else CHR ''/'' # join_slash (rev (nsegs p)) @ (if last p = CHR ''/'' then ''/'' else []))"
proof -
  have "join_slash ss = [] \<longleftrightarrow> ss = []" if "\<forall>s\<in>set ss. s \<noteq> []" for ss
    using that by (induction ss rule: join_slash.induct) auto
  moreover have "\<forall>s\<in>set (rev (nsegs p)). s \<noteq> []"
    using nsegs_clean[of p] unfolding tidy_def clean_def by simp
  ultimately have "join_slash (rev (nsegs p)) = [] \<longleftrightarrow> nsegs p = []"
    by (metis rev_is_Nil_conv)
  then show ?thesis
    using assms by (simp add: normalize_def normalizeString_def nsegs_def Let_def)
qed

lemma nsegs_normalize:
  assumes "p \<noteq> []" and "hd p = CHR ''/''"
  shows "fold (norm_step False) (split_slash (normalize p)) acc = rev (rev (nsegs p)) @ acc"
proof (cases "nsegs p = []")
  case True
  then show ?thesis
    using assms by (simp add: normalize_abs split_slash_def norm_step_skip)
next
  case False
  let ?J = "join_slash (rev (nsegs p))"
  have free: "\<forall>s\<in>set (rev (nsegs p)). CHR ''/'' \<notin> set s" and cl: "\<forall>s\<in>set (rev (nsegs p)). clean s"
    using nsegs_clean[of p] unfolding tidy_def by simp_all
  have sj: "split_on (CHR ''/'') ?J = rev (nsegs p)"
    using False free by (intro split_on_join) auto
  have "split_slash (normalize p) = [] # rev (nsegs p) @ (if last p = CHR ''/'' then [[]] else [])"
    using False assms sj split_on_append[of "CHR ''/''" ?J "[]"]
    by (simp add: normalize_abs split_slash_def)
  then show ?thesis
    using fold_norm_clean[OF cl] by (simp add: norm_step_skip)
qed

lemma normalize_cong:
  assumes "p \<noteq> []" "q \<noteq> []" "hd p = CHR ''/''" "hd q = CHR ''/''" "last p = last q" "nsegs p = nsegs q"
  shows "normalize p = normalize q"
  using assms by (simp add: normalize_abs)

lemma normalize_nonempty: "normalize p \<noteq> []"
  by (simp add: normalize_def Let_def)

lemma hd_normalize_abs: "p \<noteq> [] \<Longrightarrow> hd p = CHR ''/'' \<Longrightarrow> hd (normalize p) = CHR ''/''"
  by (simp add: normalize_abs)

lemma nsegs_append: "nsegs (a @ CHR ''/'' # b) = fold (norm_step False) (split_slash b) (nsegs a)"
  by (simp add: nsegs_def split_slash_def split_on_append)

lemma normalize_nested:
  assumes "p \<noteq> []" and "hd p = CHR ''/''" and "f \<noteq> []"
  shows "normalize (normalize p @ CHR ''/'' # f) = normalize (p @ CHR ''/'' # f)"
proof (rule normalize_cong)
  show "nsegs (normalize p @ CHR ''/'' # f) = nsegs (p @ CHR ''/'' # f)"
    using nsegs_normalize[OF assms(1,2), of "[]"]
    by (simp add: nsegs_append) (simp add: nsegs_def)
qed (use assms normalize_nonempty[of p] hd_normalize_abs[of p] in auto)

lemma normalize_double_slash:
  assumes "p \<noteq> []" and "hd p = CHR ''/''" and "f \<noteq> []"
  shows "normalize (p @ CHR ''/'' # CHR ''/'' # f) = normalize (p @ CHR ''/'' # f)"
proof (rule normalize_cong)
  show "nsegs (p @ CHR ''/'' # CHR ''/'' # f) = nsegs (p @ CHR ''/'' # f)"
    by (simp add: nsegs_append split_slash_def norm_step_skip)
qed (use assms in auto)

subsection \<open>Deleting from the blob store\<close>

lemma deleteFromBlob_key:
  assumes "\<not> startsWith r ''http''"
  shows "deleteFromBlob B r w =
     (Inr (\<not> isl (fst (api_del B (if startsWith r ''/'' then drop 1 r else r) (blob w)))),
      w\<lparr>blob := snd (api_del B (if startsWith r ''/'' then drop 1 r else r) (blob w)),
        calls := calls w @ [DelCall (if startsWith r ''/'' then drop 1 r else r)]\<rparr>)"
  using assms
  by (simp add: deleteFromBlob_def io_defs Let_def split: prod.splits sum.splits)

lemma deleteFromBlob_url:
  assumes "startsWith r ''http''" and "match_com r = Some k"
  shows "(api_del B k (blob w) = (Inr (), sa) \<longrightarrow>
            deleteFromBlob B r w = (Inr True, w\<lparr>blob := sa, calls := calls w @ [DelCall k]\<rparr>))
       \<and> (api_del B k (blob w) = (Inl ea, sa) \<and> api_del B r sa = (Inr (), sb) \<longrightarrow>
            deleteFromBlob B r w = (Inr True, w\<lparr>blob := sb, calls := calls w @ [DelCall k, DelCall r]\<rparr>))
       \<and> (api_del B k (blob w) = (Inl ea, sa) \<and> api_del B r sa = (Inl eb, sb) \<longrightarrow>
            deleteFromBlob B r w = (Inr False, w\<lparr>blob := sb, calls := calls w @ [DelCall k, DelCall r]\<rparr>))"
  using assms
  by (simp add: deleteFromBlob_def io_defs)

lemma deleteAsset_remote:
  "isVercel this \<Longrightarrow> r \<noteq> [] \<Longrightarrow> deleteAsset cat env B this (Some r) w =
     (case deleteFromBlob B r w of (Inl e, w') \<Rightarrow> (Inr False, w') | (Inr b, w') \<Rightarrow> (Inr b, w'))"
  by (simp add: deleteAsset_def io_defs split: prod.splits sum.splits)

lemma deleteFromBlob_attempts:
  "deleteFromBlob B r w = (case try_dels B (remote_attempts r) w of (b, w') \<Rightarrow> (Inr b, w'))"
proof (cases "startsWith r ''http''")
  case False
  then show ?thesis
    by (simp add: deleteFromBlob_def remote_attempts_def io_defs Let_def split: prod.splits sum.splits)
next
  case True
  show ?thesis
  proof (cases "match_com r")
    case None
    then show ?thesis
      using True
      by (simp add: deleteFromBlob_def remote_attempts_def io_defs split: prod.splits sum.splits)
  next
    case (Some k)
    then show ?thesis
      using True
      by (simp add: deleteFromBlob_def remote_attempts_def io_defs split: prod.splits sum.splits)
  qed
qed

lemma delete_remote_attempts:
  assumes "isVercel this" and "r \<noteq> []"
  shows "deleteAsset cat env B this (Some r) w =
     (case try_dels B (remote_attempts r) w of (b, w') \<Rightarrow> (Inr b, w'))"
  using assms
  by (simp add: deleteAsset_remote deleteFromBlob_attempts split: prod.splits)

lemma match_com_host:
  "key \<noteq> [] \<Longrightarrow> no_line_break key \<Longrightarrow> match_com (blob_host @ CHR ''/'' # key) = Some key"
  by (simp add: blob_host_def no_line_break_def)

lemma com_split_Nil: "\<not> com_split [] a k"
  by (simp add: com_split_def)

lemma com_split_Cons:
  "com_split (c # cs) a k \<longleftrightarrow>
     (a = [] \<and> c # cs = ''.com/'' @ k \<and> k \<noteq> [] \<and> no_line_break k)
     \<or> (\<exists>b. a = c # b \<and> com_split cs b k)"
  unfolding com_split_def by (cases a) auto

lemma match_com_head:
  "match_com (c # cs) =
     (if \<exists>k. c # cs = ''.com/'' @ k \<and> k \<noteq> [] \<and> no_line_break k then Some (drop 5 (c # cs))
      else match_com cs)"
proof -
  have "(prefix ''.com/'' (c # cs) \<and> drop 5 (c # cs) \<noteq> [] \<and> \<not> list_ex line_break (drop 5 (c # cs)))
      \<longleftrightarrow> (\<exists>k. c # cs = ''.com/'' @ k \<and> k \<noteq> [] \<and> no_line_break k)"
    (is "?l \<longleftrightarrow> ?r")
  proof
    assume ?l
    then obtain r where r: "c # cs = ''.com/'' @ r"
      by (auto simp: prefix_def)
    then have "drop 5 (c # cs) = r" by simp
    then show ?r using \<open>?l\<close> r by (auto simp: no_line_break_def)
  next
    assume ?r
    then obtain k where k: "c # cs = ''.com/'' @ k" "k \<noteq> []" "no_line_break k" by blast
    have "drop 5 (c # cs) = k" unfolding k(1) by simp
    moreover have "prefix ''.com/'' (c # cs)" unfolding k(1) by (rule prefixI) simp
    ultimately show ?l using k(2,3) by (simp only: no_line_break_def simp_thms)
  qed
  then show ?thesis
    by (simp only: match_com.simps Let_def)
qed

lemma match_com_None: "match_com s = None \<longleftrightarrow> (\<forall>a k. \<not> com_split s a k)"
proof (induction s)
  case Nil
  then show ?case by (simp add: com_split_Nil)
next
  case (Cons c cs)
  show ?case
    unfolding match_com_head com_split_Cons using Cons.IH by auto
qed

lemma match_com_Some:
  "match_com s = Some k \<longleftrightarrow>
     (\<exists>a. com_split s a k \<and> (\<forall>a' k'. com_split s a' k' \<longrightarrow> length a \<le> length a'))"
proof (induction s)
  case Nil
  then show ?case by (simp add: com_split_Nil)
next
  case (Cons c cs)
  show ?case
  proof (cases "\<exists>k. c # cs = ''.com/'' @ k \<and> k \<noteq> [] \<and> no_line_break k")
    case True
    then obtain r where r: "c # cs = ''.com/'' @ r" "r \<noteq> []" "no_line_break r" by blast
    have m: "match_com (c # cs) = Some r"
      unfolding match_com_head using True r(1) by simp
    have here: "com_split (c # cs) [] r"
      using r by (simp add: com_split_def)
    show ?thesis
    proof
      assume "match_com (c # cs) = Some k"
      then have "k = r" using m by simp
      then show "\<exists>a. com_split (c # cs) a k \<and> (\<forall>a' k'. com_split (c # cs) a' k' \<longrightarrow> length a \<le> length a')"
        using here by (intro exI[of _ "[]"]) simp
    next
      assume "\<exists>a. com_split (c # cs) a k \<and> (\<forall>a' k'. com_split (c # cs) a' k' \<longrightarrow> length a \<le> length a')"
      then obtain a where a: "com_split (c # cs) a k" "\<forall>a' k'. com_split (c # cs) a' k' \<longrightarrow> length a \<le> length a'"
        by blast
      have "a = []" using a(2) here by fastforce
      then have "c # cs = ''.com/'' @ k" using a(1) by (simp add: com_split_def)
      then have "k = r" using r(1) by simp
      then show "match_com (c # cs) = Some k" using m by simp
    qed
  next
    case False
    then have m: "match_com (c # cs) = match_com cs"
      unfolding match_com_head by (rule if_not_P)
    have split: "com_split (c # cs) a k \<longleftrightarrow> (\<exists>b. a = c # b \<and> com_split cs b k)" for a k
      unfolding com_split_Cons using False by blast
    show ?thesis
      unfolding m Cons.IH
    proof
      assume "\<exists>a. com_split cs a k \<and> (\<forall>a' k'. com_split cs a' k' \<longrightarrow> length a \<le> length a')"
      then obtain a where a: "com_split cs a k" "\<forall>a' k'. com_split cs a' k' \<longrightarrow> length a \<le> length a'"
        by blast
      have "com_split (c # cs) (c # a) k" using a(1) split by simp
      moreover have "\<forall>a' k'. com_split (c # cs) a' k' \<longrightarrow> length (c # a) \<le> length a'"
        using a(2) split by auto
      ultimately show "\<exists>a. com_split (c # cs) a k \<and> (\<forall>a' k'. com_split (c # cs) a' k' \<longrightarrow> length a \<le> length a')"
        by blast
    next
      assume "\<exists>a. com_split (c # cs) a k \<and> (\<forall>a' k'. com_split (c # cs) a' k' \<longrightarrow> length a \<le> length a')"
      then obtain a where a: "com_split (c # cs) a k" "\<forall>a' k'. com_split (c # cs) a' k' \<longrightarrow> length a \<le> length a'"
        by blast
      obtain b where b: "a = c # b" "com_split cs b k" using a(1) split by blast
      have "\<forall>a' k'. com_split cs a' k' \<longrightarrow> length b \<le> length a'"
      proof (intro allI impI)
        fix a' k' assume "com_split cs a' k'"
        then have "com_split (c # cs) (c # a') k'" using split by simp
        then have "length a \<le> length (c # a')" using a(2) by blast
        then show "length b \<le> length a'" using b(1) by simp
      qed
      then show "\<exists>a. com_split cs a k \<and> (\<forall>a' k'. com_split cs a' k' \<longrightarrow> length a \<le> length a')"
        using b(2) by blast
    qed
  qed
qed

lemma match_com_leftmost:
  assumes "match_com s = Some k" and "s = a @ ''.com/'' @ k"
  shows "com_split s a k \<and> (\<forall>a' k'. com_split s a' k' \<longrightarrow> length a \<le> length a')"
proof -
  obtain b where b: "com_split s b k" "\<forall>a' k'. com_split s a' k' \<longrightarrow> length b \<le> length a'"
    using assms(1) unfolding match_com_Some by blast
  have "a @ ''.com/'' @ k = b @ ''.com/'' @ k"
    using b(1) assms(2) by (simp add: com_split_def)
  then have "a = b" by simp
  then show ?thesis using b by simp
qed

lemma deleteFromBlob_plain_url:
  assumes "startsWith r ''http''" and "match_com r = None"
  shows "deleteFromBlob B r w =
     (Inr (\<not> isl (fst (api_del B r (blob w)))),
      w\<lparr>blob := snd (api_del B r (blob w)), calls := calls w @ [DelCall r]\<rparr>)"
  using assms
  by (simp add: deleteFromBlob_def io_defs split: prod.splits sum.splits)

text \<open>
  Claim C7. Each of the three delete operations, called with \<open>null\<close> or with the empty
  string, returns false at once: it does not throw, and the world (the filesystem, the blob
  store and the list of calls made to the store) is the one it started from. This holds on
  both backends.
\<close>

theorem delete_empty_reference:
  assumes "D = deletePropertyImage \<or> D = deleteProfileImage \<or> D = deleteInstagramMedia"
  shows "D env B this None w = (Inr False, w) \<and> D env B this (Some []) w = (Inr False, w)"
  using assms by (auto simp: delete_defs deleteAsset_def io_defs)

theorem delete_empty_reference_witness:
  "deleteProfileImage local_env keyed_store local_service None fresh_world = (Inr False, fresh_world)
   \<and> deleteInstagramMedia vercel_env keyed_store vercel_service (Some []) fresh_world = (Inr False, fresh_world)"
  using delete_empty_reference [where D = deleteProfileImage and env = local_env and B = keyed_store
      and this = local_service and w = fresh_world]
    delete_empty_reference [where D = deleteInstagramMedia and env = vercel_env and B = keyed_store
      and this = vercel_service and w = fresh_world]
  by simp

text \<open>
  Claim C10. On the blob store, a non-empty reference that does not start with \<open>http\<close> is
  a key: at most one leading slash is removed, and the store is asked exactly once to delete
  that key. The result is true when the call returns and false when it throws; no other key
  or URL is tried.
\<close>

theorem remote_bare_key_single_attempt:
  assumes "D = deletePropertyImage \<or> D = deleteProfileImage \<or> D = deleteInstagramMedia"
    and "isVercel this" and "r \<noteq> []" and "\<not> startsWith r ''http''"
    and "key = (if startsWith r ''/'' then drop 1 r else r)"
  shows "D env B this (Some r) w =
     (Inr (\<not> isl (fst (api_del B key (blob w)))),
      w\<lparr>blob := snd (api_del B key (blob w)), calls := calls w @ [DelCall key]\<rparr>)"
proof -
  have "deleteAsset cat env B this (Some r) w = deleteFromBlob B r w" for cat
    using assms(2,3) deleteFromBlob_key[OF assms(4), of B w]
    by (simp add: deleteAsset_remote)
  then show ?thesis
    using assms(1,5) deleteFromBlob_key[OF assms(4), of B w]
    by (auto simp: delete_defs)
qed

theorem remote_bare_key_single_attempt_witness:
  "isVercel vercel_service \<and> ''/profile-images/u1/a.jpg'' \<noteq> [] \<and>
   \<not> startsWith ''/profile-images/u1/a.jpg'' ''http'' \<and>
   deleteProfileImage vercel_env unreachable_store vercel_service
       (Some ''/profile-images/u1/a.jpg'') fresh_world =
     (Inr False, fresh_world\<lparr>calls := [DelCall ''profile-images/u1/a.jpg'']\<rparr>)"
  using remote_bare_key_single_attempt [where D = deleteProfileImage and this = vercel_service
      and r = "''/profile-images/u1/a.jpg''" and key = "''profile-images/u1/a.jpg''"
      and env = vercel_env and B = unreachable_store and w = fresh_world]
  by (simp add: vercel_service_def startsWith_def unreachable_store_def fresh_world_def)

text \<open>
  Claim C4, as amended. On the blob store, for a reference that starts with \<open>http\<close>: when
  the reference contains \<open>.com/\<close> followed, up to its end, by at least one character and no
  line break, the key is the text after the leftmost such \<open>.com/\<close>, and the store is asked
  to delete that key first. When the store accepts, the result is true after one call. When
  it throws, the reference itself is passed to the store, unchanged: the result is true
  when the store accepts it, and false, not an exception, when the second call throws as
  well. When the reference contains no such \<open>.com/\<close>, there is no key and one call only,
  with the reference itself: the result is true when it returns and false when it throws.
\<close>

theorem remote_url_key_then_url:
  assumes "D = deletePropertyImage \<or> D = deleteProfileImage \<or> D = deleteInstagramMedia"
    and "isVercel this" and "startsWith url ''http''"
  shows "(com_split url a key \<and> (\<forall>a' k'. com_split url a' k' \<longrightarrow> length a \<le> length a') \<longrightarrow>
            (api_del B key (blob w) = (Inr (), sa) \<longrightarrow>
               D env B this (Some url) w = (Inr True, w\<lparr>blob := sa, calls := calls w @ [DelCall key]\<rparr>))
          \<and> (api_del B key (blob w) = (Inl ea, sa) \<and> api_del B url sa = (Inr (), sb) \<longrightarrow>
               D env B this (Some url) w =
                 (Inr True, w\<lparr>blob := sb, calls := calls w @ [DelCall key, DelCall url]\<rparr>))
          \<and> (api_del B key (blob w) = (Inl ea, sa) \<and> api_del B url sa = (Inl eb, sb) \<longrightarrow>
               D env B this (Some url) w =
                 (Inr False, w\<lparr>blob := sb, calls := calls w @ [DelCall key, DelCall url]\<rparr>)))
       \<and> ((\<forall>a k. \<not> com_split url a k) \<longrightarrow>
            D env B this (Some url) w =
              (Inr (\<not> isl (fst (api_del B url (blob w)))),
               w\<lparr>blob := snd (api_del B url (blob w)), calls := calls w @ [DelCall url]\<rparr>))"
proof -
  have ne: "url \<noteq> []"
    using assms(3) by (auto simp: startsWith_def)
  have D: "D env B this (Some url) w =
     (case deleteFromBlob B url w of (Inl e, w') \<Rightarrow> (Inr False, w') | (Inr b, w') \<Rightarrow> (Inr b, w'))"
    using assms(1) deleteAsset_remote[OF assms(2) ne] by (auto simp: delete_defs)
  have with_key: "(api_del B key (blob w) = (Inr (), sa) \<longrightarrow>
               D env B this (Some url) w = (Inr True, w\<lparr>blob := sa, calls := calls w @ [DelCall key]\<rparr>))
          \<and> (api_del B key (blob w) = (Inl ea, sa) \<and> api_del B url sa = (Inr (), sb) \<longrightarrow>
               D env B this (Some url) w =
                 (Inr True, w\<lparr>blob := sb, calls := calls w @ [DelCall key, DelCall url]\<rparr>))
          \<and> (api_del B key (blob w) = (Inl ea, sa) \<and> api_del B url sa = (Inl eb, sb) \<longrightarrow>
               D env B this (Some url) w =
                 (Inr False, w\<lparr>blob := sb, calls := calls w @ [DelCall key, DelCall url]\<rparr>))"
    if "com_split url a key \<and> (\<forall>a' k'. com_split url a' k' \<longrightarrow> length a \<le> length a')"
  proof -
    have "match_com url = Some key"
      unfolding match_com_Some using that by blast
    then show ?thesis
      using deleteFromBlob_url[OF assms(3), of key B w sa ea sb eb] D by auto
  qed
  have without_key: "D env B this (Some url) w =
              (Inr (\<not> isl (fst (api_del B url (blob w)))),
               w\<lparr>blob := snd (api_del B url (blob w)), calls := calls w @ [DelCall url]\<rparr>)"
    if "\<forall>a k. \<not> com_split url a k"
  proof -
    have "match_com url = None"
      unfolding match_com_None using that .
    then show ?thesis
      using deleteFromBlob_plain_url[OF assms(3), of B w] D by simp
  qed
  show ?thesis
    using with_key without_key by (rule conjI[OF impI impI])
qed

theorem remote_url_key_then_url_witness:
  "isVercel vercel_service \<and> startsWith (blob_host @ ''/profile-images/u1/a.jpg'') ''http'' \<and>
   com_split (blob_host @ ''/profile-images/u1/a.jpg'')
     ''https://viahfpn0v0vwvach.public.blob.vercel-storage'' ''profile-images/u1/a.jpg'' \<and>
   deleteProfileImage vercel_env unreachable_store vercel_service
       (Some (blob_host @ ''/profile-images/u1/a.jpg'')) fresh_world =
     (Inr False,
      fresh_world\<lparr>calls := [DelCall ''profile-images/u1/a.jpg'',
                             DelCall (blob_host @ ''/profile-images/u1/a.jpg'')]\<rparr>) \<and>
   startsWith ''https://cdn.example.org/profile-images/u1/a.jpg'' ''http'' \<and>
   deleteProfileImage vercel_env keyed_store vercel_service
       (Some ''https://cdn.example.org/profile-images/u1/a.jpg'') fresh_world =
     (Inr False, fresh_world\<lparr>calls := [DelCall ''https://cdn.example.org/profile-images/u1/a.jpg'']\<rparr>)"
proof -
  let ?url = "blob_host @ ''/profile-images/u1/a.jpg''"
  let ?key = "''profile-images/u1/a.jpg''"
  let ?a = "''https://viahfpn0v0vwvach.public.blob.vercel-storage''"
  let ?other = "''https://cdn.example.org/profile-images/u1/a.jpg''"
  have D: "deleteProfileImage = deleteProfileImage" ..
  have on_store: "isVercel vercel_service"
    by (simp add: vercel_service_def)
  have http: "startsWith ?url ''http''" "startsWith ?other ''http''"
    by (simp_all add: startsWith_def blob_host_def)
  note claim = remote_url_key_then_url [OF disjI2[OF disjI1[OF D]] on_store]
  have "match_com ?url = Some ?key"
    by (rule match_com_host) (simp_all add: no_line_break_def line_break_def)
  moreover have "?url = ?a @ ''.com/'' @ ?key"
    by (simp add: blob_host_def)
  ultimately have leftmost: "com_split ?url ?a ?key
      \<and> (\<forall>a' k'. com_split ?url a' k' \<longrightarrow> length ?a \<le> length a')"
    by (rule match_com_leftmost)
  have offline: "api_del unreachable_store ?key (blob fresh_world) = (Inl (BlobError ''fetch failed''), Map.empty)
      \<and> api_del unreachable_store ?url Map.empty = (Inl (BlobError ''fetch failed''), Map.empty)"
    by (simp add: unreachable_store_def fresh_world_def)
  have "deleteProfileImage vercel_env unreachable_store vercel_service (Some ?url) fresh_world =
     (Inr False, fresh_world\<lparr>blob := Map.empty, calls := calls fresh_world @ [DelCall ?key, DelCall ?url]\<rparr>)"
    using claim [OF http(1), THEN conjunct1, THEN mp, OF leftmost,
        THEN conjunct2, THEN conjunct2, THEN mp, OF offline] .
  then have two: "deleteProfileImage vercel_env unreachable_store vercel_service (Some ?url) fresh_world =
     (Inr False, fresh_world\<lparr>calls := [DelCall ?key, DelCall ?url]\<rparr>)"
    by (simp add: fresh_world_def)
  have "match_com ?other = None"
    by simp
  then have none: "\<forall>a k. \<not> com_split ?other a k"
    unfolding match_com_None .
  have "deleteProfileImage vercel_env keyed_store vercel_service (Some ?other) fresh_world =
     (Inr False, fresh_world\<lparr>calls := [DelCall ?other]\<rparr>)"
    unfolding claim [OF http(2), THEN conjunct2, THEN mp, OF none]
    by (simp add: keyed_store_def store_key_def blob_host_def fresh_world_def)
  then show ?thesis
    using on_store http leftmost[THEN conjunct1] two by (intro conjI)
qed

text \<open>
  Claim C4 as it is stated fails for a URL without \<open>.com/\<close>. No key is recovered and no
  deletion against a key is attempted: the store is unreachable, and the delete gives up
  after one call, which passes the URL itself.
\<close>

theorem url_without_host_suffix_counterexample:
  "startsWith ''http://localhost:3000/profile-images/u1/a.jpg'' ''http''
   \<and> deleteProfileImage vercel_env unreachable_store vercel_service
       (Some ''http://localhost:3000/profile-images/u1/a.jpg'') fresh_world
     = (Inr False, fresh_world\<lparr>calls := [DelCall ''http://localhost:3000/profile-images/u1/a.jpg'']\<rparr>)"
proof -
  let ?url = "''http://localhost:3000/profile-images/u1/a.jpg''"
  have on_store: "isVercel vercel_service"
    by (simp add: vercel_service_def)
  have http: "startsWith ?url ''http''"
    by (simp add: startsWith_def)
  have m: "match_com ?url = None"
    by simp
  have "deleteProfileImage vercel_env unreachable_store vercel_service (Some ?url) fresh_world
     = (Inr False, fresh_world\<lparr>calls := [DelCall ?url]\<rparr>)"
    by (simp add: deleteProfileImage_def deleteAsset_remote[OF on_store]
          deleteFromBlob_plain_url[OF http m] unreachable_store_def fresh_world_def)
  then show ?thesis
    using http by (rule conjI[rotated])
qed

subsection \<open>Saving\<close>

lemma tryCatch_rethrow: "tryCatch m (\<lambda>error. throwE error) w = m w"
  by (simp add: tryCatch_def throwE_def split: prod.splits sum.splits)

lemma uploadToBlob_eq: "uploadToBlob B key f w = after_put B key f w"
  by (simp add: uploadToBlob_def after_put_def public_read_def io_defs split: prod.splits sum.splits)

lemma writeLocal_eq:
  "writeLocal dir fn rel f w =
     (case local_write dir fn (buffer f) (fs w) of
        Inl e \<Rightarrow> (Inl e, if existsSync (fs w) dir then w
                          else (case mkdirSync dir (fs w) of Inl _ \<Rightarrow> w | Inr fs1 \<Rightarrow> w\<lparr>fs := fs1\<rparr>))
      | Inr fs2 \<Rightarrow> (Inr rel, w\<lparr>fs := fs2\<rparr>))"
  by (simp add: writeLocal_def local_write_def io_defs split: prod.splits sum.splits)

lemma writeStream_written: "writeStream p buf fs0 = Inr fs1 \<Longrightarrow> files fs1 p = Some buf"
  by (auto simp: writeStream_def split: if_splits)

lemma local_write_written:
  "local_write dir fn buf fs0 = Inr fs1 \<Longrightarrow> files fs1 (join [dir, fn]) = Some buf"
  by (auto simp: local_write_def dest: writeStream_written split: sum.splits)

lemma saveProfileImage_remote:
  "isVercel this \<Longrightarrow> saveProfileImage env B this (Some f) userId uuid w =
     uploadToBlob B (key_layout ''profile-images'' None userId uuid (plainExtension f)) f w"
  by (simp add: saveProfileImage_def tryCatch_rethrow key_layout_def Let_def)

lemma savePropertyImage_remote:
  "isVercel this \<Longrightarrow> savePropertyImage env B this (Some f) propertyId mediaType uuid w =
     uploadToBlob B (key_layout ''property-images'' None propertyId uuid (plainExtension f)) f w"
  by (simp add: savePropertyImage_def tryCatch_rethrow key_layout_def Let_def)

lemma saveInstagramMedia_remote:
  "isVercel this \<Longrightarrow> saveInstagramMedia env B this (Some f) userId mediaType fileType uuid w =
     uploadToBlob B (key_layout ''instagram-media'' (Some mediaType) userId uuid (plainExtension f)) f w"
  by (simp add: saveInstagramMedia_def tryCatch_rethrow key_layout_def Let_def)

lemma saveProfileImage_local:
  "\<not> isVercel this \<Longrightarrow> saveProfileImage env B this (Some f) userId uuid w =
     writeLocal (join [cwd env, ''uploads'', ''profile-images'', userId]) (uuid @ plainExtension f)
       (key_layout ''profile-images'' None userId uuid (plainExtension f)) f w"
  by (simp add: saveProfileImage_def tryCatch_rethrow key_layout_def Let_def)

lemma savePropertyImage_local:
  "\<not> isVercel this \<Longrightarrow> savePropertyImage env B this (Some f) propertyId mediaType uuid w =
     writeLocal (join [cwd env, ''uploads'', ''property-images'', propertyId])
       (uuid @ propertyLocalExtension f mediaType)
       (key_layout ''property-images'' None propertyId uuid (propertyLocalExtension f mediaType)) f w"
  by (simp add: savePropertyImage_def tryCatch_rethrow key_layout_def Let_def)

lemma saveInstagramMedia_local:
  "\<not> isVercel this \<Longrightarrow> saveInstagramMedia env B this (Some f) userId mediaType fileType uuid w =
     writeLocal (join [cwd env, ''uploads'', ''instagram-media'', mediaType, userId])
       (uuid @ instagramLocalExtension f fileType)
       (key_layout ''instagram-media'' (Some mediaType) userId uuid (instagramLocalExtension f fileType)) f w"
  by (simp add: saveInstagramMedia_def tryCatch_rethrow key_layout_def Let_def)

lemmas save_remote = saveProfileImage_remote savePropertyImage_remote saveInstagramMedia_remote
lemmas save_local = saveProfileImage_local savePropertyImage_local saveInstagramMedia_local

lemma tryCatch_return_total: "\<exists>b. fst (tryCatch m (\<lambda>error. returnE c) w) = Inr b"
proof (cases "m w")
  case (Pair r w')
  then show ?thesis
    by (cases r) (simp_all add: tryCatch_def returnE_def)
qed

lemma deleteAsset_total: "\<exists>b. fst (deleteAsset cat env B this ref w) = Inr b"
  unfolding deleteAsset_def by (rule tryCatch_return_total)

lemma suffix_key_layout: "suffix ext (key_layout category sub_kind owner_id uuid ext)"
  unfolding key_layout_def
  by (intro suffix_appendI) simp

lemma suffix_key_layout_file: "suffix (uuid @ ext) (key_layout category sub_kind owner_id uuid ext)"
  unfolding key_layout_def suffix_def
  by (rule exI[of _ "category @ ''/'' @ (case sub_kind of None \<Rightarrow> [] | Some k \<Rightarrow> k @ ''/'') @ owner_id @ ''/''"])
    simp

text \<open>The definitions that a run of the service on a concrete world unfolds.\<close>

lemmas eval_defs = local_service_def vercel_service_def local_env_def vercel_env_def fresh_world_def
  blocked_world_def jpeg_file_def uuid0_def keyed_store_def unreachable_store_def lenient_store_def
  blob_host_def store_key_def startsWith_def existsSync_def mkdirSync_def writeStream_def unlinkSync_def
  join_def normalize_def normalizeString_def split_slash_def norm_step_def path_prefixes_def
  parent_dir_def segments_def abs_path_def extname_def plainExtension_def key_layout_def public_read_def
  local_write_def after_put_def

lemma local_write_errors: "local_write dir fn buf fs0 \<noteq> Inl NoFileProvided"
  by (auto simp: local_write_def mkdirSync_def writeStream_def split: sum.splits if_splits)

lemma writeLocal_errors: "fst (writeLocal dir fn rel f w) \<noteq> Inl NoFileProvided"
  using local_write_errors[of dir fn "buffer f" "fs w"]
  by (cases "local_write dir fn (buffer f) (fs w)") (simp_all add: writeLocal_eq)

lemma local_write_buffer:
  "(case local_write dir fn buf fs0 of Inl e \<Rightarrow> Inl e | Inr fs2 \<Rightarrow> Inr ())
     = (case local_write dir fn [] fs0 of Inl e \<Rightarrow> Inl e | Inr fs2 \<Rightarrow> Inr ())"
  by (simp add: local_write_def writeStream_def split: sum.splits)

lemma writeLocal_buffer:
  "fst (writeLocal dir fn rel (f\<lparr>buffer := []\<rparr>) w) = fst (writeLocal dir fn rel f w)"
  using local_write_buffer[of dir fn "buffer f" "fs w"]
  by (simp add: writeLocal_eq split: sum.splits)

lemma writeLocal_stored:
  "writeLocal dir fn rel f w = (Inr ref, w1) \<Longrightarrow> files (fs w1) (join [dir, fn]) = Some (buffer f)"
  by (auto simp: writeLocal_eq dest: local_write_written split: sum.splits)

text \<open>
  Claim C2, as amended. Each of the three save operations, called without a file object,
  fails with the error "No file provided" before it touches the filesystem or the blob
  store, on both backends. A file object carries its buffer, and the length of the buffer
  is not examined. On the local filesystem a save with a file object never fails with that
  error; its result, the reference or the error of the filesystem, is the same for an
  empty buffer as for any other; and when it succeeds the file that it wrote holds the
  buffer, so that an empty buffer leaves an empty file. On the blob store the save is the
  one call of \<open>put\<close> with the buffer, whatever its length.
\<close>

theorem save_without_file:
  "saveProfileImage env B this None ownerId uuid w = (Inl NoFileProvided, w)
   \<and> savePropertyImage env B this None ownerId mediaType uuid w = (Inl NoFileProvided, w)
   \<and> saveInstagramMedia env B this None ownerId mediaType fileType uuid w = (Inl NoFileProvided, w)
   \<and> (\<not> isVercel this \<longrightarrow>
        fst (saveProfileImage env B this (Some f) ownerId uuid w) \<noteq> Inl NoFileProvided
      \<and> fst (savePropertyImage env B this (Some f) ownerId mediaType uuid w) \<noteq> Inl NoFileProvided
      \<and> fst (saveInstagramMedia env B this (Some f) ownerId mediaType fileType uuid w) \<noteq> Inl NoFileProvided)
   \<and> (\<not> isVercel this \<longrightarrow>
        fst (saveProfileImage env B this (Some (f\<lparr>buffer := []\<rparr>)) ownerId uuid w)
          = fst (saveProfileImage env B this (Some f) ownerId uuid w)
      \<and> fst (savePropertyImage env B this (Some (f\<lparr>buffer := []\<rparr>)) ownerId mediaType uuid w)
          = fst (savePropertyImage env B this (Some f) ownerId mediaType uuid w)
      \<and> fst (saveInstagramMedia env B this (Some (f\<lparr>buffer := []\<rparr>)) ownerId mediaType fileType uuid w)
          = fst (saveInstagramMedia env B this (Some f) ownerId mediaType fileType uuid w))
   \<and> (\<not> isVercel this \<longrightarrow>
        (saveProfileImage env B this (Some f) ownerId uuid w = (Inr ref, w1) \<longrightarrow>
           files (fs w1) (join [join [cwd env, ''uploads'', ''profile-images'', ownerId],
                                uuid @ plainExtension f]) = Some (buffer f))
      \<and> (savePropertyImage env B this (Some f) ownerId mediaType uuid w = (Inr ref, w1) \<longrightarrow>
           files (fs w1) (join [join [cwd env, ''uploads'', ''property-images'', ownerId],
                                uuid @ propertyLocalExtension f mediaType]) = Some (buffer f))
      \<and> (saveInstagramMedia env B this (Some f) ownerId mediaType fileType uuid w = (Inr ref, w1) \<longrightarrow>
           files (fs w1) (join [join [cwd env, ''uploads'', ''instagram-media'', mediaType, ownerId],
                                uuid @ instagramLocalExtension f fileType]) = Some (buffer f)))
   \<and> (isVercel this \<longrightarrow>
        saveProfileImage env B this (Some f) ownerId uuid w
          = after_put B (key_layout ''profile-images'' None ownerId uuid (plainExtension f)) f w
      \<and> savePropertyImage env B this (Some f) ownerId mediaType uuid w
          = after_put B (key_layout ''property-images'' None ownerId uuid (plainExtension f)) f w
      \<and> saveInstagramMedia env B this (Some f) ownerId mediaType fileType uuid w
          = after_put B (key_layout ''instagram-media'' (Some mediaType) ownerId uuid (plainExtension f)) f w)"
proof -
  have absent: "saveProfileImage env B this None ownerId uuid w = (Inl NoFileProvided, w)"
    "savePropertyImage env B this None ownerId mediaType uuid w = (Inl NoFileProvided, w)"
    "saveInstagramMedia env B this None ownerId mediaType fileType uuid w = (Inl NoFileProvided, w)"
    by (simp_all add: saveProfileImage_def savePropertyImage_def saveInstagramMedia_def
          tryCatch_def throwE_def)
  have present: "\<not> isVercel this \<longrightarrow>
        fst (saveProfileImage env B this (Some f) ownerId uuid w) \<noteq> Inl NoFileProvided
      \<and> fst (savePropertyImage env B this (Some f) ownerId mediaType uuid w) \<noteq> Inl NoFileProvided
      \<and> fst (saveInstagramMedia env B this (Some f) ownerId mediaType fileType uuid w) \<noteq> Inl NoFileProvided"
    by (simp add: save_local writeLocal_errors)
  have name: "plainExtension (f\<lparr>buffer := []\<rparr>) = plainExtension f"
    "propertyLocalExtension (f\<lparr>buffer := []\<rparr>) mediaType = propertyLocalExtension f mediaType"
    "instagramLocalExtension (f\<lparr>buffer := []\<rparr>) fileType = instagramLocalExtension f fileType"
    by (simp_all add: plainExtension_def propertyLocalExtension_def instagramLocalExtension_def)
  have empty: "\<not> isVercel this \<longrightarrow>
        fst (saveProfileImage env B this (Some (f\<lparr>buffer := []\<rparr>)) ownerId uuid w)
          = fst (saveProfileImage env B this (Some f) ownerId uuid w)
      \<and> fst (savePropertyImage env B this (Some (f\<lparr>buffer := []\<rparr>)) ownerId mediaType uuid w)
          = fst (savePropertyImage env B this (Some f) ownerId mediaType uuid w)
      \<and> fst (saveInstagramMedia env B this (Some (f\<lparr>buffer := []\<rparr>)) ownerId mediaType fileType uuid w)
          = fst (saveInstagramMedia env B this (Some f) ownerId mediaType fileType uuid w)"
    by (simp add: save_local name writeLocal_buffer)
  have stored: "\<not> isVercel this \<longrightarrow>
        (saveProfileImage env B this (Some f) ownerId uuid w = (Inr ref, w1) \<longrightarrow>
           files (fs w1) (join [join [cwd env, ''uploads'', ''profile-images'', ownerId],
                                uuid @ plainExtension f]) = Some (buffer f))
      \<and> (savePropertyImage env B this (Some f) ownerId mediaType uuid w = (Inr ref, w1) \<longrightarrow>
           files (fs w1) (join [join [cwd env, ''uploads'', ''property-images'', ownerId],
                                uuid @ propertyLocalExtension f mediaType]) = Some (buffer f))
      \<and> (saveInstagramMedia env B this (Some f) ownerId mediaType fileType uuid w = (Inr ref, w1) \<longrightarrow>
           files (fs w1) (join [join [cwd env, ''uploads'', ''instagram-media'', mediaType, ownerId],
                                uuid @ instagramLocalExtension f fileType]) = Some (buffer f))"
    by (intro impI conjI) (simp_all add: save_local, (erule writeLocal_stored)+)
  have uploaded: "isVercel this \<longrightarrow>
        saveProfileImage env B this (Some f) ownerId uuid w
          = after_put B (key_layout ''profile-images'' None ownerId uuid (plainExtension f)) f w
      \<and> savePropertyImage env B this (Some f) ownerId mediaType uuid w
          = after_put B (key_layout ''property-images'' None ownerId uuid (plainExtension f)) f w
      \<and> saveInstagramMedia env B this (Some f) ownerId mediaType fileType uuid w
          = after_put B (key_layout ''instagram-media'' (Some mediaType) ownerId uuid (plainExtension f)) f w"
    by (simp add: save_remote uploadToBlob_eq)
  show ?thesis
    using absent present empty stored uploaded by (intro conjI)
qed

theorem save_without_file_witness:
  "saveProfileImage local_env keyed_store local_service None ''u1'' uuid0 fresh_world
     = (Inl NoFileProvided, fresh_world)
   \<and> saveInstagramMedia vercel_env keyed_store vercel_service None ''u1'' ''reel'' ''video'' uuid0 fresh_world
     = (Inl NoFileProvided, fresh_world)
   \<and> fst (saveProfileImage local_env keyed_store local_service (Some jpeg_file) ''u1'' uuid0 blocked_world)
     \<noteq> Inl NoFileProvided
   \<and> fst (saveProfileImage local_env keyed_store local_service (Some (jpeg_file\<lparr>buffer := []\<rparr>)) ''u1'' uuid0
            fresh_world)
     = Inr ''profile-images/u1/3f2b8c1e-7a4d-4e9b-8c6f-1d2e3f4a5b6c.jpg''
   \<and> files (fs (snd (saveProfileImage local_env keyed_store local_service (Some (jpeg_file\<lparr>buffer := []\<rparr>))
                       ''u1'' uuid0 fresh_world)))
        ''/app/uploads/profile-images/u1/3f2b8c1e-7a4d-4e9b-8c6f-1d2e3f4a5b6c.jpg''
     = Some []
   \<and> saveProfileImage vercel_env keyed_store vercel_service (Some (jpeg_file\<lparr>buffer := []\<rparr>)) ''u1'' uuid0
        fresh_world
     = (Inr (blob_host @ ''/profile-images/u1/3f2b8c1e-7a4d-4e9b-8c6f-1d2e3f4a5b6c.jpg''),
        fresh_world
          \<lparr>blob := [''profile-images/u1/3f2b8c1e-7a4d-4e9b-8c6f-1d2e3f4a5b6c.jpg''
                      \<mapsto> ([], \<lparr>access = Public, contentType = ''image/jpeg''\<rparr>)],
           calls := [PutCall ''profile-images/u1/3f2b8c1e-7a4d-4e9b-8c6f-1d2e3f4a5b6c.jpg'' []
                       \<lparr>access = Public, contentType = ''image/jpeg''\<rparr>]\<rparr>)"
proof -
  note claim = save_without_file
  let ?ref = "''profile-images/u1/3f2b8c1e-7a4d-4e9b-8c6f-1d2e3f4a5b6c.jpg''"
  let ?empty = "jpeg_file\<lparr>buffer := []\<rparr>"
  let ?S = "saveProfileImage local_env keyed_store local_service"
  have on_disk: "\<not> isVercel local_service"
    by (simp add: local_service_def)
  have on_store: "isVercel vercel_service"
    by (simp add: vercel_service_def)
  have a: "saveProfileImage local_env keyed_store local_service None ''u1'' uuid0 fresh_world
     = (Inl NoFileProvided, fresh_world)"
    using claim [THEN conjunct1] .
  have b: "saveInstagramMedia vercel_env keyed_store vercel_service None ''u1'' ''reel'' ''video''
      uuid0 fresh_world = (Inl NoFileProvided, fresh_world)"
    using claim [THEN conjunct2, THEN conjunct2, THEN conjunct1] .
  have c: "fst (saveProfileImage local_env keyed_store local_service (Some jpeg_file) ''u1'' uuid0
      blocked_world) \<noteq> Inl NoFileProvided"
    using claim [THEN conjunct2, THEN conjunct2, THEN conjunct2, THEN conjunct1, rule_format, OF on_disk,
        THEN conjunct1] .
  have full: "fst (?S (Some jpeg_file) ''u1'' uuid0 fresh_world) = Inr ?ref"
    by (simp add: saveProfileImage_local writeLocal_eq eval_defs)
  have d: "fst (?S (Some ?empty) ''u1'' uuid0 fresh_world) = Inr ?ref"
    using claim [where f = jpeg_file and ownerId = "''u1''" and uuid = uuid0 and w = fresh_world
        and env = local_env and B = keyed_store and this = local_service,
        THEN conjunct2, THEN conjunct2, THEN conjunct2, THEN conjunct2, THEN conjunct1,
        rule_format, OF on_disk, THEN conjunct1] full
    by simp
  then have saved: "?S (Some ?empty) ''u1'' uuid0 fresh_world
      = (Inr ?ref, snd (?S (Some ?empty) ''u1'' uuid0 fresh_world))"
    by (simp add: prod_eq_iff)
  have path: "join [join [cwd local_env, ''uploads'', ''profile-images'', ''u1''], uuid0 @ plainExtension ?empty]
      = ''/app/uploads/profile-images/u1/3f2b8c1e-7a4d-4e9b-8c6f-1d2e3f4a5b6c.jpg''"
    by (simp add: eval_defs)
  have e: "files (fs (snd (?S (Some ?empty) ''u1'' uuid0 fresh_world)))
        ''/app/uploads/profile-images/u1/3f2b8c1e-7a4d-4e9b-8c6f-1d2e3f4a5b6c.jpg'' = Some []"
    using claim [THEN conjunct2, THEN conjunct2, THEN conjunct2, THEN conjunct2, THEN conjunct2,
        THEN conjunct1, rule_format, OF on_disk, THEN conjunct1, rule_format, OF saved]
    unfolding path by simp
  have g: "saveProfileImage vercel_env keyed_store vercel_service (Some ?empty) ''u1'' uuid0 fresh_world
     = (Inr (blob_host @ ''/profile-images/u1/3f2b8c1e-7a4d-4e9b-8c6f-1d2e3f4a5b6c.jpg''),
        fresh_world
          \<lparr>blob := [''profile-images/u1/3f2b8c1e-7a4d-4e9b-8c6f-1d2e3f4a5b6c.jpg''
                      \<mapsto> ([], \<lparr>access = Public, contentType = ''image/jpeg''\<rparr>)],
           calls := [PutCall ''profile-images/u1/3f2b8c1e-7a4d-4e9b-8c6f-1d2e3f4a5b6c.jpg'' []
                       \<lparr>access = Public, contentType = ''image/jpeg''\<rparr>]\<rparr>)"
    unfolding claim [THEN conjunct2, THEN conjunct2, THEN conjunct2, THEN conjunct2, THEN conjunct2,
        THEN conjunct2, rule_format, OF on_store, THEN conjunct1]
    by (simp add: after_put_def keyed_store_def key_layout_def plainExtension_def extname_def
          jpeg_file_def uuid0_def public_read_def fresh_world_def)
  show ?thesis
    using a b c d e g by (intro conjI)
qed

text \<open>
  Claim C2 as it is stated fails: a file object whose buffer has length zero is saved. On
  the local filesystem the empty file is written and its reference is returned; on the
  blob store the empty buffer is uploaded and the URL of the blob is returned.
\<close>

theorem save_empty_buffer_counterexample:
  "fst (saveProfileImage local_env keyed_store local_service
          (Some \<lparr>originalname = ''avatar.jpg'', mimetype = ''image/jpeg'', buffer = []\<rparr>)
          ''u1'' uuid0 fresh_world)
     = Inr ''profile-images/u1/3f2b8c1e-7a4d-4e9b-8c6f-1d2e3f4a5b6c.jpg''
   \<and> files (fs (snd (saveProfileImage local_env keyed_store local_service
          (Some \<lparr>originalname = ''avatar.jpg'', mimetype = ''image/jpeg'', buffer = []\<rparr>)
          ''u1'' uuid0 fresh_world)))
     = [''/app/uploads/profile-images/u1/3f2b8c1e-7a4d-4e9b-8c6f-1d2e3f4a5b6c.jpg'' \<mapsto> []]
   \<and> fst (saveProfileImage vercel_env keyed_store vercel_service
          (Some \<lparr>originalname = ''avatar.jpg'', mimetype = ''image/jpeg'', buffer = []\<rparr>)
          ''u1'' uuid0 fresh_world)
     = Inr (blob_host @ ''/profile-images/u1/3f2b8c1e-7a4d-4e9b-8c6f-1d2e3f4a5b6c.jpg'')
   \<and> calls (snd (saveProfileImage vercel_env keyed_store vercel_service
          (Some \<lparr>originalname = ''avatar.jpg'', mimetype = ''image/jpeg'', buffer = []\<rparr>)
          ''u1'' uuid0 fresh_world))
     = [PutCall ''profile-images/u1/3f2b8c1e-7a4d-4e9b-8c6f-1d2e3f4a5b6c.jpg'' []
          \<lparr>access = Public, contentType = ''image/jpeg''\<rparr>]"
proof -
  let ?f = "\<lparr>originalname = ''avatar.jpg'', mimetype = ''image/jpeg'', buffer = []\<rparr>"
  have on_disk: "\<not> isVercel local_service"
    by (simp add: local_service_def)
  have on_store: "isVercel vercel_service"
    by (simp add: vercel_service_def)
  have a: "fst (saveProfileImage local_env keyed_store local_service (Some ?f) ''u1'' uuid0 fresh_world)
     = Inr ''profile-images/u1/3f2b8c1e-7a4d-4e9b-8c6f-1d2e3f4a5b6c.jpg''"
    by (simp add: saveProfileImage_local writeLocal_eq eval_defs)
  have b: "files (fs (snd (saveProfileImage local_env keyed_store local_service (Some ?f) ''u1'' uuid0
                             fresh_world)))
     = [''/app/uploads/profile-images/u1/3f2b8c1e-7a4d-4e9b-8c6f-1d2e3f4a5b6c.jpg'' \<mapsto> []]"
    by (simp add: saveProfileImage_local writeLocal_eq eval_defs)
  have c: "fst (saveProfileImage vercel_env keyed_store vercel_service (Some ?f) ''u1'' uuid0 fresh_world)
     = Inr (blob_host @ ''/profile-images/u1/3f2b8c1e-7a4d-4e9b-8c6f-1d2e3f4a5b6c.jpg'')"
    by (simp add: saveProfileImage_remote[OF on_store] uploadToBlob_eq after_put_def keyed_store_def
          key_layout_def plainExtension_def extname_def uuid0_def)
  have d: "calls (snd (saveProfileImage vercel_env keyed_store vercel_service (Some ?f) ''u1'' uuid0
                         fresh_world))
     = [PutCall ''profile-images/u1/3f2b8c1e-7a4d-4e9b-8c6f-1d2e3f4a5b6c.jpg'' []
          \<lparr>access = Public, contentType = ''image/jpeg''\<rparr>]"
    by (simp add: saveProfileImage_remote[OF on_store] uploadToBlob_eq after_put_def keyed_store_def
          key_layout_def plainExtension_def extname_def uuid0_def public_read_def fresh_world_def)
  show ?thesis
    using a b c d by (intro conjI)
qed

text \<open>
  Claim C8. On the local filesystem a save that succeeds returns the path
  \<open>{category}/[{sub_kind}/]{owner_id}/{uuid}{ext}\<close>, which does not start with the upload
  root, and the buffer is the content of the file of that name in the directory of the
  owner. On the blob store a save is one call of \<open>put\<close> with a key of the same layout, the
  buffer, public access and the declared content type, and its result is the URL that the
  store returns.
\<close>

theorem save_returns_layout:
  "(\<not> isVercel this \<longrightarrow>
      (fst (saveProfileImage env B this (Some f) ownerId uuid w) = Inr ref \<longrightarrow>
         ref = key_layout ''profile-images'' None ownerId uuid (plainExtension f)
         \<and> \<not> startsWith ref ''uploads/''
         \<and> files (fs (snd (saveProfileImage env B this (Some f) ownerId uuid w)))
              (join [join [cwd env, ''uploads'', ''profile-images'', ownerId], uuid @ plainExtension f])
            = Some (buffer f))
    \<and> (fst (savePropertyImage env B this (Some f) ownerId mediaType uuid w) = Inr ref \<longrightarrow>
         ref = key_layout ''property-images'' None ownerId uuid (propertyLocalExtension f mediaType)
         \<and> \<not> startsWith ref ''uploads/''
         \<and> files (fs (snd (savePropertyImage env B this (Some f) ownerId mediaType uuid w)))
              (join [join [cwd env, ''uploads'', ''property-images'', ownerId],
                     uuid @ propertyLocalExtension f mediaType])
            = Some (buffer f))
    \<and> (fst (saveInstagramMedia env B this (Some f) ownerId mediaType fileType uuid w) = Inr ref \<longrightarrow>
         ref = key_layout ''instagram-media'' (Some mediaType) ownerId uuid (instagramLocalExtension f fileType)
         \<and> \<not> startsWith ref ''uploads/''
         \<and> files (fs (snd (saveInstagramMedia env B this (Some f) ownerId mediaType fileType uuid w)))
              (join [join [cwd env, ''uploads'', ''instagram-media'', mediaType, ownerId],
                     uuid @ instagramLocalExtension f fileType])
            = Some (buffer f)))
   \<and> (isVercel this \<longrightarrow>
        saveProfileImage env B this (Some f) ownerId uuid w
          = after_put B (key_layout ''profile-images'' None ownerId uuid (plainExtension f)) f w
      \<and> savePropertyImage env B this (Some f) ownerId mediaType uuid w
          = after_put B (key_layout ''property-images'' None ownerId uuid (plainExtension f)) f w
      \<and> saveInstagramMedia env B this (Some f) ownerId mediaType fileType uuid w
          = after_put B (key_layout ''instagram-media'' (Some mediaType) ownerId uuid (plainExtension f)) f w)"
proof -
  have loc: "r = rel \<and> \<not> startsWith r ''uploads/''
      \<and> files (fs (snd (writeLocal dir fn rel f w))) (join [dir, fn]) = Some (buffer f)"
    if "fst (writeLocal dir fn rel f w) = Inr r" and "\<not> startsWith rel ''uploads/''" for dir fn rel r
    using that by (auto simp: writeLocal_eq dest: local_write_written split: sum.splits)
  have pre: "\<not> startsWith (key_layout ''profile-images'' None a b c) ''uploads/''"
       "\<not> startsWith (key_layout ''property-images'' None a b c) ''uploads/''"
       "\<not> startsWith (key_layout ''instagram-media'' (Some m) a b c) ''uploads/''" for a b c m
    by (simp_all add: startsWith_def key_layout_def)
  show ?thesis
    using loc[OF _ pre(1)] loc[OF _ pre(2)] loc[OF _ pre(3)]
    by (simp add: save_local save_remote uploadToBlob_eq)
qed


theorem save_returns_layout_witness:
  "fst (saveProfileImage local_env keyed_store local_service (Some jpeg_file) ''u1'' uuid0 fresh_world)
     = Inr ''profile-images/u1/3f2b8c1e-7a4d-4e9b-8c6f-1d2e3f4a5b6c.jpg''
   \<and> ''profile-images/u1/3f2b8c1e-7a4d-4e9b-8c6f-1d2e3f4a5b6c.jpg''
       = key_layout ''profile-images'' None ''u1'' uuid0 (plainExtension jpeg_file)
   \<and> fst (saveProfileImage vercel_env keyed_store vercel_service (Some jpeg_file) ''u1'' uuid0 fresh_world)
       = Inr (blob_host @ ''/profile-images/u1/3f2b8c1e-7a4d-4e9b-8c6f-1d2e3f4a5b6c.jpg'')"
proof -
  note claim = save_returns_layout
  have on_store: "isVercel vercel_service" and on_disk: "\<not> isVercel local_service"
    by (simp_all add: vercel_service_def local_service_def)
  have saved: "fst (saveProfileImage local_env keyed_store local_service (Some jpeg_file) ''u1'' uuid0 fresh_world)
     = Inr ''profile-images/u1/3f2b8c1e-7a4d-4e9b-8c6f-1d2e3f4a5b6c.jpg''"
    by (simp add: saveProfileImage_local writeLocal_eq eval_defs)
  have "''profile-images/u1/3f2b8c1e-7a4d-4e9b-8c6f-1d2e3f4a5b6c.jpg''
       = key_layout ''profile-images'' None ''u1'' uuid0 (plainExtension jpeg_file)"
    using claim [THEN conjunct1, rule_format, OF on_disk, THEN conjunct1, rule_format, OF saved]
    by (rule conjunct1)
  moreover have "fst (saveProfileImage vercel_env keyed_store vercel_service (Some jpeg_file) ''u1'' uuid0 fresh_world)
       = Inr (blob_host @ ''/profile-images/u1/3f2b8c1e-7a4d-4e9b-8c6f-1d2e3f4a5b6c.jpg'')"
    unfolding claim [THEN conjunct2, rule_format, OF on_store, THEN conjunct1]
    by (simp add: after_put_def keyed_store_def key_layout_def plainExtension_def extname_def
          jpeg_file_def uuid0_def)
  ultimately show ?thesis using saved by (intro conjI)
qed

text \<open>
  Claim C5, as amended. Every save operation ends the stored key with the extension of the
  original filename when the filename has one. When it has none, the local save of
  Instagram media puts \<open>.mp4\<close> for the file type video and \<open>.jpg\<close> for any other; the local
  save of a property image puts a default (\<open>.mp4\<close> for the media type reel, \<open>.jpg\<close>
  otherwise) only when the filename is empty, and nothing after the identifier when the
  filename is not empty; the local save of a profile image puts nothing after the
  identifier. The reference that each local save returns is given in full: the key layout
  with the extension so chosen.
\<close>

theorem extension_of_stored_key:
  "(\<not> isVercel this \<longrightarrow>
      (fst (saveInstagramMedia env B this (Some f) ownerId mediaType fileType uuid w) = Inr ref \<longrightarrow>
         (extname (originalname f) \<noteq> [] \<longrightarrow> suffix (extname (originalname f)) ref)
         \<and> (extname (originalname f) = [] \<and> fileType = ''video'' \<longrightarrow> suffix ''.mp4'' ref)
         \<and> (extname (originalname f) = [] \<and> fileType \<noteq> ''video'' \<longrightarrow> suffix ''.jpg'' ref))
    \<and> (fst (savePropertyImage env B this (Some f) ownerId mediaType uuid w) = Inr ref \<longrightarrow>
         (extname (originalname f) \<noteq> [] \<longrightarrow> suffix (extname (originalname f)) ref)
         \<and> (originalname f = [] \<and> mediaType = ''reel'' \<longrightarrow> suffix ''.mp4'' ref)
         \<and> (originalname f = [] \<and> mediaType \<noteq> ''reel'' \<longrightarrow> suffix ''.jpg'' ref))
    \<and> (fst (saveProfileImage env B this (Some f) ownerId uuid w) = Inr ref \<longrightarrow>
         suffix (uuid @ extname (originalname f)) ref))
   \<and> (isVercel this \<and> extname (originalname f) \<noteq> [] \<longrightarrow>
        saveProfileImage env B this (Some f) ownerId uuid w
          = after_put B (key_layout ''profile-images'' None ownerId uuid (extname (originalname f))) f w
      \<and> savePropertyImage env B this (Some f) ownerId mediaType uuid w
          = after_put B (key_layout ''property-images'' None ownerId uuid (extname (originalname f))) f w
      \<and> saveInstagramMedia env B this (Some f) ownerId mediaType fileType uuid w
          = after_put B (key_layout ''instagram-media'' (Some mediaType) ownerId uuid
                           (extname (originalname f))) f w)
   \<and> (\<not> isVercel this \<longrightarrow>
        (fst (saveInstagramMedia env B this (Some f) ownerId mediaType fileType uuid w) = Inr ref \<longrightarrow>
           ref = key_layout ''instagram-media'' (Some mediaType) ownerId uuid
                   (if extname (originalname f) \<noteq> [] then extname (originalname f)
                    else if fileType = ''video'' then ''.mp4'' else ''.jpg''))
      \<and> (fst (savePropertyImage env B this (Some f) ownerId mediaType uuid w) = Inr ref \<longrightarrow>
           ref = key_layout ''property-images'' None ownerId uuid
                   (if originalname f \<noteq> [] then extname (originalname f)
                    else if mediaType = ''reel'' then ''.mp4'' else ''.jpg''))
      \<and> (fst (saveProfileImage env B this (Some f) ownerId uuid w) = Inr ref \<longrightarrow>
           ref = key_layout ''profile-images'' None ownerId uuid (extname (originalname f))))
   \<and> suffix ext (key_layout category sub_kind ownerId uuid ext)"
proof -
  have loc: "r = rel" if "fst (writeLocal dir fn rel f w) = Inr r" for dir fn rel r
    using that by (auto simp: writeLocal_eq split: sum.splits)
  have empty_name: "extname [] = []"
    by (simp add: extname_def)
  have insta: "(extname (originalname f) \<noteq> [] \<longrightarrow> instagramLocalExtension f fileType = extname (originalname f))
      \<and> (extname (originalname f) = [] \<and> fileType = ''video'' \<longrightarrow> instagramLocalExtension f fileType = ''.mp4'')
      \<and> (extname (originalname f) = [] \<and> fileType \<noteq> ''video'' \<longrightarrow> instagramLocalExtension f fileType = ''.jpg'')"
    using empty_name unfolding instagramLocalExtension_def by auto
  have property: "(extname (originalname f) \<noteq> [] \<longrightarrow> propertyLocalExtension f mediaType = extname (originalname f))
      \<and> (originalname f = [] \<and> mediaType = ''reel'' \<longrightarrow> propertyLocalExtension f mediaType = ''.mp4'')
      \<and> (originalname f = [] \<and> mediaType \<noteq> ''reel'' \<longrightarrow> propertyLocalExtension f mediaType = ''.jpg'')"
    using empty_name unfolding propertyLocalExtension_def by auto
  have d1: "(extname (originalname f) \<noteq> [] \<longrightarrow> suffix (extname (originalname f)) ref)
         \<and> (extname (originalname f) = [] \<and> fileType = ''video'' \<longrightarrow> suffix ''.mp4'' ref)
         \<and> (extname (originalname f) = [] \<and> fileType \<noteq> ''video'' \<longrightarrow> suffix ''.jpg'' ref)"
    if "\<not> isVercel this"
      and "fst (saveInstagramMedia env B this (Some f) ownerId mediaType fileType uuid w) = Inr ref"
  proof -
    have "ref = key_layout ''instagram-media'' (Some mediaType) ownerId uuid (instagramLocalExtension f fileType)"
      using that loc by (simp add: saveInstagramMedia_local)
    then have "suffix (instagramLocalExtension f fileType) ref"
      by (simp add: suffix_key_layout)
    then show ?thesis using insta by metis
  qed
  have d2: "(extname (originalname f) \<noteq> [] \<longrightarrow> suffix (extname (originalname f)) ref)
         \<and> (originalname f = [] \<and> mediaType = ''reel'' \<longrightarrow> suffix ''.mp4'' ref)
         \<and> (originalname f = [] \<and> mediaType \<noteq> ''reel'' \<longrightarrow> suffix ''.jpg'' ref)"
    if "\<not> isVercel this"
      and "fst (savePropertyImage env B this (Some f) ownerId mediaType uuid w) = Inr ref"
  proof -
    have "ref = key_layout ''property-images'' None ownerId uuid (propertyLocalExtension f mediaType)"
      using that loc by (simp add: savePropertyImage_local)
    then have "suffix (propertyLocalExtension f mediaType) ref"
      by (simp add: suffix_key_layout)
    then show ?thesis using property by metis
  qed
  have d3: "suffix (uuid @ extname (originalname f)) ref"
    if "\<not> isVercel this" and "fst (saveProfileImage env B this (Some f) ownerId uuid w) = Inr ref"
  proof -
    have "ref = key_layout ''profile-images'' None ownerId uuid (plainExtension f)"
      using that loc by (simp add: saveProfileImage_local)
    then show ?thesis
      by (simp add: suffix_key_layout_file plainExtension_def)
  qed
  have store: "isVercel this \<and> extname (originalname f) \<noteq> [] \<longrightarrow>
        saveProfileImage env B this (Some f) ownerId uuid w
          = after_put B (key_layout ''profile-images'' None ownerId uuid (extname (originalname f))) f w
      \<and> savePropertyImage env B this (Some f) ownerId mediaType uuid w
          = after_put B (key_layout ''property-images'' None ownerId uuid (extname (originalname f))) f w
      \<and> saveInstagramMedia env B this (Some f) ownerId mediaType fileType uuid w
          = after_put B (key_layout ''instagram-media'' (Some mediaType) ownerId uuid
                           (extname (originalname f))) f w"
    by (simp add: save_remote uploadToBlob_eq plainExtension_def)
  have chosen: "instagramLocalExtension f fileType
        = (if extname (originalname f) \<noteq> [] then extname (originalname f)
           else if fileType = ''video'' then ''.mp4'' else ''.jpg'')"
    using empty_name unfolding instagramLocalExtension_def by (cases "originalname f = []") simp_all
  have exact: "\<not> isVercel this \<longrightarrow>
        (fst (saveInstagramMedia env B this (Some f) ownerId mediaType fileType uuid w) = Inr ref \<longrightarrow>
           ref = key_layout ''instagram-media'' (Some mediaType) ownerId uuid
                   (if extname (originalname f) \<noteq> [] then extname (originalname f)
                    else if fileType = ''video'' then ''.mp4'' else ''.jpg''))
      \<and> (fst (savePropertyImage env B this (Some f) ownerId mediaType uuid w) = Inr ref \<longrightarrow>
           ref = key_layout ''property-images'' None ownerId uuid
                   (if originalname f \<noteq> [] then extname (originalname f)
                    else if mediaType = ''reel'' then ''.mp4'' else ''.jpg''))
      \<and> (fst (saveProfileImage env B this (Some f) ownerId uuid w) = Inr ref \<longrightarrow>
           ref = key_layout ''profile-images'' None ownerId uuid (extname (originalname f)))"
  proof (intro impI conjI)
    assume "\<not> isVercel this"
      and "fst (saveInstagramMedia env B this (Some f) ownerId mediaType fileType uuid w) = Inr ref"
    then have "ref = key_layout ''instagram-media'' (Some mediaType) ownerId uuid
        (instagramLocalExtension f fileType)"
      using loc by (simp add: saveInstagramMedia_local)
    then show "ref = key_layout ''instagram-media'' (Some mediaType) ownerId uuid
                   (if extname (originalname f) \<noteq> [] then extname (originalname f)
                    else if fileType = ''video'' then ''.mp4'' else ''.jpg'')"
      unfolding chosen .
  next
    assume "\<not> isVercel this"
      and "fst (savePropertyImage env B this (Some f) ownerId mediaType uuid w) = Inr ref"
    then have "ref = key_layout ''property-images'' None ownerId uuid (propertyLocalExtension f mediaType)"
      using loc by (simp add: savePropertyImage_local)
    then show "ref = key_layout ''property-images'' None ownerId uuid
                   (if originalname f \<noteq> [] then extname (originalname f)
                    else if mediaType = ''reel'' then ''.mp4'' else ''.jpg'')"
      unfolding propertyLocalExtension_def .
  next
    assume "\<not> isVercel this"
      and "fst (saveProfileImage env B this (Some f) ownerId uuid w) = Inr ref"
    then have "ref = key_layout ''profile-images'' None ownerId uuid (plainExtension f)"
      using loc by (simp add: saveProfileImage_local)
    then show "ref = key_layout ''profile-images'' None ownerId uuid (extname (originalname f))"
      unfolding plainExtension_def .
  qed
  have parts: "\<not> isVercel this \<longrightarrow>
      (fst (saveInstagramMedia env B this (Some f) ownerId mediaType fileType uuid w) = Inr ref \<longrightarrow>
         (extname (originalname f) \<noteq> [] \<longrightarrow> suffix (extname (originalname f)) ref)
         \<and> (extname (originalname f) = [] \<and> fileType = ''video'' \<longrightarrow> suffix ''.mp4'' ref)
         \<and> (extname (originalname f) = [] \<and> fileType \<noteq> ''video'' \<longrightarrow> suffix ''.jpg'' ref))
    \<and> (fst (savePropertyImage env B this (Some f) ownerId mediaType uuid w) = Inr ref \<longrightarrow>
         (extname (originalname f) \<noteq> [] \<longrightarrow> suffix (extname (originalname f)) ref)
         \<and> (originalname f = [] \<and> mediaType = ''reel'' \<longrightarrow> suffix ''.mp4'' ref)
         \<and> (originalname f = [] \<and> mediaType \<noteq> ''reel'' \<longrightarrow> suffix ''.jpg'' ref))
    \<and> (fst (saveProfileImage env B this (Some f) ownerId uuid w) = Inr ref \<longrightarrow>
         suffix (uuid @ extname (originalname f)) ref)"
    using d1 d2 d3 by (intro conjI impI) blast+
  show ?thesis
    using parts store exact suffix_key_layout[of ext category sub_kind ownerId uuid]
    by (intro conjI)
qed

theorem extension_of_stored_key_witness:
  "fst (saveInstagramMedia local_env keyed_store local_service
          (Some \<lparr>originalname = ''clip'', mimetype = ''video/mp4'', buffer = [0x00, 0x01]\<rparr>)
          ''u1'' ''reel'' ''video'' uuid0 fresh_world)
     = Inr ''instagram-media/reel/u1/3f2b8c1e-7a4d-4e9b-8c6f-1d2e3f4a5b6c.mp4''
   \<and> suffix ''.mp4'' ''instagram-media/reel/u1/3f2b8c1e-7a4d-4e9b-8c6f-1d2e3f4a5b6c.mp4''
   \<and> fst (savePropertyImage local_env keyed_store local_service
          (Some \<lparr>originalname = ''photo'', mimetype = ''image/jpeg'', buffer = [0xFF, 0xD8]\<rparr>)
          ''p1'' ''image'' uuid0 fresh_world)
     = Inr ''property-images/p1/3f2b8c1e-7a4d-4e9b-8c6f-1d2e3f4a5b6c''
   \<and> ''property-images/p1/3f2b8c1e-7a4d-4e9b-8c6f-1d2e3f4a5b6c''
     = key_layout ''property-images'' None ''p1'' uuid0 []
   \<and> fst (savePropertyImage local_env keyed_store local_service
          (Some \<lparr>originalname = [], mimetype = ''video/mp4'', buffer = [0x00, 0x01]\<rparr>)
          ''p1'' ''reel'' uuid0 fresh_world)
     = Inr ''property-images/p1/3f2b8c1e-7a4d-4e9b-8c6f-1d2e3f4a5b6c.mp4''
   \<and> ''property-images/p1/3f2b8c1e-7a4d-4e9b-8c6f-1d2e3f4a5b6c.mp4''
     = key_layout ''property-images'' None ''p1'' uuid0 ''.mp4''"
proof -
  note claim = extension_of_stored_key
  let ?f = "\<lparr>originalname = ''clip'', mimetype = ''video/mp4'', buffer = [0x00, 0x01 :: byte]\<rparr>"
  have on_disk: "\<not> isVercel local_service"
    by (simp add: local_service_def)
  have saved: "fst (saveInstagramMedia local_env keyed_store local_service (Some ?f)
          ''u1'' ''reel'' ''video'' uuid0 fresh_world)
     = Inr ''instagram-media/reel/u1/3f2b8c1e-7a4d-4e9b-8c6f-1d2e3f4a5b6c.mp4''"
    by (simp add: saveInstagramMedia_local writeLocal_eq instagramLocalExtension_def eval_defs)
  have bare: "extname (originalname ?f) = [] \<and> ''video'' = ''video''"
    by (simp add: extname_def)
  have "suffix ''.mp4'' ''instagram-media/reel/u1/3f2b8c1e-7a4d-4e9b-8c6f-1d2e3f4a5b6c.mp4''"
    using claim [THEN conjunct1, rule_format, OF on_disk, THEN conjunct1, rule_format, OF saved,
        THEN conjunct2, THEN conjunct1, rule_format, OF bare] .
  then have media: "fst (saveInstagramMedia local_env keyed_store local_service (Some ?f)
          ''u1'' ''reel'' ''video'' uuid0 fresh_world)
     = Inr ''instagram-media/reel/u1/3f2b8c1e-7a4d-4e9b-8c6f-1d2e3f4a5b6c.mp4''
   \<and> suffix ''.mp4'' ''instagram-media/reel/u1/3f2b8c1e-7a4d-4e9b-8c6f-1d2e3f4a5b6c.mp4''"
    using saved by (intro conjI)
  let ?g = "\<lparr>originalname = ''photo'', mimetype = ''image/jpeg'', buffer = [0xFF, 0xD8 :: byte]\<rparr>"
  let ?h = "\<lparr>originalname = [], mimetype = ''video/mp4'', buffer = [0x00, 0x01 :: byte]\<rparr>"
  note exact = claim [THEN conjunct2, THEN conjunct2, THEN conjunct1, rule_format, OF on_disk,
      THEN conjunct2, THEN conjunct1, rule_format]
  have named: "fst (savePropertyImage local_env keyed_store local_service (Some ?g)
          ''p1'' ''image'' uuid0 fresh_world)
     = Inr ''property-images/p1/3f2b8c1e-7a4d-4e9b-8c6f-1d2e3f4a5b6c''"
    by (simp add: savePropertyImage_local writeLocal_eq propertyLocalExtension_def eval_defs)
  have nameless: "fst (savePropertyImage local_env keyed_store local_service (Some ?h)
          ''p1'' ''reel'' uuid0 fresh_world)
     = Inr ''property-images/p1/3f2b8c1e-7a4d-4e9b-8c6f-1d2e3f4a5b6c.mp4''"
    by (simp add: savePropertyImage_local writeLocal_eq propertyLocalExtension_def eval_defs)
  have bare_key: "''property-images/p1/3f2b8c1e-7a4d-4e9b-8c6f-1d2e3f4a5b6c''
     = key_layout ''property-images'' None ''p1'' uuid0 []"
    using exact [OF named] by (simp add: extname_def)
  have default_key: "''property-images/p1/3f2b8c1e-7a4d-4e9b-8c6f-1d2e3f4a5b6c.mp4''
     = key_layout ''property-images'' None ''p1'' uuid0 ''.mp4''"
    using exact [OF nameless] by simp
  show ?thesis
    using media named bare_key nameless default_key by (intro conjI) (simp_all only: simp_thms)
qed

text \<open>
  Claim C5 as it is stated fails. On the blob store a video for Instagram whose filename
  has no extension is uploaded under a key that ends with the bare identifier, not with
  \<open>.mp4\<close>, and the URL that is returned ends in the same way. On the local filesystem a
  profile image whose filename has no extension is stored under the bare identifier,
  without a default extension.
\<close>

theorem missing_default_extension_counterexample:
  "fst (saveInstagramMedia vercel_env keyed_store vercel_service
          (Some \<lparr>originalname = ''clip'', mimetype = ''video/mp4'', buffer = [0x00, 0x01]\<rparr>)
          ''u1'' ''reel'' ''video'' uuid0 fresh_world)
     = Inr (blob_host @ ''/instagram-media/reel/u1/3f2b8c1e-7a4d-4e9b-8c6f-1d2e3f4a5b6c'')
   \<and> calls (snd (saveInstagramMedia vercel_env keyed_store vercel_service
          (Some \<lparr>originalname = ''clip'', mimetype = ''video/mp4'', buffer = [0x00, 0x01]\<rparr>)
          ''u1'' ''reel'' ''video'' uuid0 fresh_world))
     = [PutCall ''instagram-media/reel/u1/3f2b8c1e-7a4d-4e9b-8c6f-1d2e3f4a5b6c'' [0x00, 0x01]
          \<lparr>access = Public, contentType = ''video/mp4''\<rparr>]
   \<and> \<not> suffix ''.mp4'' (blob_host @ ''/instagram-media/reel/u1/3f2b8c1e-7a4d-4e9b-8c6f-1d2e3f4a5b6c'')
   \<and> fst (saveProfileImage local_env keyed_store local_service
          (Some \<lparr>originalname = ''avatar'', mimetype = ''image/jpeg'', buffer = [0xFF, 0xD8]\<rparr>)
          ''u1'' uuid0 fresh_world)
     = Inr ''profile-images/u1/3f2b8c1e-7a4d-4e9b-8c6f-1d2e3f4a5b6c''"
proof -
  let ?f = "\<lparr>originalname = ''clip'', mimetype = ''video/mp4'', buffer = [0x00, 0x01 :: byte]\<rparr>"
  have on_store: "isVercel vercel_service"
    by (simp add: vercel_service_def)
  have a: "fst (saveInstagramMedia vercel_env keyed_store vercel_service (Some ?f)
          ''u1'' ''reel'' ''video'' uuid0 fresh_world)
     = Inr (blob_host @ ''/instagram-media/reel/u1/3f2b8c1e-7a4d-4e9b-8c6f-1d2e3f4a5b6c'')"
    by (simp add: saveInstagramMedia_remote[OF on_store] uploadToBlob_eq after_put_def keyed_store_def
          key_layout_def plainExtension_def extname_def uuid0_def)
  have b: "calls (snd (saveInstagramMedia vercel_env keyed_store vercel_service (Some ?f)
          ''u1'' ''reel'' ''video'' uuid0 fresh_world))
     = [PutCall ''instagram-media/reel/u1/3f2b8c1e-7a4d-4e9b-8c6f-1d2e3f4a5b6c'' [0x00, 0x01]
          \<lparr>access = Public, contentType = ''video/mp4''\<rparr>]"
    by (simp add: saveInstagramMedia_remote[OF on_store] uploadToBlob_eq after_put_def keyed_store_def
          key_layout_def plainExtension_def extname_def uuid0_def public_read_def fresh_world_def)
  have c: "\<not> suffix ''.mp4'' (blob_host @ ''/instagram-media/reel/u1/3f2b8c1e-7a4d-4e9b-8c6f-1d2e3f4a5b6c'')"
    by (simp add: suffix_to_prefix blob_host_def)
  have d: "fst (saveProfileImage local_env keyed_store local_service
          (Some \<lparr>originalname = ''avatar'', mimetype = ''image/jpeg'', buffer = [0xFF, 0xD8]\<rparr>)
          ''u1'' uuid0 fresh_world)
     = Inr ''profile-images/u1/3f2b8c1e-7a4d-4e9b-8c6f-1d2e3f4a5b6c''"
    by (simp add: saveProfileImage_local writeLocal_eq eval_defs)
  show ?thesis
    using a b c d by (intro conjI)
qed

subsection \<open>The constructor\<close>

lemma ensureDirectoryExists_eq:
  "ensureDirectoryExists d w =
     (if existsSync (fs w) d then (Inr (), w)
      else (case mkdirSync d (fs w) of Inl e \<Rightarrow> (Inl e, w) | Inr fs1 \<Rightarrow> (Inr (), w\<lparr>fs := fs1\<rparr>)))"
  by (simp add: ensureDirectoryExists_def io_defs split: sum.splits)

lemma mkdirSync_ok:
  "mkdirSync d fs0 = Inr fs1 \<Longrightarrow>
     files fs1 = files fs0 \<and> dirs fs0 \<subseteq> dirs fs1 \<and> d \<in> dirs fs1"
  by (auto simp: mkdirSync_def split: if_splits)

lemma mkdirSync_succeeds: "no_file_on_path fs0 d \<Longrightarrow> \<exists>fs1. mkdirSync d fs0 = Inr fs1"
  by (simp add: mkdirSync_def no_file_on_path_def list_ex_iff)

lemma ensure_ok:
  assumes "ensureDirectoryExists d w = (Inr (), w')"
  shows "files (fs w') = files (fs w)" and "dirs (fs w) \<subseteq> dirs (fs w')"
    and "existsSync (fs w') d" and "files (fs w) d = None \<Longrightarrow> d \<in> dirs (fs w')"
    and "blob w' = blob w" and "calls w' = calls w"
proof -
  have "w' = w \<and> existsSync (fs w) d
      \<or> (\<exists>fs1. mkdirSync d (fs w) = Inr fs1 \<and> w' = w\<lparr>fs := fs1\<rparr>)"
    using assms by (auto simp: ensureDirectoryExists_eq split: if_splits sum.splits)
  then have "files (fs w') = files (fs w) \<and> dirs (fs w) \<subseteq> dirs (fs w')
      \<and> existsSync (fs w') d \<and> (files (fs w) d = None \<longrightarrow> d \<in> dirs (fs w'))
      \<and> blob w' = blob w \<and> calls w' = calls w"
  proof (elim disjE conjE exE)
    fix fs1
    assume "mkdirSync d (fs w) = Inr fs1" and "w' = w\<lparr>fs := fs1\<rparr>"
    then show ?thesis
      using mkdirSync_ok[of d "fs w" fs1] by (simp add: existsSync_def)
  qed (auto simp: existsSync_def)
  then show "files (fs w') = files (fs w)" and "dirs (fs w) \<subseteq> dirs (fs w')"
    and "existsSync (fs w') d" and "files (fs w) d = None \<Longrightarrow> d \<in> dirs (fs w')"
    and "blob w' = blob w" and "calls w' = calls w"
    by simp_all
qed

lemma ensure_present: "existsSync (fs w) d \<Longrightarrow> ensureDirectoryExists d w = (Inr (), w)"
  by (simp add: ensureDirectoryExists_eq)

lemma ensure_succeeds:
  "no_file_on_path (fs w) d \<Longrightarrow> \<exists>w'. ensureDirectoryExists d w = (Inr (), w')"
  using mkdirSync_succeeds[of "fs w" d]
  by (auto simp: ensureDirectoryExists_eq)

lemma no_file_on_path_cong: "files fs1 = files fs0 \<Longrightarrow> no_file_on_path fs1 d = no_file_on_path fs0 d"
  by (simp add: no_file_on_path_def)

lemma exists_mono:
  "files fs1 = files fs0 \<Longrightarrow> dirs fs0 \<subseteq> dirs fs1 \<Longrightarrow> existsSync fs0 d \<Longrightarrow> existsSync fs1 d"
  by (auto simp: existsSync_def)

lemma constructor_eq:
  "constructor env =
     (if env_VERCEL env = Some ''1'' then returnE (service_of env)
      else bindE (ensureDirectoryExists (uploadDir (service_of env))) (\<lambda>_.
           bindE (ensureDirectoryExists (propertyImagesDir (service_of env))) (\<lambda>_.
           bindE (ensureDirectoryExists (profileImagesDir (service_of env))) (\<lambda>_.
           returnE (service_of env)))))"
  by (simp add: constructor_def service_of_def Let_def)

lemma constructor_local:
  assumes "env_VERCEL env \<noteq> Some ''1''" and "constructor env w = (Inr this, w')"
  shows "\<exists>w1 w2. this = service_of env
      \<and> ensureDirectoryExists (uploadDir (service_of env)) w = (Inr (), w1)
      \<and> ensureDirectoryExists (propertyImagesDir (service_of env)) w1 = (Inr (), w2)
      \<and> ensureDirectoryExists (profileImagesDir (service_of env)) w2 = (Inr (), w')"
  using assms
  by (auto simp: constructor_eq bindE_def returnE_def split: prod.splits sum.splits)


lemma deleteFromBlob_fs: "fs (snd (deleteFromBlob B r w)) = fs w"
  by (simp add: deleteFromBlob_def io_defs Let_def split: prod.splits sum.splits option.splits)

lemma deleteAsset_remote_fs: "isVercel this \<Longrightarrow> fs (snd (deleteAsset cat env B this ref w)) = fs w"
proof (cases "ref = None \<or> ref = Some []")
  case True
  then show ?thesis by (auto simp: deleteAsset_def io_defs)
next
  case False
  then obtain r where r: "ref = Some r" "r \<noteq> []" by auto
  assume "isVercel this"
  then show ?thesis
    using deleteFromBlob_fs[of B r w] r
    by (cases "deleteFromBlob B r w") (auto simp: deleteAsset_remote split: sum.splits)
qed

lemma after_put_fs: "fs (snd (after_put B key f w)) = fs w"
  by (simp add: after_put_def)

lemma tryCatch_rethrow_fun: "tryCatch m (\<lambda>error. throwE error) = m"
  by (rule ext) (simp add: tryCatch_def throwE_def split: prod.splits sum.splits)

lemma save_remote_fs:
  assumes "isVercel this"
  shows "fs (snd (saveProfileImage env B this file ownerId uuid w)) = fs w"
    and "fs (snd (savePropertyImage env B this file ownerId mediaType uuid w)) = fs w"
    and "fs (snd (saveInstagramMedia env B this file ownerId mediaType fileType uuid w)) = fs w"
  using assms
  by (cases "file"; simp add: saveProfileImage_def savePropertyImage_def saveInstagramMedia_def
        tryCatch_rethrow_fun throwE_def uploadToBlob_eq after_put_fs Let_def)+

lemma ensure_bound:
  "ensureDirectoryExists d w = (Inr (), w') \<Longrightarrow>
     dirs (fs w') \<subseteq> dirs (fs w) \<union> insert d (set (path_prefixes d))"
  by (auto simp: ensureDirectoryExists_eq mkdirSync_def split: if_splits sum.splits)

lemma tidy_simps:
  "tidy []"
  "tidy (x # xs) = (clean x \<and> CHR ''/'' \<notin> set x \<and> tidy xs)"
  "tidy (xs @ ys) = (tidy xs \<and> tidy ys)"
  "tidy (rev xs) = tidy xs"
  unfolding tidy_def by auto

lemma tidy_take: "tidy xs \<Longrightarrow> tidy (take k xs)"
  unfolding tidy_def by (meson in_set_takeD)

lemma normalize_child:
  assumes "absolute a" and "clean x" and "CHR ''/'' \<notin> set x"
  shows "normalize (a @ CHR ''/'' # x) = abs_path (rev (nsegs a) @ [x])"
proof -
  let ?p = "a @ CHR ''/'' # x"
  have x: "x \<noteq> []" using assms(2) by (simp add: clean_def)
  have p: "?p \<noteq> []" "hd ?p = CHR ''/''"
    using assms(1) by (simp_all add: absolute_def)
  have "nsegs ?p = norm_step False x (nsegs a)"
    using assms(3) by (simp add: nsegs_append split_slash_def split_on_free)
  then have segs: "nsegs ?p = x # nsegs a"
    using assms(2) by (simp add: norm_step_clean)
  have "last ?p = last x" using x by simp
  moreover have "last x \<in> set x" using x by simp
  ultimately have lst: "last ?p \<noteq> CHR ''/''" using assms(3) by metis
  show ?thesis
    using normalize_abs[OF p] segs lst by (simp add: abs_path_def)
qed

lemma split_abs_path:
  assumes "tidy L"
  shows "split_slash (abs_path L) = [] # (if L = [] then [[]] else L)"
proof (cases "L = []")
  case True
  then show ?thesis by (simp add: abs_path_def split_slash_def)
next
  case False
  have "\<forall>s\<in>set L. CHR ''/'' \<notin> set s"
    using assms unfolding tidy_def by simp
  then have "split_on (CHR ''/'') (join_slash L) = L"
    using False by (intro split_on_join)
  then show ?thesis
    using False by (simp add: abs_path_def split_slash_def)
qed

lemma nsegs_abs_path: "tidy L \<Longrightarrow> nsegs (abs_path L) = rev L"
proof -
  assume t: "tidy L"
  have cl: "\<forall>s\<in>set L. clean s" using t unfolding tidy_def by simp
  show ?thesis
    unfolding nsegs_def split_abs_path[OF t]
    using fold_norm_clean[OF cl, of "[]"] by (simp add: norm_step_skip)
qed

lemma segments_abs_path: "tidy L \<Longrightarrow> segments (abs_path L) = L"
proof -
  assume t: "tidy L"
  have "\<forall>s\<in>set L. s \<noteq> []" using t unfolding tidy_def clean_def by simp
  then have "filter (\<lambda>s. s \<noteq> []) L = L"
    by (simp add: filter_id_conv)
  then show ?thesis
    unfolding segments_def split_abs_path[OF t] by simp
qed

lemma abs_path_inj:
  assumes "tidy L" and "tidy M" and "abs_path L = abs_path M"
  shows "L = M"
proof -
  have "L = segments (abs_path L)" using assms(1) by (simp add: segments_abs_path)
  also have "\<dots> = segments (abs_path M)" using assms(3) by simp
  also have "\<dots> = M" using assms(2) by (simp add: segments_abs_path)
  finally show ?thesis .
qed

lemma absolute_abs_path: "absolute (abs_path L)"
  by (simp add: absolute_def abs_path_def)

lemma not_above:
  assumes "tidy (L @ [x])" and "tidy (L @ [y])" and "x \<noteq> y"
  shows "abs_path (L @ [x]) \<notin> insert (abs_path L) (set (path_prefixes (abs_path L)))"
    and "abs_path (L @ [x]) \<notin> insert (abs_path (L @ [y])) (set (path_prefixes (abs_path (L @ [y]))))"
proof -
  have L: "tidy L" using assms(1) by (simp add: tidy_simps)
  have differs: "abs_path (L @ [x]) \<noteq> abs_path (take k M)"
    if "tidy M" and "M = L \<or> M = L @ [y]" for k M
  proof
    assume "abs_path (L @ [x]) = abs_path (take k M)"
    then have eq: "L @ [x] = take k M"
      using assms(1) tidy_take[OF that(1)] by (intro abs_path_inj)
    show False
    proof (cases "M = L")
      case True
      have "length (L @ [x]) = length (take k L)" using eq True by simp
      then show False by simp
    next
      case False
      then have M: "M = L @ [y]" using that(2) by simp
      have "length (L @ [x]) = length (take k (L @ [y]))" using eq M by simp
      then have "take k (L @ [y]) = L @ [y]" by simp
      then show False using eq M assms(3) by simp
    qed
  qed
  have shape: "\<exists>k. z = abs_path (take k M)"
    if "tidy M" and "z \<in> insert (abs_path M) (set (path_prefixes (abs_path M)))" for z M
  proof (cases "z = abs_path M")
    case True
    then have "z = abs_path (take (length M) M)" by simp
    then show ?thesis by (rule exI)
  next
    case False
    then have "z \<in> set (path_prefixes (abs_path M))" using that(2) by simp
    then show ?thesis
      unfolding path_prefixes_def segments_abs_path[OF that(1)] by (auto simp del: upt_Suc)
  qed
  show "abs_path (L @ [x]) \<notin> insert (abs_path L) (set (path_prefixes (abs_path L)))"
  proof
    assume "abs_path (L @ [x]) \<in> insert (abs_path L) (set (path_prefixes (abs_path L)))"
    then obtain k where "abs_path (L @ [x]) = abs_path (take k L)"
      using shape[OF L] by blast
    with differs[OF L disjI1[OF refl], of k] show False ..
  qed
  show "abs_path (L @ [x]) \<notin> insert (abs_path (L @ [y])) (set (path_prefixes (abs_path (L @ [y]))))"
  proof
    assume "abs_path (L @ [x]) \<in> insert (abs_path (L @ [y])) (set (path_prefixes (abs_path (L @ [y]))))"
    then obtain k where "abs_path (L @ [x]) = abs_path (take k (L @ [y]))"
      using shape[OF assms(2)] by blast
    with differs[OF assms(2) disjI2[OF refl], of k] show False ..
  qed
qed

lemma service_dirs:
  assumes "absolute (cwd env)"
  shows "\<exists>L. tidy L
     \<and> uploadDir (service_of env) = abs_path L
     \<and> propertyImagesDir (service_of env) = abs_path (L @ [''property-images''])
     \<and> profileImagesDir (service_of env) = abs_path (L @ [''profile-images''])
     \<and> join [uploadDir (service_of env), ''instagram-media''] = abs_path (L @ [''instagram-media''])"
proof -
  let ?L = "rev (nsegs (cwd env)) @ [''uploads'']"
  have c: "cwd env \<noteq> []" using assms by (simp add: absolute_def)
  have names: "clean ''uploads''" "clean ''property-images''" "clean ''profile-images''"
    "clean ''instagram-media''"
    by (simp_all add: clean_def)
  have t: "tidy ?L"
    using nsegs_clean[of "cwd env"] names(1) by (simp add: tidy_simps)
  have u: "join [cwd env, ''uploads''] = abs_path ?L"
    using normalize_child[OF assms names(1)] c by (simp add: join_def)
  have child: "join [abs_path ?L, x] = abs_path (?L @ [x])" if "clean x" "CHR ''/'' \<notin> set x" for x
  proof -
    have "x \<noteq> []" using that(1) by (simp add: clean_def)
    then have "join [abs_path ?L, x] = normalize (abs_path ?L @ CHR ''/'' # x)"
      by (simp add: join_def abs_path_def)
    also have "\<dots> = abs_path (rev (nsegs (abs_path ?L)) @ [x])"
      using absolute_abs_path that by (rule normalize_child)
    finally show ?thesis
      by (simp only: nsegs_abs_path[OF t] rev_rev_ident)
  qed
  show ?thesis
    using t u child[OF names(2)] child[OF names(3)] child[OF names(4)]
    by (intro exI[of _ ?L]) (simp add: service_of_def)
qed

text \<open>
  Claim C9, as amended. When the variable \<open>VERCEL\<close> of the environment is \<open>1\<close>, the
  constructor selects the blob store and leaves the world as it is, and no operation of a
  service on the blob store changes the filesystem. Otherwise the constructor selects the
  local filesystem and makes sure of the upload root and of the two category directories
  it knows, \<open>property-images\<close> and \<open>profile-images\<close>: after it has returned, each of the
  three exists, as a directory when no regular file was in its place; regular files, the
  blob store and the directories that were there are as before; a path that exists already
  is left alone without error, so that running the constructor again changes nothing. It
  succeeds whenever no regular file lies on the way to the three directories. It creates
  nothing else: a directory that is there afterwards was there before, or is one of the
  three, or lies above one of them. The directory of the third category,
  \<open>instagram-media\<close>, is not among them: when the working directory is an absolute path,
  something exists at its path after the construction only if it existed there before.
\<close>

theorem backend_selection_and_directories:
  "(env_VERCEL env = Some ''1'' \<longrightarrow>
      constructor env w = (Inr (service_of env), w) \<and> isVercel (service_of env))
   \<and> (isVercel this \<longrightarrow>
        fs (snd (saveProfileImage env B this file ownerId uuid w)) = fs w
      \<and> fs (snd (savePropertyImage env B this file ownerId mediaType uuid w)) = fs w
      \<and> fs (snd (saveInstagramMedia env B this file ownerId mediaType fileType uuid w)) = fs w
      \<and> fs (snd (deleteProfileImage env B this ref w)) = fs w
      \<and> fs (snd (deletePropertyImage env B this ref w)) = fs w
      \<and> fs (snd (deleteInstagramMedia env B this ref w)) = fs w)
   \<and> (env_VERCEL env \<noteq> Some ''1'' \<and> constructor env w = (Inr this, w') \<longrightarrow>
        this = service_of env \<and> \<not> isVercel this
      \<and> files (fs w') = files (fs w) \<and> dirs (fs w) \<subseteq> dirs (fs w')
      \<and> blob w' = blob w \<and> calls w' = calls w
      \<and> (\<forall>d\<in>{uploadDir this, propertyImagesDir this, profileImagesDir this}.
            existsSync (fs w') d \<and> (files (fs w) d = None \<longrightarrow> d \<in> dirs (fs w')))
      \<and> constructor env w' = (Inr this, w'))
   \<and> (env_VERCEL env \<noteq> Some ''1''
        \<and> (\<forall>d\<in>{uploadDir (service_of env), propertyImagesDir (service_of env),
                 profileImagesDir (service_of env)}. existsSync (fs w) d) \<longrightarrow>
        constructor env w = (Inr (service_of env), w))
   \<and> (env_VERCEL env \<noteq> Some ''1''
        \<and> (\<forall>d\<in>{uploadDir (service_of env), propertyImagesDir (service_of env),
                 profileImagesDir (service_of env)}. no_file_on_path (fs w) d) \<longrightarrow>
        (\<exists>w1. constructor env w = (Inr (service_of env), w1)))
   \<and> (env_VERCEL env \<noteq> Some ''1'' \<and> constructor env w = (Inr this, w') \<longrightarrow>
        dirs (fs w') \<subseteq> dirs (fs w)
          \<union> (\<Union>d\<in>{uploadDir this, propertyImagesDir this, profileImagesDir this}.
                insert d (set (path_prefixes d))))
   \<and> (env_VERCEL env \<noteq> Some ''1'' \<and> absolute (cwd env) \<and> constructor env w = (Inr this, w') \<longrightarrow>
        existsSync (fs w') (join [uploadDir this, ''instagram-media''])
          = existsSync (fs w) (join [uploadDir this, ''instagram-media'']))"
proof -
  let ?u = "uploadDir (service_of env)"
  let ?p = "propertyImagesDir (service_of env)"
  let ?q = "profileImagesDir (service_of env)"
  have present: "constructor env v = (Inr (service_of env), v)"
    if "env_VERCEL env \<noteq> Some ''1''" "existsSync (fs v) ?u" "existsSync (fs v) ?p" "existsSync (fs v) ?q"
    for v :: "'a world"
    using that by (simp add: constructor_eq bindE_def returnE_def ensure_present)
  have managed: "env_VERCEL env = Some ''1'' \<longrightarrow>
      constructor env w = (Inr (service_of env), w) \<and> isVercel (service_of env)"
    by (simp add: constructor_eq returnE_def service_of_def)
  have untouched: "isVercel this \<longrightarrow>
        fs (snd (saveProfileImage env B this file ownerId uuid w)) = fs w
      \<and> fs (snd (savePropertyImage env B this file ownerId mediaType uuid w)) = fs w
      \<and> fs (snd (saveInstagramMedia env B this file ownerId mediaType fileType uuid w)) = fs w
      \<and> fs (snd (deleteProfileImage env B this ref w)) = fs w
      \<and> fs (snd (deletePropertyImage env B this ref w)) = fs w
      \<and> fs (snd (deleteInstagramMedia env B this ref w)) = fs w"
    by (simp add: save_remote_fs deleteAsset_remote_fs delete_defs)
  have created: "this = service_of env \<and> \<not> isVercel this
      \<and> files (fs w') = files (fs w) \<and> dirs (fs w) \<subseteq> dirs (fs w')
      \<and> blob w' = blob w \<and> calls w' = calls w
      \<and> (\<forall>d\<in>{uploadDir this, propertyImagesDir this, profileImagesDir this}.
            existsSync (fs w') d \<and> (files (fs w) d = None \<longrightarrow> d \<in> dirs (fs w')))
      \<and> constructor env w' = (Inr this, w')"
    if local_env: "env_VERCEL env \<noteq> Some ''1''" and built: "constructor env w = (Inr this, w')"
  proof -
    obtain w1 w2 where svc: "this = service_of env"
      and e1: "ensureDirectoryExists ?u w = (Inr (), w1)"
      and e2: "ensureDirectoryExists ?p w1 = (Inr (), w2)"
      and e3: "ensureDirectoryExists ?q w2 = (Inr (), w')"
      using constructor_local[OF local_env built] by blast
    note a = ensure_ok[OF e1] and b = ensure_ok[OF e2] and c = ensure_ok[OF e3]
    have f: "files (fs w') = files (fs w)" "files (fs w2) = files (fs w)" "files (fs w1) = files (fs w)"
      using a(1) b(1) c(1) by simp_all
    have d: "dirs (fs w) \<subseteq> dirs (fs w')" "dirs (fs w1) \<subseteq> dirs (fs w')" "dirs (fs w2) \<subseteq> dirs (fs w')"
      using a(2) b(2) c(2) by blast+
    have xu: "existsSync (fs w') ?u"
      using exists_mono[OF _ d(2) a(3)] f by simp
    have xp: "existsSync (fs w') ?p"
      using exists_mono[OF _ d(3) b(3)] f by simp
    have xq: "existsSync (fs w') ?q"
      using c(3) .
    have du: "files (fs w) ?u = None \<longrightarrow> ?u \<in> dirs (fs w')"
      using a(4) d(2) by blast
    have dp: "files (fs w) ?p = None \<longrightarrow> ?p \<in> dirs (fs w')"
      using b(4) d(3) f by auto
    have dq: "files (fs w) ?q = None \<longrightarrow> ?q \<in> dirs (fs w')"
      using c(4) f by auto
    have again: "constructor env w' = (Inr (service_of env), w')"
      using present[OF local_env xu xp xq] .
    have "\<not> isVercel (service_of env)"
      using local_env by (simp add: service_of_def)
    then show ?thesis
      using svc f(1) d(1) a(5,6) b(5,6) c(5,6) xu xp xq du dp dq again by simp
  qed
  have kept: "env_VERCEL env \<noteq> Some ''1'' \<and> (\<forall>d\<in>{?u, ?p, ?q}. existsSync (fs w) d) \<longrightarrow>
        constructor env w = (Inr (service_of env), w)"
    using present[of w] by simp
  have succeeds: "\<exists>w1. constructor env w = (Inr (service_of env), w1)"
    if local_env: "env_VERCEL env \<noteq> Some ''1''" and free: "\<forall>d\<in>{?u, ?p, ?q}. no_file_on_path (fs w) d"
  proof -
    obtain w1 where e1: "ensureDirectoryExists ?u w = (Inr (), w1)"
      using ensure_succeeds[of w ?u] free by auto
    have "no_file_on_path (fs w1) ?p"
      using free no_file_on_path_cong[OF ensure_ok(1)[OF e1]] by simp
    then obtain w2 where e2: "ensureDirectoryExists ?p w1 = (Inr (), w2)"
      using ensure_succeeds by blast
    have "no_file_on_path (fs w2) ?q"
      using free no_file_on_path_cong[OF ensure_ok(1)[OF e2]] no_file_on_path_cong[OF ensure_ok(1)[OF e1]]
      by simp
    then obtain w3 where e3: "ensureDirectoryExists ?q w2 = (Inr (), w3)"
      using ensure_succeeds by blast
    show ?thesis
      using local_env e1 e2 e3 by (simp add: constructor_eq bindE_def returnE_def)
  qed
  have nothing_else: "dirs (fs w') \<subseteq> dirs (fs w)
          \<union> (\<Union>d\<in>{uploadDir this, propertyImagesDir this, profileImagesDir this}.
                insert d (set (path_prefixes d)))"
    if local_env: "env_VERCEL env \<noteq> Some ''1''" and built: "constructor env w = (Inr this, w')"
  proof -
    obtain w1 w2 where svc: "this = service_of env"
      and e1: "ensureDirectoryExists ?u w = (Inr (), w1)"
      and e2: "ensureDirectoryExists ?p w1 = (Inr (), w2)"
      and e3: "ensureDirectoryExists ?q w2 = (Inr (), w')"
      using constructor_local[OF local_env built] by blast
    show ?thesis
      unfolding svc using ensure_bound[OF e1] ensure_bound[OF e2] ensure_bound[OF e3] by auto
  qed
  have first: "(env_VERCEL env = Some ''1'' \<longrightarrow>
      constructor env w = (Inr (service_of env), w) \<and> isVercel (service_of env))
   \<and> (isVercel this \<longrightarrow>
        fs (snd (saveProfileImage env B this file ownerId uuid w)) = fs w
      \<and> fs (snd (savePropertyImage env B this file ownerId mediaType uuid w)) = fs w
      \<and> fs (snd (saveInstagramMedia env B this file ownerId mediaType fileType uuid w)) = fs w
      \<and> fs (snd (deleteProfileImage env B this ref w)) = fs w
      \<and> fs (snd (deletePropertyImage env B this ref w)) = fs w
      \<and> fs (snd (deleteInstagramMedia env B this ref w)) = fs w)
   \<and> (env_VERCEL env \<noteq> Some ''1'' \<and> constructor env w = (Inr this, w') \<longrightarrow>
        this = service_of env \<and> \<not> isVercel this
      \<and> files (fs w') = files (fs w) \<and> dirs (fs w) \<subseteq> dirs (fs w')
      \<and> blob w' = blob w \<and> calls w' = calls w
      \<and> (\<forall>d\<in>{uploadDir this, propertyImagesDir this, profileImagesDir this}.
            existsSync (fs w') d \<and> (files (fs w) d = None \<longrightarrow> d \<in> dirs (fs w')))
      \<and> constructor env w' = (Inr this, w'))
   \<and> (env_VERCEL env \<noteq> Some ''1''
        \<and> (\<forall>d\<in>{uploadDir (service_of env), propertyImagesDir (service_of env),
                 profileImagesDir (service_of env)}. existsSync (fs w) d) \<longrightarrow>
        constructor env w = (Inr (service_of env), w))
   \<and> (env_VERCEL env \<noteq> Some ''1''
        \<and> (\<forall>d\<in>{uploadDir (service_of env), propertyImagesDir (service_of env),
                 profileImagesDir (service_of env)}. no_file_on_path (fs w) d) \<longrightarrow>
        (\<exists>w1. constructor env w = (Inr (service_of env), w1)))"
    using managed untouched created kept succeeds by (intro conjI impI) blast+
  have last: "env_VERCEL env \<noteq> Some ''1'' \<and> constructor env w = (Inr this, w') \<longrightarrow>
        dirs (fs w') \<subseteq> dirs (fs w)
          \<union> (\<Union>d\<in>{uploadDir this, propertyImagesDir this, profileImagesDir this}.
                insert d (set (path_prefixes d)))"
    by (intro impI, elim conjE) (rule nothing_else)
  have third: "existsSync (fs w') (join [uploadDir this, ''instagram-media''])
          = existsSync (fs w) (join [uploadDir this, ''instagram-media''])"
    if local_env: "env_VERCEL env \<noteq> Some ''1''" and rooted: "absolute (cwd env)"
      and built: "constructor env w = (Inr this, w')"
  proof -
    have svc: "this = service_of env"
      using constructor_local[OF local_env built] by blast
    obtain L where L: "tidy L" and u: "uploadDir this = abs_path L"
      and p: "propertyImagesDir this = abs_path (L @ [''property-images''])"
      and q: "profileImagesDir this = abs_path (L @ [''profile-images''])"
      and i: "join [uploadDir this, ''instagram-media''] = abs_path (L @ [''instagram-media''])"
      unfolding svc using service_dirs[OF rooted] by blast
    have names: "clean ''property-images''" "clean ''profile-images''" "clean ''instagram-media''"
      by (simp_all add: clean_def)
    have t: "tidy (L @ [''instagram-media''])" "tidy (L @ [''property-images''])"
      "tidy (L @ [''profile-images''])"
      using L names by (simp_all add: tidy_simps)
    have "abs_path (L @ [''instagram-media''])
        \<notin> (\<Union>d\<in>{uploadDir this, propertyImagesDir this, profileImagesDir this}.
              insert d (set (path_prefixes d)))"
      unfolding u p q
      using not_above(1)[OF t(1) t(2)] not_above(2)[OF t(1) t(2)] not_above(2)[OF t(1) t(3)]
      by simp
    then have "abs_path (L @ [''instagram-media'']) \<in> dirs (fs w')
        \<longleftrightarrow> abs_path (L @ [''instagram-media'']) \<in> dirs (fs w)"
      using nothing_else[OF local_env built] created[OF local_env built] by blast
    moreover have "files (fs w') = files (fs w)"
      using created[OF local_env built] by simp
    ultimately show ?thesis
      unfolding i by (simp add: existsSync_def)
  qed
  have not_made: "env_VERCEL env \<noteq> Some ''1'' \<and> absolute (cwd env) \<and> constructor env w = (Inr this, w') \<longrightarrow>
        existsSync (fs w') (join [uploadDir this, ''instagram-media''])
          = existsSync (fs w) (join [uploadDir this, ''instagram-media''])"
    by (intro impI, elim conjE) (rule third)
  show ?thesis
    using first last not_made by (elim conjE, intro conjI)
qed


theorem backend_selection_and_directories_witness:
  "constructor vercel_env bare_world = (Inr vercel_service, bare_world)
   \<and> fst (constructor local_env bare_world) = Inr local_service
   \<and> ''/app/uploads/profile-images'' \<in> dirs (fs (snd (constructor local_env bare_world)))
   \<and> constructor local_env (snd (constructor local_env bare_world))
       = (Inr local_service, snd (constructor local_env bare_world))
   \<and> dirs (fs (snd (constructor local_env bare_world)))
       \<subseteq> {''/'', ''/app'', ''/app/uploads'', ''/app/uploads/property-images'',
           ''/app/uploads/profile-images''}
   \<and> \<not> existsSync (fs (snd (constructor local_env bare_world)))
         (join [uploadDir local_service, ''instagram-media''])"
proof -
  note claim = backend_selection_and_directories
  let ?w = "snd (constructor local_env bare_world) :: blob_store world"
  have managed: "env_VERCEL vercel_env = Some ''1''" and unmanaged: "env_VERCEL local_env \<noteq> Some ''1''"
    by (simp_all add: vercel_env_def local_env_def)
  have sv: "service_of vercel_env = vercel_service" and sl: "service_of local_env = local_service"
    by (simp_all add: service_of_def eval_defs)
  have first: "fst (constructor local_env (bare_world :: blob_store world)) = Inr local_service"
    by (simp add: constructor_eq ensureDirectoryExists_eq bindE_def returnE_def service_of_def
          bare_world_def eval_defs)
  then have built: "constructor local_env bare_world = (Inr local_service, ?w)"
    by (simp add: prod_eq_iff)
  have no_file: "files (fs (bare_world :: blob_store world)) (profileImagesDir local_service) = None"
    by (simp add: bare_world_def)
  note made = claim [THEN conjunct2, THEN conjunct2, THEN conjunct1, rule_format, OF conjI, OF unmanaged built]
  have "profileImagesDir local_service \<in> dirs (fs ?w)"
    using made no_file by simp
  then have "''/app/uploads/profile-images'' \<in> dirs (fs ?w)"
    by (simp add: local_service_def)
  moreover have "constructor local_env ?w = (Inr local_service, ?w)"
    using made by simp
  moreover have "constructor vercel_env bare_world = (Inr vercel_service, bare_world :: blob_store world)"
    using claim [where env = vercel_env and w = bare_world, THEN conjunct1, rule_format, OF managed,
        THEN conjunct1] sv by simp
  moreover have "dirs (fs ?w)
       \<subseteq> {''/'', ''/app'', ''/app/uploads'', ''/app/uploads/property-images'',
           ''/app/uploads/profile-images''}"
  proof -
    have above: "set (path_prefixes ''/app/uploads'') = {''/'', ''/app'', ''/app/uploads''}"
      "set (path_prefixes ''/app/uploads/property-images'')
         = {''/'', ''/app'', ''/app/uploads'', ''/app/uploads/property-images''}"
      "set (path_prefixes ''/app/uploads/profile-images'')
         = {''/'', ''/app'', ''/app/uploads'', ''/app/uploads/profile-images''}"
      by (simp_all add: path_prefixes_def segments_def abs_path_def split_slash_def upt_rec)
    have "dirs (fs ?w) \<subseteq> dirs (fs (bare_world :: blob_store world))
          \<union> (\<Union>d\<in>{uploadDir local_service, propertyImagesDir local_service,
                     profileImagesDir local_service}. insert d (set (path_prefixes d)))"
      using claim [THEN conjunct2, THEN conjunct2, THEN conjunct2, THEN conjunct2, THEN conjunct2,
          THEN conjunct1, rule_format, OF conjI, OF unmanaged built] .
    also have "\<dots> \<subseteq> {''/'', ''/app'', ''/app/uploads'', ''/app/uploads/property-images'',
           ''/app/uploads/profile-images''}"
      by (simp add: local_service_def bare_world_def above)
    finally show ?thesis .
  qed
  moreover have "\<not> existsSync (fs ?w) (join [uploadDir local_service, ''instagram-media''])"
  proof -
    have rooted: "absolute (cwd local_env)"
      by (simp add: local_env_def absolute_def)
    have "\<not> existsSync (fs (bare_world :: blob_store world)) (join [uploadDir local_service, ''instagram-media''])"
      by (simp add: bare_world_def eval_defs)
    then show ?thesis
      unfolding claim [THEN conjunct2, THEN conjunct2, THEN conjunct2, THEN conjunct2, THEN conjunct2,
          THEN conjunct2, rule_format, OF conjI, OF unmanaged conjI, OF rooted built] .
  qed
  ultimately show ?thesis using first by (intro conjI)
qed

text \<open>
  Claim C9 as it is stated fails for the third category. The constructor, run on the local
  filesystem in a world that holds the working directory only, creates the upload root and
  the directories of property images and of profile images; nothing exists afterwards at
  the path of the directory of Instagram media.
\<close>

theorem instagram_directory_counterexample:
  "env_VERCEL local_env \<noteq> Some ''1''
   \<and> fst (constructor local_env bare_world) = Inr local_service
   \<and> fs (snd (constructor local_env bare_world))
     = \<lparr>files = Map.empty,
        dirs = {''/'', ''/app'', ''/app/uploads'', ''/app/uploads/property-images'',
                ''/app/uploads/profile-images''}\<rparr>
   \<and> join [uploadDir local_service, ''instagram-media''] = ''/app/uploads/instagram-media''
   \<and> \<not> existsSync (fs (snd (constructor local_env bare_world))) ''/app/uploads/instagram-media''"
proof -
  have a: "env_VERCEL local_env \<noteq> Some ''1''"
    by (simp add: local_env_def)
  have b: "fst (constructor local_env (bare_world :: blob_store world)) = Inr local_service"
    by (simp add: constructor_eq ensureDirectoryExists_eq bindE_def returnE_def service_of_def
          bare_world_def eval_defs)
  have c: "fs (snd (constructor local_env (bare_world :: blob_store world)))
     = \<lparr>files = Map.empty,
        dirs = {''/'', ''/app'', ''/app/uploads'', ''/app/uploads/property-images'',
                ''/app/uploads/profile-images''}\<rparr>"
    by (simp add: constructor_eq ensureDirectoryExists_eq bindE_def returnE_def service_of_def
          bare_world_def eval_defs insert_commute)
  have d: "join [uploadDir local_service, ''instagram-media''] = ''/app/uploads/instagram-media''"
    by (simp add: eval_defs)
  have e: "\<not> existsSync (fs (snd (constructor local_env (bare_world :: blob_store world))))
      ''/app/uploads/instagram-media''"
    unfolding c by (simp add: existsSync_def)
  show ?thesis
    using a b c d e by (intro conjI)
qed

subsection \<open>Save, then delete\<close>

lemma absolute_append: "absolute p \<Longrightarrow> absolute (p @ q)"
  by (simp add: absolute_def)

lemma normalize_nested_abs:
  "absolute p \<Longrightarrow> f \<noteq> [] \<Longrightarrow> normalize (normalize p @ CHR ''/'' # f) = normalize (p @ CHR ''/'' # f)"
  using normalize_nested[of p f] by (simp add: absolute_def)

lemma normalize_double_slash_abs:
  "absolute p \<Longrightarrow> f \<noteq> [] \<Longrightarrow> normalize (p @ CHR ''/'' # CHR ''/'' # f) = normalize (p @ CHR ''/'' # f)"
  using normalize_double_slash[of p f] by (simp add: absolute_def)

text \<open>The file that a save writes is the file that a delete of the returned path looks for.\<close>

lemma owner_path_agrees:
  assumes "absolute c" and "cat \<noteq> []" and "fn \<noteq> []"
  shows "join [join [c, ''uploads'', cat, u], fn] = join [c, ''uploads/'' @ cat @ ''/'' @ u @ ''/'' @ fn]"
proof -
  have c: "c \<noteq> []" using assms(1) by (simp add: absolute_def)
  let ?p = "c @ ''/uploads/'' @ cat"
  have p: "absolute ?p" using assms(1) by (rule absolute_append)
  show ?thesis
  proof (cases "u = []")
    case True
    have "join [join [c, ''uploads'', cat, u], fn] = normalize (normalize ?p @ CHR ''/'' # fn)"
      using True c assms(2,3) by (simp add: join_def normalize_nonempty)
    also have "\<dots> = normalize (?p @ CHR ''/'' # fn)"
      using p assms(3) by (rule normalize_nested_abs)
    also have "\<dots> = normalize (?p @ CHR ''/'' # CHR ''/'' # fn)"
      using p assms(3) by (rule normalize_double_slash_abs[symmetric])
    also have "\<dots> = join [c, ''uploads/'' @ cat @ ''/'' @ u @ ''/'' @ fn]"
      using True c by (simp add: join_def)
    finally show ?thesis .
  next
    case False
    let ?q = "?p @ CHR ''/'' # u"
    have q: "absolute ?q" using p by (rule absolute_append)
    have "join [join [c, ''uploads'', cat, u], fn] = normalize (normalize ?q @ CHR ''/'' # fn)"
      using False c assms(2,3) by (simp add: join_def normalize_nonempty)
    also have "\<dots> = normalize (?q @ CHR ''/'' # fn)"
      using q assms(3) by (rule normalize_nested_abs)
    also have "\<dots> = join [c, ''uploads/'' @ cat @ ''/'' @ u @ ''/'' @ fn]"
      using c by (simp add: join_def)
    finally show ?thesis .
  qed
qed


lemma media_path_agrees:
  assumes "absolute c" and "fn \<noteq> []"
  shows "join [join [c, ''uploads'', ''instagram-media'', m, u], fn]
       = join [c, ''uploads/instagram-media/'' @ m @ ''/'' @ u @ ''/'' @ fn]"
proof (cases "m = []")
  case True
  have c: "c \<noteq> []" using assms(1) by (simp add: absolute_def)
  let ?p = "c @ ''/uploads/instagram-media''"
  have p: "absolute ?p" using assms(1) by (rule absolute_append)
  have "join [join [c, ''uploads'', ''instagram-media'', m, u], fn]
      = join [join [c, ''uploads'', ''instagram-media'', u], fn]"
    using True by (simp add: join_def)
  also have "\<dots> = join [c, ''uploads/'' @ ''instagram-media'' @ ''/'' @ u @ ''/'' @ fn]"
    using assms by (intro owner_path_agrees) simp_all
  also have "\<dots> = normalize (?p @ CHR ''/'' # (u @ ''/'' @ fn))"
    using c by (simp add: join_def)
  also have "\<dots> = normalize (?p @ CHR ''/'' # CHR ''/'' # (u @ ''/'' @ fn))"
    using p by (intro normalize_double_slash_abs[symmetric]) simp_all
  also have "\<dots> = join [c, ''uploads/instagram-media/'' @ m @ ''/'' @ u @ ''/'' @ fn]"
    using True c by (simp add: join_def)
  finally show ?thesis .
next
  case False
  have "join [c, ''uploads'', ''instagram-media'', m, u] = join [c, ''uploads'', ''instagram-media/'' @ m, u]"
    using False by (simp add: join_def)
  then have "join [join [c, ''uploads'', ''instagram-media'', m, u], fn]
      = join [join [c, ''uploads'', ''instagram-media/'' @ m, u], fn]"
    by simp
  also have "\<dots> = join [c, ''uploads/'' @ (''instagram-media/'' @ m) @ ''/'' @ u @ ''/'' @ fn]"
    using assms by (intro owner_path_agrees) simp_all
  finally show ?thesis by simp
qed

lemma localPathOf_returned:
  "localPathOf env ''profile-images'' (key_layout ''profile-images'' None u i e)
     = Inr (''uploads/'' @ key_layout ''profile-images'' None u i e)"
  "localPathOf env ''property-images'' (key_layout ''property-images'' None u i e)
     = Inr (''uploads/'' @ key_layout ''property-images'' None u i e)"
  "localPathOf env ''instagram-media'' (key_layout ''instagram-media'' (Some m) u i e)
     = Inr (''uploads/'' @ key_layout ''instagram-media'' (Some m) u i e)"
  by (simp_all add: localPathOf_def startsWith_def key_layout_def)

lemma deleteAsset_local:
  "\<not> isVercel this \<Longrightarrow> r \<noteq> [] \<Longrightarrow> deleteAsset cat env B this (Some r) w =
     (case deleteFromDisk env cat r w of (Inl e, w') \<Rightarrow> (Inr False, w') | (Inr b, w') \<Rightarrow> (Inr b, w'))"
  by (simp add: deleteAsset_def io_defs split: prod.splits sum.splits)

lemma delete_present:
  assumes "\<not> isVercel this" and "r \<noteq> []" and "localPathOf env cat r = Inr lp"
    and "files (fs w) (join [cwd env, lp]) \<noteq> None"
  shows "deleteAsset cat env B this (Some r) w =
     (Inr True, w\<lparr>fs := (fs w)\<lparr>files := (files (fs w))(join [cwd env, lp] := None)\<rparr>\<rparr>)"
  using assms
  by (simp add: deleteAsset_local deleteFromDisk_def existsSync_def unlinkSync_def io_defs Let_def)

lemma no_line_break_simps [simp]:
  "no_line_break []"
  "no_line_break (c # s) = (\<not> line_break c \<and> no_line_break s)"
  "no_line_break (a @ b) = (no_line_break a \<and> no_line_break b)"
  by (simp_all add: no_line_break_def)

lemma no_line_break_set: "no_line_break s = (\<forall>c\<in>set s. \<not> line_break c)"
  by (simp add: no_line_break_def list_ex_iff)

lemma is_uuid_facts:
  assumes "is_uuid u"
  shows "u \<noteq> [] \<and> no_line_break u"
proof -
  have hex: "\<not> line_break c" if "c \<in> set ''0123456789abcdef-''" for c
    using that by (auto simp: line_break_def)
  have "\<forall>c\<in>set u. c \<in> set ''0123456789abcdef-''"
    using assms unfolding is_uuid_def list_all_iff by (rule conjunct2)
  then have "no_line_break u"
    unfolding no_line_break_set using hex by blast
  moreover have "length u = 36"
    using assms unfolding is_uuid_def by (rule conjunct1)
  then have "u \<noteq> []"
    by (cases u) simp_all
  ultimately show ?thesis by (rule conjI[rotated])
qed

lemma store_key_url: "store_key (blob_host @ CHR ''/'' # key) = key"
  by (simp add: store_key_def)

lemma delete_local_eval:
  assumes "\<not> isVercel this" and "r \<noteq> []" and "localPathOf env cat r = Inr lp"
  shows "deleteAsset cat env B this (Some r) w =
     (if files (fs w) (join [cwd env, lp]) \<noteq> None then
        (Inr True, w\<lparr>fs := (fs w)\<lparr>files := (files (fs w))(join [cwd env, lp] := None)\<rparr>\<rparr>)
      else if join [cwd env, lp] \<in> dirs (fs w) then (Inr False, w)
      else (case tryAlternatives (alternativePaths env cat lp) w of
              (Inl e, w') \<Rightarrow> (Inr False, w')
            | (Inr b, w') \<Rightarrow> (Inr b, w')))"
  using assms
  by (simp add: deleteAsset_local deleteFromDisk_def existsSync_def unlinkSync_def io_defs Let_def)

lemma tryAlternatives_unlink_first:
  "(case tryAlternatives ps w of
      (Inl e, w') \<Rightarrow> (Inr False :: error + bool, w')
    | (Inr b, w') \<Rightarrow> (Inr b, w'))
     = (case unlink_first ps w of (b, w') \<Rightarrow> (Inr b, w'))"
  by (induction ps) (simp_all add: io_defs split: sum.splits)

lemma delete_local_unlink_first:
  assumes "\<not> isVercel this" and "r \<noteq> []" and "localPathOf env cat r = Inr lp"
  shows "deleteAsset cat env B this (Some r) w =
     (case unlink_first (join [cwd env, lp] # alternativePaths env cat lp) w of (b, w') \<Rightarrow> (Inr b, w'))"
  using tryAlternatives_unlink_first[of "alternativePaths env cat lp" w]
  by (simp add: delete_local_eval[OF assms] existsSync_def unlinkSync_def)


lemma join_slash_snoc: "join_slash (xs @ [x]) = (if xs = [] then x else join_slash xs @ CHR ''/'' # x)"
  by (induction xs rule: join_slash.induct) simp_all

lemma normalize_ends:
  assumes "absolute a" and "clean fn" and "CHR ''/'' \<notin> set fn"
  shows "suffix fn (normalize (a @ CHR ''/'' # fn))"
proof -
  let ?p = "a @ CHR ''/'' # fn"
  have fn: "fn \<noteq> []" using assms(2) by (simp add: clean_def)
  have p: "?p \<noteq> []" "hd ?p = CHR ''/''"
    using assms(1) by (simp_all add: absolute_def)
  have "nsegs ?p = norm_step False fn (nsegs a)"
    using assms(3) by (simp add: nsegs_append split_slash_def split_on_free)
  then have segs: "nsegs ?p = fn # nsegs a"
    using assms(2) by (simp add: norm_step_clean)
  have "last ?p = last fn" using fn by simp
  moreover have "last fn \<in> set fn" using fn by simp
  ultimately have lst: "last ?p \<noteq> CHR ''/''" using assms(3) by metis
  have "normalize ?p = CHR ''/'' # join_slash (rev (nsegs a) @ [fn])"
    using normalize_abs[OF p] segs lst by simp
  then show ?thesis
    by (simp add: join_slash_snoc suffix_def)
qed

lemma suffix_after_slash:
  assumes "CHR ''/'' \<notin> set fn" and "suffix fn (a @ CHR ''/'' # k)"
  shows "suffix fn k"
proof (cases "length fn \<le> length k")
  case True
  have "suffix k (a @ CHR ''/'' # k)"
    by (metis append.assoc append_Cons append_Nil suffixI)
  then show ?thesis
    using assms(2) True by (intro suffix_length_suffix[of fn "a @ CHR ''/'' # k" k])
next
  case False
  have "suffix (CHR ''/'' # k) (a @ CHR ''/'' # k)"
    by (rule suffixI) simp
  then have "suffix (CHR ''/'' # k) fn"
    using assms(2) False by (intro suffix_length_suffix[of "CHR ''/'' # k" "a @ CHR ''/'' # k" fn]) simp_all
  then have "CHR ''/'' \<in> set fn"
    by (auto simp: suffix_def)
  then show ?thesis using assms(1) by simp
qed

lemma unlink_first_none:
  "\<forall>p\<in>set ps. files (fs w) p = None \<Longrightarrow> unlink_first ps w = (False, w)"
  by (induction ps) (simp_all add: existsSync_def unlinkSync_def)

lemma local_write_files:
  "local_write dir fn buf fs0 = Inr fs2 \<Longrightarrow> files fs2 = (files fs0)(join [dir, fn] \<mapsto> buf)"
  by (auto simp: local_write_def mkdirSync_def writeStream_def split: sum.splits if_splits)

lemma extname_no_slash: "CHR ''/'' \<notin> set (extname p)"
proof -
  let ?rbase = "takeWhile (\<lambda>c. c \<noteq> CHR ''/'') (dropWhile (\<lambda>c. c = CHR ''/'') (rev p))"
  have a: "CHR ''/'' \<notin> set ?rbase"
    by (metis (mono_tags, lifting) set_takeWhileD)
  have b: "set (takeWhile (\<lambda>c. c \<noteq> CHR ''.'') ?rbase) \<subseteq> set ?rbase"
    using set_takeWhileD by fastforce
  show ?thesis
    using a b unfolding extname_def Let_def by auto
qed

lemma uuid_name:
  assumes "is_uuid u" and "CHR ''/'' \<notin> set e"
  shows "clean (u @ e) \<and> CHR ''/'' \<notin> set (u @ e)"
proof -
  have "\<forall>c\<in>set u. c \<in> set ''0123456789abcdef-''"
    using assms(1) unfolding is_uuid_def list_all_iff by (rule conjunct2)
  then have "CHR ''/'' \<notin> set u" by auto
  moreover have len: "length u = 36"
    using assms(1) unfolding is_uuid_def by (rule conjunct1)
  have "length (u @ e) \<ge> 36" using len by simp
  then have "clean (u @ e)"
    unfolding clean_def by (auto simp del: length_append)
  ultimately show ?thesis using assms(2) by simp
qed


lemma last_split_slash:
  "CHR ''/'' \<notin> set fn \<Longrightarrow> last (split_slash (x @ CHR ''/'' # fn)) = fn"
  by (simp add: split_slash_def split_on_append split_on_free)

lemma candidates_end:
  assumes "absolute (cwd env)" and "cat \<noteq> []" and "clean fn" and "CHR ''/'' \<notin> set fn"
  shows "\<forall>p\<in>set (join [cwd env, x @ CHR ''/'' # fn] # alternativePaths env cat (x @ CHR ''/'' # fn)).
           suffix fn p"
proof -
  let ?c = "cwd env"
  have c: "?c \<noteq> []" using assms(1) by (simp add: absolute_def)
  have fn: "fn \<noteq> []" using assms(3) by (simp add: clean_def)
  have ends: "suffix fn (normalize ((?c @ y) @ CHR ''/'' # fn))" for y
    using absolute_append[OF assms(1)] assms(3,4) by (rule normalize_ends)
  have "join [?c, x @ CHR ''/'' # fn] = normalize ((?c @ CHR ''/'' # x) @ CHR ''/'' # fn)"
    using c by (simp add: join_def)
  then have primary: "suffix fn (join [?c, x @ CHR ''/'' # fn])"
    using ends[of "CHR ''/'' # x"] by simp
  have "join [?c, ''uploads'', x @ CHR ''/'' # fn]
      = normalize ((?c @ ''/uploads/'' @ x) @ CHR ''/'' # fn)"
    using c by (simp add: join_def)
  then have first: "suffix fn (join [?c, ''uploads'', x @ CHR ''/'' # fn])"
    using ends[of "''/uploads/'' @ x"] by simp
  have "join [?c, ''uploads'', cat, last (split_slash (x @ CHR ''/'' # fn))]
      = normalize ((?c @ ''/uploads/'' @ cat) @ CHR ''/'' # fn)"
    using c fn assms(2,4) by (simp add: join_def last_split_slash)
  then have third: "suffix fn (join [?c, ''uploads'', cat, last (split_slash (x @ CHR ''/'' # fn))])"
    using ends[of "''/uploads/'' @ cat"] by simp
  show ?thesis
    using primary first third by (simp add: alternativePaths_def)
qed

text \<open>A save on the local filesystem, then two deletes of the returned path.\<close>

lemma local_twice:
  assumes "\<not> isVercel this" and "absolute (cwd env)" and "cat \<noteq> []"
    and "clean fn \<and> CHR ''/'' \<notin> set fn"
    and "rel = x @ CHR ''/'' # fn"
    and "writeLocal dir fn rel f w = (Inr ref, w1)"
    and "localPathOf env cat rel = Inr (''uploads/'' @ rel)"
    and "join [dir, fn] = join [cwd env, ''uploads/'' @ rel]"
  shows "fst (deleteAsset cat env B this (Some ref) w1) = Inr True
     \<and> (fresh fn (files (fs w)) \<longrightarrow>
          deleteAsset cat env B this (Some ref) w1 = (Inr True, w1\<lparr>fs := (fs w1)\<lparr>files := files (fs w)\<rparr>\<rparr>)
        \<and> deleteAsset cat env B this (Some ref) (w1\<lparr>fs := (fs w1)\<lparr>files := files (fs w)\<rparr>\<rparr>)
            = (Inr False, w1\<lparr>fs := (fs w1)\<lparr>files := files (fs w)\<rparr>\<rparr>))"
proof -
  let ?p = "join [cwd env, ''uploads/'' @ rel]"
  let ?w2 = "w1\<lparr>fs := (fs w1)\<lparr>files := files (fs w)\<rparr>\<rparr>"
  have rel: "rel \<noteq> []" using assms(5) by simp
  have ref: "ref = rel" and written: "files (fs w1) = (files (fs w))(?p \<mapsto> buffer f)"
    using assms(6,8) by (auto simp: writeLocal_eq dest: local_write_files split: sum.splits)
  have first: "deleteAsset cat env B this (Some ref) w1
      = (Inr True, w1\<lparr>fs := (fs w1)\<lparr>files := (files (fs w1))(?p := None)\<rparr>\<rparr>)"
    unfolding ref using assms(1) rel assms(7) written
    by (intro delete_present) simp_all
  have ends: "\<forall>p\<in>set (?p # alternativePaths env cat (''uploads/'' @ rel)). suffix fn p"
    using candidates_end[OF assms(2,3) assms(4)[THEN conjunct1] assms(4)[THEN conjunct2],
        of "''uploads/'' @ x"]
    unfolding assms(5) by simp
  have twice: "deleteAsset cat env B this (Some ref) w1 = (Inr True, ?w2)
     \<and> deleteAsset cat env B this (Some ref) ?w2 = (Inr False, ?w2)"
    if new: "fresh fn (files (fs w))"
  proof
    have "files (fs w) ?p = None"
      using ends new by (simp add: fresh_def)
    then have "(files (fs w1))(?p := None) = files (fs w)"
      unfolding written by (simp add: fun_upd_idem)
    then show "deleteAsset cat env B this (Some ref) w1 = (Inr True, ?w2)"
      using first by simp
    have "\<forall>p\<in>set (?p # alternativePaths env cat (''uploads/'' @ rel)). files (fs ?w2) p = None"
      using ends new by (simp add: fresh_def)
    then have "unlink_first (?p # alternativePaths env cat (''uploads/'' @ rel)) ?w2 = (False, ?w2)"
      by (rule unlink_first_none)
    then show "deleteAsset cat env B this (Some ref) ?w2 = (Inr False, ?w2)"
      unfolding ref using delete_local_unlink_first[OF assms(1) rel assms(7), of B ?w2] by simp
  qed
  show ?thesis
    using first twice by simp
qed


lemma match_com_SomeD:
  "match_com s = Some k \<Longrightarrow> \<exists>a. s = a @ ''.com/'' @ k \<and> k \<noteq> [] \<and> no_line_break k"
proof (induction s)
  case Nil
  then show ?case by simp
next
  case (Cons c cs)
  show ?case
  proof (cases "prefix ''.com/'' (c # cs) \<and> drop 5 (c # cs) \<noteq> [] \<and> \<not> list_ex line_break (drop 5 (c # cs))")
    case True
    then have k: "k = drop 5 (c # cs)"
      using Cons.prems by (simp add: Let_def)
    obtain r where r: "c # cs = ''.com/'' @ r"
      using True by (auto simp: prefix_def)
    then have "drop 5 (c # cs) = r" by simp
    then show ?thesis
      using True k r by (intro exI[of _ "[]"]) (simp add: no_line_break_def)
  next
    case False
    then have "match_com cs = Some k"
      using Cons.prems by (auto simp add: Let_def split: if_splits)
    then obtain a where "cs = a @ ''.com/'' @ k \<and> k \<noteq> [] \<and> no_line_break k"
      using Cons.IH by blast
    then show ?thesis
      by (intro exI[of _ "c # a"]) simp
  qed
qed

lemma keyed_del:
  "api_del keyed_store k s =
     (if s (store_key k) \<noteq> None then (Inr (), s(store_key k := None))
      else (Inl (BlobError ''not found''), s))"
  by (simp add: keyed_store_def)

lemma keyed_absent:
  "\<forall>k\<in>set ks. blob w (store_key k) = None \<Longrightarrow>
     fst (try_dels keyed_store ks w) = False \<and> blob (snd (try_dels keyed_store ks w)) = blob w"
  by (induction ks arbitrary: w) (simp_all add: keyed_del)

lemma keyed_hit_true:
  "blob w (store_key u) \<noteq> None \<Longrightarrow> fst (try_dels keyed_store (pre @ [u]) w)"
  by (induction pre arbitrary: w) (simp_all add: keyed_del)

lemma keyed_hit_fresh:
  "blob w key \<noteq> None \<Longrightarrow> store_key u = key \<Longrightarrow>
   \<forall>k\<in>set pre. store_key k = key \<or> blob w (store_key k) = None \<Longrightarrow>
     blob (snd (try_dels keyed_store (pre @ [u]) w)) = (blob w)(key := None)"
  by (induction pre arbitrary: w) (auto simp: keyed_del)

lemma store_key_ends:
  assumes "CHR ''/'' \<notin> set fn" and "suffix fn k"
  shows "suffix fn (store_key k)"
proof (cases "prefix (blob_host @ ''/'') k")
  case False
  then show ?thesis using assms(2) by (simp add: store_key_def)
next
  case True
  then obtain r where r: "k = blob_host @ CHR ''/'' # r"
    by (auto simp: prefix_def)
  then have "store_key k = r"
    by (simp add: store_key_def)
  moreover have "suffix fn r"
    using assms unfolding r by (rule suffix_after_slash)
  ultimately show ?thesis by simp
qed

lemma remote_attempts_url:
  "startsWith url ''http'' \<Longrightarrow>
     remote_attempts url = (case match_com url of Some k \<Rightarrow> [k] | None \<Rightarrow> []) @ [url]"
  by (simp add: remote_attempts_def split: option.splits)

text \<open>An upload to the store, then two deletes of the returned URL.\<close>

lemma keyed_twice:
  assumes "isVercel this" and "after_put keyed_store key f v = (Inr url, v1)"
  shows "fst (deleteAsset cat env keyed_store this (Some url) v1) = Inr True
     \<and> (CHR ''/'' \<notin> set fn \<and> key = x @ CHR ''/'' # fn \<and> fresh fn (blob v) \<longrightarrow>
          blob (snd (deleteAsset cat env keyed_store this (Some url) v1)) = blob v
        \<and> fst (deleteAsset cat env keyed_store this (Some url)
                 (snd (deleteAsset cat env keyed_store this (Some url) v1))) = Inr False)"
proof -
  let ?D = "deleteAsset cat env keyed_store this (Some url)"
  let ?pre = "case match_com url of Some k \<Rightarrow> [k] | None \<Rightarrow> []"
  have url: "url = blob_host @ CHR ''/'' # key"
    and stored: "blob v1 = (blob v)(key \<mapsto> (buffer f, public_read f))"
    using assms(2) by (auto simp: after_put_def keyed_store_def)
  have http: "startsWith url ''http''"
    unfolding url by (simp add: startsWith_def blob_host_def)
  then have ne: "url \<noteq> []"
    by (auto simp: startsWith_def)
  have sk: "store_key url = key"
    unfolding url by (rule store_key_url)
  have D: "?D w = (case try_dels keyed_store (?pre @ [url]) w of (b, w') \<Rightarrow> (Inr b, w'))" for w
    using delete_remote_attempts[OF assms(1) ne] remote_attempts_url[OF http] by simp
  then have res: "fst (?D w) = Inr (fst (try_dels keyed_store (?pre @ [url]) w))"
    and world: "snd (?D w) = snd (try_dels keyed_store (?pre @ [url]) w)" for w
    by (simp_all add: split_beta)
  have first: "fst (?D v1) = Inr True"
    unfolding res using keyed_hit_true[of v1 url ?pre] sk stored by simp
  have twice: "blob (snd (?D v1)) = blob v \<and> fst (?D (snd (?D v1))) = Inr False"
    if h: "CHR ''/'' \<notin> set fn \<and> key = x @ CHR ''/'' # fn \<and> fresh fn (blob v)"
  proof
    have free: "CHR ''/'' \<notin> set fn" and key: "key = x @ CHR ''/'' # fn" and new: "fresh fn (blob v)"
      using h by simp_all
    have absent: "blob v (store_key k) = None" if "suffix fn k" for k
      using store_key_ends[OF free that] new by (simp add: fresh_def)
    have ends_url: "suffix fn url"
      unfolding url key by (simp add: suffix_def)
    have ends_pre: "suffix fn k" if "k \<in> set ?pre" for k
    proof -
      have "match_com url = Some k"
        using that by (cases "match_com url") simp_all
      then obtain a where "url = (a @ ''.com'') @ CHR ''/'' # k"
        using match_com_SomeD by fastforce
      then show ?thesis
        using free ends_url suffix_after_slash by metis
    qed
    have none: "blob v key = None"
      using absent[OF ends_url] sk by simp
    have "blob (snd (?D v1)) = (blob v1)(key := None)"
      unfolding world
    proof (rule keyed_hit_fresh)
      show "blob v1 key \<noteq> None" by (simp add: stored)
      show "store_key url = key" by (rule sk)
      show "\<forall>k\<in>set ?pre. store_key k = key \<or> blob v1 (store_key k) = None"
        using absent[OF ends_pre] by (simp add: stored)
    qed
    then show restored: "blob (snd (?D v1)) = blob v"
      using none by (simp add: stored fun_upd_idem)
    have "\<forall>k\<in>set (?pre @ [url]). blob (snd (?D v1)) (store_key k) = None"
      unfolding restored using absent ends_pre ends_url by auto
    then show "fst (?D (snd (?D v1))) = Inr False"
      unfolding res[of "snd (?D v1)"] using keyed_absent by blast
  qed
  show ?thesis
    using first twice by simp
qed


lemma key_layout_split:
  "key_layout cat sub u i e
     = (cat @ ''/'' @ (case sub of None \<Rightarrow> [] | Some k \<Rightarrow> k @ ''/'') @ u) @ CHR ''/'' # (i @ e)"
  by (simp add: key_layout_def)

lemma extension_no_slash:
  "CHR ''/'' \<notin> set (plainExtension f)"
  "CHR ''/'' \<notin> set (propertyLocalExtension f mediaType)"
  "CHR ''/'' \<notin> set (instagramLocalExtension f fileType)"
  using extname_no_slash[of "originalname f"]
  by (simp_all add: plainExtension_def propertyLocalExtension_def instagramLocalExtension_def)

lemmas path_defs = join_def normalize_def normalizeString_def split_slash_def norm_step_def

text \<open>
  Claim C1, as amended. For each of the three asset categories, a save that succeeds returns
  a reference that the matching delete accepts: the first delete returns true. On the local
  filesystem, when the name of the new file is fresh, the first delete removes the file
  that the save wrote, so that the regular files are those from before the save, and a
  second delete of the same reference returns false and changes nothing. On the blob
  store, for a store that addresses a blob by its key or its URL and reports an absent key
  as an error, and a fresh name, the first delete leaves the store as it was before the
  save and the second delete returns false.
\<close>

theorem save_then_delete_twice:
  "(\<not> isVercel this \<and> absolute (cwd env) \<and> is_uuid uuid \<longrightarrow>
      (saveProfileImage env B this (Some f) ownerId uuid w = (Inr ref, w1) \<longrightarrow>
         fst (deleteProfileImage env B this (Some ref) w1) = Inr True
       \<and> (fresh (uuid @ plainExtension f) (files (fs w)) \<longrightarrow>
            deleteProfileImage env B this (Some ref) w1 = (Inr True, restored w w1)
          \<and> deleteProfileImage env B this (Some ref) (restored w w1) = (Inr False, restored w w1)))
    \<and> (savePropertyImage env B this (Some f) ownerId mediaType uuid w = (Inr ref, w1) \<longrightarrow>
         fst (deletePropertyImage env B this (Some ref) w1) = Inr True
       \<and> (fresh (uuid @ propertyLocalExtension f mediaType) (files (fs w)) \<longrightarrow>
            deletePropertyImage env B this (Some ref) w1 = (Inr True, restored w w1)
          \<and> deletePropertyImage env B this (Some ref) (restored w w1) = (Inr False, restored w w1)))
    \<and> (saveInstagramMedia env B this (Some f) ownerId mediaType fileType uuid w = (Inr ref, w1) \<longrightarrow>
         fst (deleteInstagramMedia env B this (Some ref) w1) = Inr True
       \<and> (fresh (uuid @ instagramLocalExtension f fileType) (files (fs w)) \<longrightarrow>
            deleteInstagramMedia env B this (Some ref) w1 = (Inr True, restored w w1)
          \<and> deleteInstagramMedia env B this (Some ref) (restored w w1) = (Inr False, restored w w1))))
   \<and> (isVercel this \<longrightarrow>
      (saveProfileImage env keyed_store this (Some f) ownerId uuid v = (Inr url, v1) \<longrightarrow>
         fst (deleteProfileImage env keyed_store this (Some url) v1) = Inr True
       \<and> (is_uuid uuid \<and> fresh (uuid @ plainExtension f) (blob v) \<longrightarrow>
            blob (snd (deleteProfileImage env keyed_store this (Some url) v1)) = blob v
          \<and> fst (deleteProfileImage env keyed_store this (Some url)
                   (snd (deleteProfileImage env keyed_store this (Some url) v1))) = Inr False))
    \<and> (savePropertyImage env keyed_store this (Some f) ownerId mediaType uuid v = (Inr url, v1) \<longrightarrow>
         fst (deletePropertyImage env keyed_store this (Some url) v1) = Inr True
       \<and> (is_uuid uuid \<and> fresh (uuid @ plainExtension f) (blob v) \<longrightarrow>
            blob (snd (deletePropertyImage env keyed_store this (Some url) v1)) = blob v
          \<and> fst (deletePropertyImage env keyed_store this (Some url)
                   (snd (deletePropertyImage env keyed_store this (Some url) v1))) = Inr False))
    \<and> (saveInstagramMedia env keyed_store this (Some f) ownerId mediaType fileType uuid v = (Inr url, v1) \<longrightarrow>
         fst (deleteInstagramMedia env keyed_store this (Some url) v1) = Inr True
       \<and> (is_uuid uuid \<and> fresh (uuid @ plainExtension f) (blob v) \<longrightarrow>
            blob (snd (deleteInstagramMedia env keyed_store this (Some url) v1)) = blob v
          \<and> fst (deleteInstagramMedia env keyed_store this (Some url)
                   (snd (deleteInstagramMedia env keyed_store this (Some url) v1))) = Inr False)))"
proof -
  have disk: "fst (deleteAsset cat env B this (Some ref) w1) = Inr True
     \<and> (fresh (uuid @ ext) (files (fs w)) \<longrightarrow>
          deleteAsset cat env B this (Some ref) w1 = (Inr True, restored w w1)
        \<and> deleteAsset cat env B this (Some ref) (restored w w1) = (Inr False, restored w w1))"
    if "\<not> isVercel this" and "absolute (cwd env)" and "cat \<noteq> []"
      and "is_uuid uuid" and "CHR ''/'' \<notin> set ext"
      and "writeLocal dir (uuid @ ext) (key_layout cat sub ownerId uuid ext) f w = (Inr ref, w1)"
      and "localPathOf env cat (key_layout cat sub ownerId uuid ext)
             = Inr (''uploads/'' @ key_layout cat sub ownerId uuid ext)"
      and "join [dir, uuid @ ext] = join [cwd env, ''uploads/'' @ key_layout cat sub ownerId uuid ext]"
    for cat dir sub ext
    unfolding restored_def
    using that(1,2,3) uuid_name[OF that(4,5)] key_layout_split that(6,7,8)
    by (rule local_twice)
  have profile_disk: "fst (deleteProfileImage env B this (Some ref) w1) = Inr True
       \<and> (fresh (uuid @ plainExtension f) (files (fs w)) \<longrightarrow>
            deleteProfileImage env B this (Some ref) w1 = (Inr True, restored w w1)
          \<and> deleteProfileImage env B this (Some ref) (restored w w1) = (Inr False, restored w w1))"
    if "\<not> isVercel this" "absolute (cwd env)" "is_uuid uuid"
      and "saveProfileImage env B this (Some f) ownerId uuid w = (Inr ref, w1)"
    unfolding deleteProfileImage_def
  proof (rule disk)
    show "writeLocal (join [cwd env, ''uploads'', ''profile-images'', ownerId]) (uuid @ plainExtension f)
            (key_layout ''profile-images'' None ownerId uuid (plainExtension f)) f w = (Inr ref, w1)"
      using that(1,4) by (simp add: saveProfileImage_local)
    show "join [join [cwd env, ''uploads'', ''profile-images'', ownerId], uuid @ plainExtension f]
        = join [cwd env, ''uploads/'' @ key_layout ''profile-images'' None ownerId uuid (plainExtension f)]"
      using owner_path_agrees[OF that(2), of "''profile-images''" "uuid @ plainExtension f" ownerId]
        is_uuid_facts[OF that(3)]
      by (simp add: key_layout_def)
  qed (use that in \<open>simp_all add: localPathOf_returned extension_no_slash\<close>)
  have property_disk: "fst (deletePropertyImage env B this (Some ref) w1) = Inr True
       \<and> (fresh (uuid @ propertyLocalExtension f mediaType) (files (fs w)) \<longrightarrow>
            deletePropertyImage env B this (Some ref) w1 = (Inr True, restored w w1)
          \<and> deletePropertyImage env B this (Some ref) (restored w w1) = (Inr False, restored w w1))"
    if "\<not> isVercel this" "absolute (cwd env)" "is_uuid uuid"
      and "savePropertyImage env B this (Some f) ownerId mediaType uuid w = (Inr ref, w1)"
    unfolding deletePropertyImage_def
  proof (rule disk)
    show "writeLocal (join [cwd env, ''uploads'', ''property-images'', ownerId])
            (uuid @ propertyLocalExtension f mediaType)
            (key_layout ''property-images'' None ownerId uuid (propertyLocalExtension f mediaType)) f w
          = (Inr ref, w1)"
      using that(1,4) by (simp add: savePropertyImage_local)
    show "join [join [cwd env, ''uploads'', ''property-images'', ownerId], uuid @ propertyLocalExtension f mediaType]
        = join [cwd env, ''uploads/'' @ key_layout ''property-images'' None ownerId uuid
                  (propertyLocalExtension f mediaType)]"
      using owner_path_agrees[OF that(2), of "''property-images''"
          "uuid @ propertyLocalExtension f mediaType" ownerId]
        is_uuid_facts[OF that(3)]
      by (simp add: key_layout_def)
  qed (use that in \<open>simp_all add: localPathOf_returned extension_no_slash\<close>)
  have media_disk: "fst (deleteInstagramMedia env B this (Some ref) w1) = Inr True
       \<and> (fresh (uuid @ instagramLocalExtension f fileType) (files (fs w)) \<longrightarrow>
            deleteInstagramMedia env B this (Some ref) w1 = (Inr True, restored w w1)
          \<and> deleteInstagramMedia env B this (Some ref) (restored w w1) = (Inr False, restored w w1))"
    if "\<not> isVercel this" "absolute (cwd env)" "is_uuid uuid"
      and "saveInstagramMedia env B this (Some f) ownerId mediaType fileType uuid w = (Inr ref, w1)"
    unfolding deleteInstagramMedia_def
  proof (rule disk)
    show "writeLocal (join [cwd env, ''uploads'', ''instagram-media'', mediaType, ownerId])
            (uuid @ instagramLocalExtension f fileType)
            (key_layout ''instagram-media'' (Some mediaType) ownerId uuid (instagramLocalExtension f fileType)) f w
          = (Inr ref, w1)"
      using that(1,4) by (simp add: saveInstagramMedia_local)
    show "join [join [cwd env, ''uploads'', ''instagram-media'', mediaType, ownerId],
                uuid @ instagramLocalExtension f fileType]
        = join [cwd env, ''uploads/'' @ key_layout ''instagram-media'' (Some mediaType) ownerId uuid
                  (instagramLocalExtension f fileType)]"
      using media_path_agrees[OF that(2), of "uuid @ instagramLocalExtension f fileType" mediaType ownerId]
        is_uuid_facts[OF that(3)]
      by (simp add: key_layout_def)
  qed (use that in \<open>simp_all add: localPathOf_returned extension_no_slash\<close>)
  have store: "fst (deleteAsset cat env keyed_store this (Some url) v1) = Inr True
     \<and> (is_uuid uuid \<and> fresh (uuid @ plainExtension f) (blob v) \<longrightarrow>
          blob (snd (deleteAsset cat env keyed_store this (Some url) v1)) = blob v
        \<and> fst (deleteAsset cat env keyed_store this (Some url)
                 (snd (deleteAsset cat env keyed_store this (Some url) v1))) = Inr False)"
    if "isVercel this"
      and "after_put keyed_store (key_layout c sub ownerId uuid (plainExtension f)) f v = (Inr url, v1)"
    for cat c sub
    using keyed_twice[OF that, of cat env "uuid @ plainExtension f"
        "c @ ''/'' @ (case sub of None \<Rightarrow> [] | Some k \<Rightarrow> k @ ''/'') @ ownerId"]
      uuid_name[of uuid "plainExtension f"] extension_no_slash(1)[of f] key_layout_split
    by blast
  have on_store: "(saveProfileImage env keyed_store this (Some f) ownerId uuid v = (Inr url, v1) \<longrightarrow>
         fst (deleteProfileImage env keyed_store this (Some url) v1) = Inr True
       \<and> (is_uuid uuid \<and> fresh (uuid @ plainExtension f) (blob v) \<longrightarrow>
            blob (snd (deleteProfileImage env keyed_store this (Some url) v1)) = blob v
          \<and> fst (deleteProfileImage env keyed_store this (Some url)
                   (snd (deleteProfileImage env keyed_store this (Some url) v1))) = Inr False))
    \<and> (savePropertyImage env keyed_store this (Some f) ownerId mediaType uuid v = (Inr url, v1) \<longrightarrow>
         fst (deletePropertyImage env keyed_store this (Some url) v1) = Inr True
       \<and> (is_uuid uuid \<and> fresh (uuid @ plainExtension f) (blob v) \<longrightarrow>
            blob (snd (deletePropertyImage env keyed_store this (Some url) v1)) = blob v
          \<and> fst (deletePropertyImage env keyed_store this (Some url)
                   (snd (deletePropertyImage env keyed_store this (Some url) v1))) = Inr False))
    \<and> (saveInstagramMedia env keyed_store this (Some f) ownerId mediaType fileType uuid v = (Inr url, v1) \<longrightarrow>
         fst (deleteInstagramMedia env keyed_store this (Some url) v1) = Inr True
       \<and> (is_uuid uuid \<and> fresh (uuid @ plainExtension f) (blob v) \<longrightarrow>
            blob (snd (deleteInstagramMedia env keyed_store this (Some url) v1)) = blob v
          \<and> fst (deleteInstagramMedia env keyed_store this (Some url)
                   (snd (deleteInstagramMedia env keyed_store this (Some url) v1))) = Inr False))"
    if h: "isVercel this"
    unfolding delete_defs
  proof (intro conjI impI)
    assume "saveProfileImage env keyed_store this (Some f) ownerId uuid v = (Inr url, v1)"
    then have "after_put keyed_store (key_layout ''profile-images'' None ownerId uuid (plainExtension f)) f v
        = (Inr url, v1)"
      using h by (simp add: saveProfileImage_remote uploadToBlob_eq)
    note r = store[OF h this, of "''profile-images''"]
    show "fst (deleteAsset ''profile-images'' env keyed_store this (Some url) v1) = Inr True"
      using r by (rule conjunct1)
    show "blob (snd (deleteAsset ''profile-images'' env keyed_store this (Some url) v1)) = blob v"
      if "is_uuid uuid \<and> fresh (uuid @ plainExtension f) (blob v)"
      using r[THEN conjunct2, rule_format, OF that] by (rule conjunct1)
    show "fst (deleteAsset ''profile-images'' env keyed_store this (Some url)
                   (snd (deleteAsset ''profile-images'' env keyed_store this (Some url) v1))) = Inr False"
      if "is_uuid uuid \<and> fresh (uuid @ plainExtension f) (blob v)"
      using r[THEN conjunct2, rule_format, OF that] by (rule conjunct2)
  next
    assume "savePropertyImage env keyed_store this (Some f) ownerId mediaType uuid v = (Inr url, v1)"
    then have "after_put keyed_store (key_layout ''property-images'' None ownerId uuid (plainExtension f)) f v
        = (Inr url, v1)"
      using h by (simp add: savePropertyImage_remote uploadToBlob_eq)
    note r = store[OF h this, of "''property-images''"]
    show "fst (deleteAsset ''property-images'' env keyed_store this (Some url) v1) = Inr True"
      using r by (rule conjunct1)
    show "blob (snd (deleteAsset ''property-images'' env keyed_store this (Some url) v1)) = blob v"
      if "is_uuid uuid \<and> fresh (uuid @ plainExtension f) (blob v)"
      using r[THEN conjunct2, rule_format, OF that] by (rule conjunct1)
    show "fst (deleteAsset ''property-images'' env keyed_store this (Some url)
                   (snd (deleteAsset ''property-images'' env keyed_store this (Some url) v1))) = Inr False"
      if "is_uuid uuid \<and> fresh (uuid @ plainExtension f) (blob v)"
      using r[THEN conjunct2, rule_format, OF that] by (rule conjunct2)
  next
    assume "saveInstagramMedia env keyed_store this (Some f) ownerId mediaType fileType uuid v = (Inr url, v1)"
    then have "after_put keyed_store
          (key_layout ''instagram-media'' (Some mediaType) ownerId uuid (plainExtension f)) f v
        = (Inr url, v1)"
      using h by (simp add: saveInstagramMedia_remote uploadToBlob_eq)
    note r = store[OF h this, of "''instagram-media''"]
    show "fst (deleteAsset ''instagram-media'' env keyed_store this (Some url) v1) = Inr True"
      using r by (rule conjunct1)
    show "blob (snd (deleteAsset ''instagram-media'' env keyed_store this (Some url) v1)) = blob v"
      if "is_uuid uuid \<and> fresh (uuid @ plainExtension f) (blob v)"
      using r[THEN conjunct2, rule_format, OF that] by (rule conjunct1)
    show "fst (deleteAsset ''instagram-media'' env keyed_store this (Some url)
                   (snd (deleteAsset ''instagram-media'' env keyed_store this (Some url) v1))) = Inr False"
      if "is_uuid uuid \<and> fresh (uuid @ plainExtension f) (blob v)"
      using r[THEN conjunct2, rule_format, OF that] by (rule conjunct2)
  qed
  have on_disk: "\<not> isVercel this \<and> absolute (cwd env) \<and> is_uuid uuid \<longrightarrow>
      (saveProfileImage env B this (Some f) ownerId uuid w = (Inr ref, w1) \<longrightarrow>
         fst (deleteProfileImage env B this (Some ref) w1) = Inr True
       \<and> (fresh (uuid @ plainExtension f) (files (fs w)) \<longrightarrow>
            deleteProfileImage env B this (Some ref) w1 = (Inr True, restored w w1)
          \<and> deleteProfileImage env B this (Some ref) (restored w w1) = (Inr False, restored w w1)))
    \<and> (savePropertyImage env B this (Some f) ownerId mediaType uuid w = (Inr ref, w1) \<longrightarrow>
         fst (deletePropertyImage env B this (Some ref) w1) = Inr True
       \<and> (fresh (uuid @ propertyLocalExtension f mediaType) (files (fs w)) \<longrightarrow>
            deletePropertyImage env B this (Some ref) w1 = (Inr True, restored w w1)
          \<and> deletePropertyImage env B this (Some ref) (restored w w1) = (Inr False, restored w w1)))
    \<and> (saveInstagramMedia env B this (Some f) ownerId mediaType fileType uuid w = (Inr ref, w1) \<longrightarrow>
         fst (deleteInstagramMedia env B this (Some ref) w1) = Inr True
       \<and> (fresh (uuid @ instagramLocalExtension f fileType) (files (fs w)) \<longrightarrow>
            deleteInstagramMedia env B this (Some ref) w1 = (Inr True, restored w w1)
          \<and> deleteInstagramMedia env B this (Some ref) (restored w w1) = (Inr False, restored w w1)))"
  proof (rule impI, elim conjE)
    assume h: "\<not> isVercel this" "absolute (cwd env)" "is_uuid uuid"
    note a = impI[OF profile_disk[OF h]]
    note b = impI[OF property_disk[OF h]]
    note c = impI[OF media_disk[OF h]]
    show "(saveProfileImage env B this (Some f) ownerId uuid w = (Inr ref, w1) \<longrightarrow>
         fst (deleteProfileImage env B this (Some ref) w1) = Inr True
       \<and> (fresh (uuid @ plainExtension f) (files (fs w)) \<longrightarrow>
            deleteProfileImage env B this (Some ref) w1 = (Inr True, restored w w1)
          \<and> deleteProfileImage env B this (Some ref) (restored w w1) = (Inr False, restored w w1)))
    \<and> (savePropertyImage env B this (Some f) ownerId mediaType uuid w = (Inr ref, w1) \<longrightarrow>
         fst (deletePropertyImage env B this (Some ref) w1) = Inr True
       \<and> (fresh (uuid @ propertyLocalExtension f mediaType) (files (fs w)) \<longrightarrow>
            deletePropertyImage env B this (Some ref) w1 = (Inr True, restored w w1)
          \<and> deletePropertyImage env B this (Some ref) (restored w w1) = (Inr False, restored w w1)))
    \<and> (saveInstagramMedia env B this (Some f) ownerId mediaType fileType uuid w = (Inr ref, w1) \<longrightarrow>
         fst (deleteInstagramMedia env B this (Some ref) w1) = Inr True
       \<and> (fresh (uuid @ instagramLocalExtension f fileType) (files (fs w)) \<longrightarrow>
            deleteInstagramMedia env B this (Some ref) w1 = (Inr True, restored w w1)
          \<and> deleteInstagramMedia env B this (Some ref) (restored w w1) = (Inr False, restored w w1)))"
      by (rule conjI[OF a conjI[OF b c]])
  qed
  show ?thesis
    using on_disk on_store by (rule conjI[OF _ impI])
qed

theorem save_then_delete_twice_witness:
  "saveProfileImage local_env keyed_store local_service (Some jpeg_file) ''u1'' uuid0 fresh_world
     = (Inr ''profile-images/u1/3f2b8c1e-7a4d-4e9b-8c6f-1d2e3f4a5b6c.jpg'',
        snd (saveProfileImage local_env keyed_store local_service (Some jpeg_file) ''u1'' uuid0 fresh_world))
   \<and> deleteProfileImage local_env keyed_store local_service
        (Some ''profile-images/u1/3f2b8c1e-7a4d-4e9b-8c6f-1d2e3f4a5b6c.jpg'')
        (snd (saveProfileImage local_env keyed_store local_service (Some jpeg_file) ''u1'' uuid0 fresh_world))
     = (Inr True,
        restored fresh_world
          (snd (saveProfileImage local_env keyed_store local_service (Some jpeg_file) ''u1'' uuid0 fresh_world)))
   \<and> deleteProfileImage local_env keyed_store local_service
        (Some ''profile-images/u1/3f2b8c1e-7a4d-4e9b-8c6f-1d2e3f4a5b6c.jpg'')
        (restored fresh_world
          (snd (saveProfileImage local_env keyed_store local_service (Some jpeg_file) ''u1'' uuid0 fresh_world)))
     = (Inr False,
        restored fresh_world
          (snd (saveProfileImage local_env keyed_store local_service (Some jpeg_file) ''u1'' uuid0 fresh_world)))
   \<and> fst (saveProfileImage vercel_env keyed_store vercel_service (Some jpeg_file) ''u1'' uuid0 fresh_world)
       = Inr (blob_host @ ''/profile-images/u1/3f2b8c1e-7a4d-4e9b-8c6f-1d2e3f4a5b6c.jpg'')
   \<and> fst (deleteProfileImage vercel_env keyed_store vercel_service
             (Some (blob_host @ ''/profile-images/u1/3f2b8c1e-7a4d-4e9b-8c6f-1d2e3f4a5b6c.jpg''))
             (snd (saveProfileImage vercel_env keyed_store vercel_service (Some jpeg_file) ''u1'' uuid0
                     fresh_world)))
       = Inr True
   \<and> fst (deleteProfileImage vercel_env keyed_store vercel_service
             (Some (blob_host @ ''/profile-images/u1/3f2b8c1e-7a4d-4e9b-8c6f-1d2e3f4a5b6c.jpg''))
             (snd (deleteProfileImage vercel_env keyed_store vercel_service
                     (Some (blob_host @ ''/profile-images/u1/3f2b8c1e-7a4d-4e9b-8c6f-1d2e3f4a5b6c.jpg''))
                     (snd (saveProfileImage vercel_env keyed_store vercel_service (Some jpeg_file) ''u1'' uuid0
                             fresh_world)))))
       = Inr False"
proof -
  note claim = save_then_delete_twice
  let ?ref = "''profile-images/u1/3f2b8c1e-7a4d-4e9b-8c6f-1d2e3f4a5b6c.jpg''"
  let ?w1 = "snd (saveProfileImage local_env keyed_store local_service (Some jpeg_file) ''u1'' uuid0 fresh_world)"
  have pre: "\<not> isVercel local_service \<and> absolute (cwd local_env) \<and> is_uuid uuid0"
    by (simp add: local_service_def local_env_def absolute_def is_uuid_def uuid0_def)
  have "fst (saveProfileImage local_env keyed_store local_service (Some jpeg_file) ''u1'' uuid0 fresh_world)
      = Inr ?ref"
    by (simp add: saveProfileImage_local writeLocal_eq eval_defs)
  then have saved: "saveProfileImage local_env keyed_store local_service (Some jpeg_file) ''u1'' uuid0 fresh_world
      = (Inr ?ref, ?w1)"
    by (simp add: prod_eq_iff)
  have new_name: "fresh (uuid0 @ plainExtension jpeg_file) (files (fs fresh_world))"
    by (simp add: fresh_def fresh_world_def)
  note both = claim [THEN conjunct1, rule_format, OF pre, THEN conjunct1, rule_format, OF saved,
      THEN conjunct2, rule_format, OF new_name]
  let ?url = "blob_host @ ''/profile-images/u1/3f2b8c1e-7a4d-4e9b-8c6f-1d2e3f4a5b6c.jpg''"
  let ?v1 = "snd (saveProfileImage vercel_env keyed_store vercel_service (Some jpeg_file) ''u1'' uuid0 fresh_world)"
  have on_store: "isVercel vercel_service"
    by (simp add: vercel_service_def)
  have new_key: "is_uuid uuid0 \<and> fresh (uuid0 @ plainExtension jpeg_file) (blob fresh_world)"
    by (simp add: is_uuid_def uuid0_def fresh_def fresh_world_def)
  have uploaded: "fst (saveProfileImage vercel_env keyed_store vercel_service (Some jpeg_file) ''u1'' uuid0 fresh_world)
      = Inr ?url"
    by (simp add: saveProfileImage_remote[OF on_store] uploadToBlob_eq after_put_def keyed_store_def
          key_layout_def plainExtension_def extname_def jpeg_file_def uuid0_def)
  then have put: "saveProfileImage vercel_env keyed_store vercel_service (Some jpeg_file) ''u1'' uuid0 fresh_world
      = (Inr ?url, ?v1)"
    by (simp add: prod_eq_iff)
  note remote = claim [where mediaType = "''post''", THEN conjunct2, rule_format, OF on_store,
      THEN conjunct1, rule_format, OF put]
  note again = remote [THEN conjunct2, rule_format, OF new_key, THEN conjunct2]
  show ?thesis
    using saved both uploaded remote[THEN conjunct1] again by (intro conjI) simp_all
qed

text \<open>
  Claim C1 as it is stated fails on the blob store. There the result of a delete is true
  whenever \<open>del\<close> returns, and nothing looks whether the blob existed: with a store whose
  deletion of an absent key is not an error, the second delete of the URL that the save
  returned is true again.
\<close>

theorem second_delete_true_counterexample:
  "fst (saveProfileImage vercel_env lenient_store vercel_service (Some jpeg_file) ''u1'' uuid0 fresh_world)
     = Inr (blob_host @ ''/profile-images/u1/3f2b8c1e-7a4d-4e9b-8c6f-1d2e3f4a5b6c.jpg'')
   \<and> fst (deleteProfileImage vercel_env lenient_store vercel_service
         (Some (blob_host @ ''/profile-images/u1/3f2b8c1e-7a4d-4e9b-8c6f-1d2e3f4a5b6c.jpg''))
         (snd (saveProfileImage vercel_env lenient_store vercel_service (Some jpeg_file) ''u1'' uuid0
                 fresh_world)))
     = Inr True
   \<and> fst (deleteProfileImage vercel_env lenient_store vercel_service
         (Some (blob_host @ ''/profile-images/u1/3f2b8c1e-7a4d-4e9b-8c6f-1d2e3f4a5b6c.jpg''))
         (snd (deleteProfileImage vercel_env lenient_store vercel_service
                 (Some (blob_host @ ''/profile-images/u1/3f2b8c1e-7a4d-4e9b-8c6f-1d2e3f4a5b6c.jpg''))
                 (snd (saveProfileImage vercel_env lenient_store vercel_service (Some jpeg_file) ''u1'' uuid0
                         fresh_world)))))
     = Inr True"
proof -
  let ?key = "''profile-images/u1/3f2b8c1e-7a4d-4e9b-8c6f-1d2e3f4a5b6c.jpg''"
  let ?url = "blob_host @ CHR ''/'' # ?key"
  let ?D = "deleteProfileImage vercel_env lenient_store vercel_service (Some ?url)"
  let ?v1 = "after_put lenient_store ?key jpeg_file fresh_world"
  have on_store: "isVercel vercel_service"
    by (simp add: vercel_service_def)
  have save: "saveProfileImage vercel_env lenient_store vercel_service (Some jpeg_file) ''u1'' uuid0 fresh_world
      = ?v1"
    by (simp add: saveProfileImage_remote[OF on_store] uploadToBlob_eq key_layout_def plainExtension_def
          extname_def jpeg_file_def uuid0_def)
  have url: "fst ?v1 = Inr ?url"
    by (simp add: after_put_def lenient_store_def keyed_store_def)
  have http: "startsWith ?url ''http''"
    by (simp add: startsWith_def blob_host_def)
  have m: "match_com ?url = Some ?key"
    by (rule match_com_host) (simp_all add: line_break_def)
  have always: "fst (?D x) = Inr True" for x
    using deleteFromBlob_url[OF http m, where B = lenient_store and w = x
        and sa = "(blob x)(store_key ?key := None)", THEN conjunct1]
    by (simp add: deleteProfileImage_def deleteAsset_remote[OF on_store] lenient_store_def)
  show ?thesis
    using save url always by simp
qed

text \<open>
  Claim C3 against the code at \<open>deleteProfileImage('avatars/u1/a.jpg')\<close>. The file lies at
  the upload root followed by the reference as it was given, the first alternative that the
  claim names. The alternative paths of the code are built from the path that the
  normalisation has already rewritten: the first one doubles the upload root, the second
  one is the path that was just found absent, the third one keeps the base name only. None
  of them is the file, and the result is false with the file still there.
\<close>

theorem fallback_misses_original_input:
  "existsSync (fs legacy_world) (join [cwd local_env, ''uploads'', ''avatars/u1/a.jpg''])
   \<and> localPathOf local_env ''profile-images'' ''avatars/u1/a.jpg''
       = Inr ''uploads/profile-images/avatars/u1/a.jpg''
   \<and> join [cwd local_env, ''uploads/profile-images/avatars/u1/a.jpg'']
       = ''/app/uploads/profile-images/avatars/u1/a.jpg''
   \<and> alternativePaths local_env ''profile-images'' ''uploads/profile-images/avatars/u1/a.jpg''
       = [''/app/uploads/uploads/profile-images/avatars/u1/a.jpg'',
          ''/app/uploads/profile-images/avatars/u1/a.jpg'',
          ''/app/uploads/profile-images/a.jpg'']
   \<and> deleteProfileImage local_env keyed_store local_service (Some ''avatars/u1/a.jpg'') legacy_world
       = (Inr False, legacy_world)"
proof -
  let ?lp = "''uploads/profile-images/avatars/u1/a.jpg''"
  have on_disk: "\<not> isVercel local_service"
    by (simp add: local_service_def)
  have there: "existsSync (fs legacy_world) (join [cwd local_env, ''uploads'', ''avatars/u1/a.jpg''])"
    by (simp add: existsSync_def legacy_world_def local_env_def path_defs)
  have lp: "localPathOf local_env ''profile-images'' ''avatars/u1/a.jpg'' = Inr ?lp"
    by (simp add: localPathOf_def startsWith_def)
  have full: "join [cwd local_env, ?lp] = ''/app/uploads/profile-images/avatars/u1/a.jpg''"
    by (simp add: local_env_def path_defs)
  have alts: "alternativePaths local_env ''profile-images'' ?lp
       = [''/app/uploads/uploads/profile-images/avatars/u1/a.jpg'',
          ''/app/uploads/profile-images/avatars/u1/a.jpg'',
          ''/app/uploads/profile-images/a.jpg'']"
    by (simp add: alternativePaths_def local_env_def path_defs)
  have "deleteProfileImage local_env keyed_store local_service (Some ''avatars/u1/a.jpg'') legacy_world
       = (Inr False, legacy_world)"
    unfolding deleteProfileImage_def delete_local_eval[OF on_disk _ lp, where B = keyed_store, unfolded full alts, simplified]
    by (simp add: legacy_world_def fresh_world_def existsSync_def io_defs)
  then show ?thesis
    using there lp full alts by (intro conjI)
qed

theorem fallback_misses_original_input_witness:
  "files (fs legacy_world) ''/app/uploads/avatars/u1/a.jpg'' \<noteq> None
   \<and> fst (deleteProfileImage local_env keyed_store local_service (Some ''avatars/u1/a.jpg'') legacy_world)
       = Inr False
   \<and> files (fs (snd (deleteProfileImage local_env keyed_store local_service (Some ''avatars/u1/a.jpg'')
                       legacy_world))) ''/app/uploads/avatars/u1/a.jpg'' \<noteq> None"
  using fallback_misses_original_input by (simp add: legacy_world_def)

subsection \<open>Failures of the backends\<close>

lemma del_fails: "isl (fst (api_del B k (blob w))) \<Longrightarrow> \<exists>e w'. del B k w = (Inl e, w')"
  by (cases "api_del B k (blob w)"; cases "fst (api_del B k (blob w))") (auto simp: del_def)

lemma deleteFromBlob_all_fail:
  assumes "\<forall>k s. isl (fst (api_del B k s))"
  shows "fst (deleteFromBlob B r w) = Inr False"
proof -
  have fails: "\<exists>e w'. del B k v = (Inl e, w')" for k v
    using assms by (intro del_fails) simp
  have attempt: "fst (tryCatch (bindE (del B k) (\<lambda>_. returnE True)) (\<lambda>error. returnE False) v) = Inr False"
    for k v
    using fails[of k v] by (auto simp: tryCatch_def bindE_def returnE_def)
  show ?thesis
  proof (cases "startsWith r ''http''")
    case False
    then show ?thesis
      using attempt by (simp add: deleteFromBlob_def Let_def)
  next
    case True
    show ?thesis
    proof (cases "match_com r")
      case None
      then show ?thesis
        using True attempt[of r w] by (simp add: deleteFromBlob_def bindE_def returnE_def tryCatch_def)
    next
      case (Some k)
      obtain e w' where "del B k w = (Inl e, w')"
        using fails by blast
      moreover obtain e' w'' where "del B r w' = (Inl e', w'')"
        using fails by blast
      ultimately show ?thesis
        using True Some by (simp add: deleteFromBlob_def bindE_def returnE_def tryCatch_def)
    qed
  qed
qed

lemma delete_invalid_url:
  assumes "\<not> isVercel this" and "startsWith r ''http''" and "urlPathname env r = None"
  shows "deleteAsset cat env B this (Some r) w = (Inr False, w)"
proof -
  have "r \<noteq> []" using assms(2) by (auto simp: startsWith_def)
  moreover have "localPathOf env cat r = Inl InvalidURL"
    using assms(2,3) by (simp add: localPathOf_def)
  ultimately show ?thesis
    using assms(1) by (simp add: deleteAsset_local deleteFromDisk_def throwE_def)
qed

lemma delete_unlink_fails:
  assumes "\<not> isVercel this" and "r \<noteq> []" and "localPathOf env cat r = Inr lp"
    and "existsSync (fs w) (join [cwd env, lp])" and "unlinkSync (join [cwd env, lp]) (fs w) = Inl e"
  shows "deleteAsset cat env B this (Some r) w = (Inr False, w)"
  using assms by (simp add: deleteAsset_local deleteFromDisk_def io_defs Let_def)

text \<open>
  Claim C6. A delete operation never throws: whatever the reference, the backend and the
  world, its result is a boolean, and every failure on the way is the result false (each
  delete operation is \<open>deleteAsset\<close> at its category). On the local filesystem a
  reference that the URL parser rejects gives false; for any other reference the delete is
  the search \<open>unlink_first\<close> through the primary path and the alternative paths, in
  which an \<open>unlinkSync\<close> that throws, at the primary path or at an alternative one,
  gives false and leaves the world as it was. On the blob store the delete is the sequence
  \<open>try_dels\<close> of the attempts of the reference, in which a \<open>del\<close> that throws is
  followed by the next attempt and gives false after the last one; in particular a store
  whose every \<open>del\<close> throws gives false. A save operation passes the error of its
  backend on: on the blob store the error that \<open>put\<close> throws for the key of the asset, on
  the local filesystem the error of the creation of the directory or of the write.
\<close>

theorem delete_swallows_save_propagates:
  "(D = deletePropertyImage \<or> D = deleteProfileImage \<or> D = deleteInstagramMedia \<longrightarrow>
      (\<exists>b. fst (D env B this ref w) = Inr b)
    \<and> (\<not> isVercel this \<and> startsWith r ''http'' \<and> urlPathname env r = None
          \<longrightarrow> D env B this (Some r) w = (Inr False, w))
    \<and> (isVercel this \<and> r \<noteq> [] \<and> (\<forall>k s. isl (fst (api_del B k s)))
          \<longrightarrow> fst (D env B this (Some r) w) = Inr False))
   \<and> (\<not> isVercel this \<and> r \<noteq> [] \<and> localPathOf env category r = Inr localPath
        \<and> existsSync (fs w) (join [cwd env, localPath])
        \<and> unlinkSync (join [cwd env, localPath]) (fs w) = Inl e
        \<longrightarrow> deleteAsset category env B this (Some r) w = (Inr False, w))
   \<and> (((D = deletePropertyImage \<and> category = ''property-images'')
          \<or> (D = deleteProfileImage \<and> category = ''profile-images'')
          \<or> (D = deleteInstagramMedia \<and> category = ''instagram-media''))
        \<and> \<not> isVercel this \<and> r \<noteq> [] \<and> localPathOf env category r = Inr localPath
        \<longrightarrow> D env B this (Some r) w =
             (case unlink_first (join [cwd env, localPath] # alternativePaths env category localPath) w of
                (b, w') \<Rightarrow> (Inr b, w')))
   \<and> ((D = deletePropertyImage \<or> D = deleteProfileImage \<or> D = deleteInstagramMedia)
        \<and> isVercel this \<and> r \<noteq> []
        \<longrightarrow> D env B this (Some r) w =
             (case try_dels B (remote_attempts r) w of (b, w') \<Rightarrow> (Inr b, w')))
   \<and> (isVercel this \<longrightarrow>
        (fst (api_put B (key_layout ''profile-images'' None ownerId uuid (plainExtension f))
                (buffer f) (public_read f) (blob w)) = Inl e
           \<longrightarrow> fst (saveProfileImage env B this (Some f) ownerId uuid w) = Inl e)
      \<and> (fst (api_put B (key_layout ''property-images'' None ownerId uuid (plainExtension f))
                (buffer f) (public_read f) (blob w)) = Inl e
           \<longrightarrow> fst (savePropertyImage env B this (Some f) ownerId mediaType uuid w) = Inl e)
      \<and> (fst (api_put B (key_layout ''instagram-media'' (Some mediaType) ownerId uuid (plainExtension f))
                (buffer f) (public_read f) (blob w)) = Inl e
           \<longrightarrow> fst (saveInstagramMedia env B this (Some f) ownerId mediaType fileType uuid w) = Inl e))
   \<and> (\<not> isVercel this \<longrightarrow>
        (local_write (join [cwd env, ''uploads'', ''profile-images'', ownerId])
             (uuid @ plainExtension f) (buffer f) (fs w) = Inl e
           \<longrightarrow> fst (saveProfileImage env B this (Some f) ownerId uuid w) = Inl e)
      \<and> (local_write (join [cwd env, ''uploads'', ''property-images'', ownerId])
             (uuid @ propertyLocalExtension f mediaType) (buffer f) (fs w) = Inl e
           \<longrightarrow> fst (savePropertyImage env B this (Some f) ownerId mediaType uuid w) = Inl e)
      \<and> (local_write (join [cwd env, ''uploads'', ''instagram-media'', mediaType, ownerId])
             (uuid @ instagramLocalExtension f fileType) (buffer f) (fs w) = Inl e
           \<longrightarrow> fst (saveInstagramMedia env B this (Some f) ownerId mediaType fileType uuid w) = Inl e))"
proof -
  have swallowed: "(\<exists>b. fst (deleteAsset cat env B this ref w) = Inr b)
    \<and> (\<not> isVercel this \<and> startsWith r ''http'' \<and> urlPathname env r = None
          \<longrightarrow> deleteAsset cat env B this (Some r) w = (Inr False, w))
    \<and> (isVercel this \<and> r \<noteq> [] \<and> (\<forall>k s. isl (fst (api_del B k s)))
          \<longrightarrow> fst (deleteAsset cat env B this (Some r) w) = Inr False)" for cat
  proof (intro conjI impI)
    show "\<exists>b. fst (deleteAsset cat env B this ref w) = Inr b"
      by (rule deleteAsset_total)
    show "deleteAsset cat env B this (Some r) w = (Inr False, w)"
      if "\<not> isVercel this \<and> startsWith r ''http'' \<and> urlPathname env r = None"
      using that by (intro delete_invalid_url) simp_all
    show "fst (deleteAsset cat env B this (Some r) w) = Inr False"
      if h: "isVercel this \<and> r \<noteq> [] \<and> (\<forall>k s. isl (fst (api_del B k s)))"
    proof -
      have "fst (deleteFromBlob B r w) = Inr False"
        using h by (intro deleteFromBlob_all_fail) simp
      then show ?thesis
        using h by (cases "deleteFromBlob B r w") (simp add: deleteAsset_remote)
    qed
  qed
  have deletes: "D = deletePropertyImage \<or> D = deleteProfileImage \<or> D = deleteInstagramMedia \<longrightarrow>
      (\<exists>b. fst (D env B this ref w) = Inr b)
    \<and> (\<not> isVercel this \<and> startsWith r ''http'' \<and> urlPathname env r = None
          \<longrightarrow> D env B this (Some r) w = (Inr False, w))
    \<and> (isVercel this \<and> r \<noteq> [] \<and> (\<forall>k s. isl (fst (api_del B k s)))
          \<longrightarrow> fst (D env B this (Some r) w) = Inr False)"
    using swallowed unfolding delete_defs by blast
  have unlink: "\<not> isVercel this \<and> r \<noteq> [] \<and> localPathOf env category r = Inr localPath
        \<and> existsSync (fs w) (join [cwd env, localPath])
        \<and> unlinkSync (join [cwd env, localPath]) (fs w) = Inl e
        \<longrightarrow> deleteAsset category env B this (Some r) w = (Inr False, w)"
    using delete_unlink_fails by blast
  have saves: "(isVercel this \<longrightarrow>
        (fst (api_put B (key_layout ''profile-images'' None ownerId uuid (plainExtension f))
                (buffer f) (public_read f) (blob w)) = Inl e
           \<longrightarrow> fst (saveProfileImage env B this (Some f) ownerId uuid w) = Inl e)
      \<and> (fst (api_put B (key_layout ''property-images'' None ownerId uuid (plainExtension f))
                (buffer f) (public_read f) (blob w)) = Inl e
           \<longrightarrow> fst (savePropertyImage env B this (Some f) ownerId mediaType uuid w) = Inl e)
      \<and> (fst (api_put B (key_layout ''instagram-media'' (Some mediaType) ownerId uuid (plainExtension f))
                (buffer f) (public_read f) (blob w)) = Inl e
           \<longrightarrow> fst (saveInstagramMedia env B this (Some f) ownerId mediaType fileType uuid w) = Inl e))
   \<and> (\<not> isVercel this \<longrightarrow>
        (local_write (join [cwd env, ''uploads'', ''profile-images'', ownerId])
             (uuid @ plainExtension f) (buffer f) (fs w) = Inl e
           \<longrightarrow> fst (saveProfileImage env B this (Some f) ownerId uuid w) = Inl e)
      \<and> (local_write (join [cwd env, ''uploads'', ''property-images'', ownerId])
             (uuid @ propertyLocalExtension f mediaType) (buffer f) (fs w) = Inl e
           \<longrightarrow> fst (savePropertyImage env B this (Some f) ownerId mediaType uuid w) = Inl e)
      \<and> (local_write (join [cwd env, ''uploads'', ''instagram-media'', mediaType, ownerId])
             (uuid @ instagramLocalExtension f fileType) (buffer f) (fs w) = Inl e
           \<longrightarrow> fst (saveInstagramMedia env B this (Some f) ownerId mediaType fileType uuid w) = Inl e))"
    by (simp add: save_remote save_local uploadToBlob_eq after_put_def writeLocal_eq)
  have on_disk: "((D = deletePropertyImage \<and> category = ''property-images'')
          \<or> (D = deleteProfileImage \<and> category = ''profile-images'')
          \<or> (D = deleteInstagramMedia \<and> category = ''instagram-media''))
        \<and> \<not> isVercel this \<and> r \<noteq> [] \<and> localPathOf env category r = Inr localPath
        \<longrightarrow> D env B this (Some r) w =
             (case unlink_first (join [cwd env, localPath] # alternativePaths env category localPath) w of
                (b, w') \<Rightarrow> (Inr b, w'))"
  proof (intro impI, elim conjE)
    assume operation: "(D = deletePropertyImage \<and> category = ''property-images'')
          \<or> (D = deleteProfileImage \<and> category = ''profile-images'')
          \<or> (D = deleteInstagramMedia \<and> category = ''instagram-media'')"
      and h: "\<not> isVercel this" "r \<noteq> []" "localPathOf env category r = Inr localPath"
    have D: "D = deleteAsset category"
      using operation unfolding delete_defs by (elim disjE conjE) simp_all
    show "D env B this (Some r) w =
             (case unlink_first (join [cwd env, localPath] # alternativePaths env category localPath) w of
                (b, w') \<Rightarrow> (Inr b, w'))"
      unfolding D by (rule delete_local_unlink_first[OF h])
  qed
  have on_store: "(D = deletePropertyImage \<or> D = deleteProfileImage \<or> D = deleteInstagramMedia)
        \<and> isVercel this \<and> r \<noteq> []
        \<longrightarrow> D env B this (Some r) w =
             (case try_dels B (remote_attempts r) w of (b, w') \<Rightarrow> (Inr b, w'))"
  proof (intro impI, elim conjE)
    assume operation: "D = deletePropertyImage \<or> D = deleteProfileImage \<or> D = deleteInstagramMedia"
      and h: "isVercel this" "r \<noteq> []"
    obtain cat where D: "D = deleteAsset cat"
      using operation unfolding delete_defs by blast
    show "D env B this (Some r) w =
             (case try_dels B (remote_attempts r) w of (b, w') \<Rightarrow> (Inr b, w'))"
      unfolding D by (rule delete_remote_attempts[OF h])
  qed
  show ?thesis
    by (rule conjI[OF deletes conjI[OF unlink conjI[OF on_disk conjI[OF on_store saves]]]])
qed

theorem delete_swallows_save_propagates_witness:
  "deleteProfileImage local_env keyed_store local_service (Some ''http-no-url'') fresh_world
     = (Inr False, fresh_world)
   \<and> deleteAsset ''profile-images'' local_env keyed_store local_service (Some ''uploads/profile-images'')
         fresh_world
     = (Inr False, fresh_world)
   \<and> fst (deleteProfileImage vercel_env unreachable_store vercel_service (Some ''profile-images/u1/a.jpg'')
            fresh_world) = Inr False
   \<and> deleteProfileImage local_env keyed_store local_service (Some ''profile-images/u1/'') fresh_world
     = (Inr False, fresh_world)
   \<and> deleteProfileImage vercel_env keyed_store vercel_service
         (Some ''http://localhost:3000/profile-images/u1/a.jpg'') fresh_world
     = (Inr False, fresh_world\<lparr>calls := [DelCall ''http://localhost:3000/profile-images/u1/a.jpg'']\<rparr>)
   \<and> fst (saveProfileImage vercel_env unreachable_store vercel_service (Some jpeg_file) ''u1'' uuid0 fresh_world)
       = Inl (BlobError ''fetch failed'')
   \<and> fst (saveProfileImage local_env keyed_store local_service (Some jpeg_file) ''u1'' uuid0 blocked_world)
       = Inl ENOTDIR"
proof -
  note claim = delete_swallows_save_propagates
  have on_store: "isVercel vercel_service"
    and on_disk: "\<not> isVercel local_service"
    by (simp_all add: vercel_service_def local_service_def)
  have profile: "deleteProfileImage = deletePropertyImage \<or> deleteProfileImage = deleteProfileImage
      \<or> deleteProfileImage = deleteInstagramMedia"
    by simp
  have no_url: "\<not> isVercel local_service \<and> startsWith ''http-no-url'' ''http''
      \<and> urlPathname local_env ''http-no-url'' = None"
    by (simp add: local_service_def startsWith_def local_env_def plain_url_pathname_def)
  have directory: "\<not> isVercel local_service \<and> ''uploads/profile-images'' \<noteq> []
      \<and> localPathOf local_env ''profile-images'' ''uploads/profile-images'' = Inr ''uploads/profile-images''
      \<and> existsSync (fs fresh_world) (join [cwd local_env, ''uploads/profile-images''])
      \<and> unlinkSync (join [cwd local_env, ''uploads/profile-images'']) (fs fresh_world) = Inl EISDIR"
    by (simp add: local_service_def localPathOf_def startsWith_def existsSync_def unlinkSync_def
          fresh_world_def local_env_def path_defs)
  have fallback: "((deleteProfileImage = deletePropertyImage \<and> ''profile-images'' = ''property-images'')
          \<or> (deleteProfileImage = deleteProfileImage \<and> ''profile-images'' = ''profile-images'')
          \<or> (deleteProfileImage = deleteInstagramMedia \<and> ''profile-images'' = ''instagram-media''))
      \<and> \<not> isVercel local_service \<and> ''profile-images/u1/'' \<noteq> []
      \<and> localPathOf local_env ''profile-images'' ''profile-images/u1/'' = Inr ''uploads/profile-images/u1/''"
    by (simp add: local_service_def localPathOf_def startsWith_def)
  have one_call: "(deleteProfileImage = deletePropertyImage \<or> deleteProfileImage = deleteProfileImage
        \<or> deleteProfileImage = deleteInstagramMedia)
      \<and> isVercel vercel_service \<and> ''http://localhost:3000/profile-images/u1/a.jpg'' \<noteq> []"
    by (simp add: vercel_service_def)
  have offline: "isVercel vercel_service \<and> ''profile-images/u1/a.jpg'' \<noteq> []
      \<and> (\<forall>k s. isl (fst (api_del unreachable_store k s)))"
    by (simp add: vercel_service_def unreachable_store_def)
  have store_error: "fst (api_put unreachable_store
                  (key_layout ''profile-images'' None ''u1'' uuid0 (plainExtension jpeg_file))
                  (buffer jpeg_file) (public_read jpeg_file) (blob fresh_world))
                = Inl (BlobError ''fetch failed'')"
    by (simp add: unreachable_store_def)
  have disk_error: "local_write (join [cwd local_env, ''uploads'', ''profile-images'', ''u1''])
                 (uuid0 @ plainExtension jpeg_file) (buffer jpeg_file) (fs blocked_world) = Inl ENOTDIR"
    by (simp add: eval_defs)
  have "deleteProfileImage local_env keyed_store local_service (Some ''http-no-url'') fresh_world
     = (Inr False, fresh_world)"
    using claim [THEN conjunct1, rule_format, OF profile, THEN conjunct2, THEN conjunct1, rule_format,
        OF no_url] .
  moreover have "deleteAsset ''profile-images'' local_env keyed_store local_service
      (Some ''uploads/profile-images'') fresh_world = (Inr False, fresh_world)"
    using claim [THEN conjunct2, THEN conjunct1, rule_format, OF directory] .
  moreover have "deleteProfileImage local_env keyed_store local_service
      (Some ''profile-images/u1/'') fresh_world = (Inr False, fresh_world)"
    unfolding claim [THEN conjunct2, THEN conjunct2, THEN conjunct1, rule_format, OF fallback]
    by (simp add: alternativePaths_def existsSync_def unlinkSync_def fresh_world_def local_env_def path_defs)
  moreover have "deleteProfileImage vercel_env keyed_store vercel_service
      (Some ''http://localhost:3000/profile-images/u1/a.jpg'') fresh_world
     = (Inr False, fresh_world\<lparr>calls := [DelCall ''http://localhost:3000/profile-images/u1/a.jpg'']\<rparr>)"
    unfolding claim [THEN conjunct2, THEN conjunct2, THEN conjunct2, THEN conjunct1, rule_format,
        OF one_call]
    by (simp add: remote_attempts_def startsWith_def keyed_store_def store_key_def blob_host_def
          fresh_world_def)
  moreover have "fst (deleteProfileImage vercel_env unreachable_store vercel_service
            (Some ''profile-images/u1/a.jpg'') fresh_world) = Inr False"
    using claim [THEN conjunct1, rule_format, OF profile, THEN conjunct2, THEN conjunct2, rule_format,
        OF offline] .
  moreover have "fst (saveProfileImage vercel_env unreachable_store vercel_service (Some jpeg_file)
                        ''u1'' uuid0 fresh_world) = Inl (BlobError ''fetch failed'')"
    using claim [THEN conjunct2, THEN conjunct2, THEN conjunct2, THEN conjunct2, THEN conjunct1,
        rule_format, OF on_store, THEN conjunct1, rule_format, OF store_error] .
  moreover have "fst (saveProfileImage local_env keyed_store local_service (Some jpeg_file)
                        ''u1'' uuid0 blocked_world) = Inl ENOTDIR"
    using claim [THEN conjunct2, THEN conjunct2, THEN conjunct2, THEN conjunct2, THEN conjunct2,
        rule_format, OF on_disk, THEN conjunct1, rule_format, OF disk_error] .
  ultimately show ?thesis by (intro conjI)
qed

end
